(* ===== verification/Sfd_Prelude.thy ===== *)
theory Sfd_Prelude
  imports Main "HOL-Library.Word"
begin

text \<open>
  Shared vocabulary of the sendfiled development: the C integer types at their widths on the
  LP64 platforms the program supports, the \<open>errno\<close> values and the macro \<open>SFD_MIN\<close> the sources
  use, C strings as byte lists, the little-endian image of a 64-bit field inside a message
  structure, and generic facts on lists, options and words. The collections \<open>pdu_simps\<close>,
  \<open>wp_simps\<close> and \<open>table_simps\<close> gather the rewriting facts the component theories share.
\<close>

unbundle bit_operations_syntax

named_theorems pdu_simps
named_theorems wp_simps
named_theorems stable_intros \<open>rules for predicates that programs keep\<close>
named_theorems table_simps

section \<open>C integer types\<close>

type_synonym byte = "8 word"
type_synonym size_t = "64 word"
type_synonym off_t = "64 word"
type_synonym fd = int
type_synonym pid_t = int
type_synonym uid_t = nat
type_synonym errno_t = int

text \<open>\<open>SFD_MIN\<close> of \<open>impl/util.h\<close> on operands of type \<open>size_t\<close>.\<close>

definition SFD_MIN :: "size_t \<Rightarrow> size_t \<Rightarrow> size_t" where
  "SFD_MIN a b = (if a < b then a else b)"

section \<open>Values of errno (Linux)\<close>

definition EPERM :: errno_t where "EPERM = 1"
definition EINTR :: errno_t where "EINTR = 4"
definition EBADF :: errno_t where "EBADF = 9"
definition EAGAIN :: errno_t where "EAGAIN = 11"
definition EWOULDBLOCK :: errno_t where "EWOULDBLOCK = 11"
definition ENOMEM :: errno_t where "ENOMEM = 12"
definition EACCES :: errno_t where "EACCES = 13"
definition EINVAL :: errno_t where "EINVAL = 22"
definition ENFILE :: errno_t where "ENFILE = 23"
definition EMFILE :: errno_t where "EMFILE = 24"
definition ENOSPC :: errno_t where "ENOSPC = 28"
definition ERANGE :: errno_t where "ERANGE = 34"
definition ENAMETOOLONG :: errno_t where "ENAMETOOLONG = 36"
definition ENOLCK :: errno_t where "ENOLCK = 37"
definition EADDRINUSE :: errno_t where "EADDRINUSE = 98"
definition ENOBUFS :: errno_t where "ENOBUFS = 105"
definition ETIMEDOUT :: errno_t where "ETIMEDOUT = 110"

lemmas errno_defs =
  EPERM_def EINTR_def EBADF_def EAGAIN_def EWOULDBLOCK_def ENOMEM_def EACCES_def EINVAL_def
  ENFILE_def EMFILE_def ENOSPC_def ERANGE_def ENAMETOOLONG_def ENOLCK_def EADDRINUSE_def
  ENOBUFS_def ETIMEDOUT_def

section \<open>C strings\<close>

text \<open>
  A \<open>const char*\<close> is the list of bytes found in memory from the address on. The string it
  denotes ends before the first NUL byte; \<open>strnlen\<close> looks at no more than \<open>n\<close> bytes.
\<close>

definition cstr :: "byte list \<Rightarrow> byte list" where
  "cstr bs = takeWhile (\<lambda>b. b \<noteq> 0) bs"

definition strlen :: "byte list \<Rightarrow> nat" where
  "strlen bs = length (cstr bs)"

definition strnlen :: "byte list \<Rightarrow> nat \<Rightarrow> nat" where
  "strnlen bs n = length (cstr (take n bs))"

lemma cstr_terminated [simp]: "0 \<notin> set name \<Longrightarrow> cstr (name @ 0 # rest) = name"
  unfolding cstr_def by (induction name) auto

lemma cstr_no_nul: "0 \<notin> set (cstr bs)"
  unfolding cstr_def by (induction bs) auto

lemma cstr_take: "cstr (take n bs) = take n (cstr bs)"
  unfolding cstr_def
proof (induction bs arbitrary: n)
  case (Cons b bs)
  then show ?case by (cases n) auto
qed simp

lemma strnlen_le: "strnlen bs n \<le> n"
  by (simp add: strnlen_def cstr_take)

lemma strnlen_strlen: "strnlen bs n = min n (strlen bs)"
  by (simp add: strnlen_def strlen_def cstr_take)

lemma strlen_terminated [simp]: "0 \<notin> set name \<Longrightarrow> strlen (name @ 0 # rest) = length name"
  by (simp add: strlen_def)

lemma cstr_nul_within: "i < length bs \<Longrightarrow> bs ! i = 0 \<Longrightarrow> strlen bs \<le> i"
  unfolding strlen_def cstr_def
proof (induction bs arbitrary: i)
  case (Cons b bs)
  then show ?case by (cases i) auto
qed simp

section \<open>Little-endian images of 64-bit fields\<close>

fun le_enc :: "nat \<Rightarrow> 64 word \<Rightarrow> byte list" where
  "le_enc 0 w = []"
| "le_enc (Suc n) w = ucast w # le_enc n (drop_bit 8 w)"

fun le_dec :: "byte list \<Rightarrow> 64 word" where
  "le_dec [] = 0"
| "le_dec (b # bs) = ucast b OR push_bit 8 (le_dec bs)"

text \<open>The image of a field and the field found at an offset of a buffer.\<close>

definition le64 :: "64 word \<Rightarrow> byte list" where
  "le64 w = le_enc 8 w"

definition field64 :: "nat \<Rightarrow> byte list \<Rightarrow> 64 word" where
  "field64 off bs = le_dec (take 8 (drop off bs))"

lemma length_le_enc [simp]: "length (le_enc n w) = n"
  by (induction n arbitrary: w) auto

lemma length_le64 [simp, pdu_simps]: "length (le64 w) = 8"
  by (simp add: le64_def)

lemma ucast8_or_shift:
  fixes w :: "64 word"
  shows "ucast (ucast w :: 8 word) OR push_bit 8 (take_bit n (drop_bit 8 w)) = take_bit (8 + n) w"
  by (rule bit_word_eqI) (auto simp: bit_simps)

lemma le_dec_enc: "le_dec (le_enc n w) = take_bit (8 * n) w"
proof (induction n arbitrary: w)
  case (Suc n)
  then show ?case by (simp add: ucast8_or_shift)
qed simp

lemma le_dec_le64 [simp, pdu_simps]: "le_dec (le64 w) = w"
  by (simp add: le64_def le_dec_enc take_bit_word_eq_self)

lemma ucast_head: "(ucast (ucast (b :: byte) OR push_bit 8 (w :: 64 word)) :: byte) = b"
  by (rule bit_word_eqI) (auto simp: bit_simps)

lemma drop_head: "n < 8 \<Longrightarrow> take_bit (8 * n) w = w \<Longrightarrow>
    drop_bit 8 (ucast (b :: byte) OR push_bit 8 (w :: 64 word)) = w"
proof (rule bit_word_eqI)
  fix k
  assume n: "n < 8" and w: "take_bit (8 * n) w = w" and k: "k < LENGTH(64)"
  have "bit w k \<Longrightarrow> k < 8 * n"
    using arg_cong [OF w, of "\<lambda>v. bit v k"] by (auto simp: bit_simps)
  with n have "bit w k \<Longrightarrow> k + 8 < 64" by simp
  moreover have "\<not> bit b (k + 8)"
    using bit_imp_le_length [of b "k + 8"] by auto
  ultimately show "bit (drop_bit 8 (ucast b OR push_bit 8 w)) k = bit w k"
    by (auto simp: bit_simps add.commute)
qed

lemma le_dec_bound: "length bs \<le> 8 \<Longrightarrow> take_bit (8 * length bs) (le_dec bs) = le_dec bs"
proof (induction bs)
  case (Cons b bs)
  then have IH: "take_bit (8 * length bs) (le_dec bs) = le_dec bs" by simp
  show ?case
  proof (rule bit_word_eqI)
    fix k
    assume "k < LENGTH(64)"
    have "bit (le_dec bs) (k - 8) \<Longrightarrow> k - 8 < 8 * length bs"
      using arg_cong [OF IH, of "\<lambda>v. bit v (k - 8)"] by (auto simp: bit_simps)
    moreover have "bit b k \<Longrightarrow> k < 8"
      using bit_imp_le_length [of b k] by simp
    ultimately show "bit (take_bit (8 * length (b # bs)) (le_dec (b # bs))) k
      = bit (le_dec (b # bs)) k"
      by (auto simp: bit_simps)
  qed
qed simp

lemma le_enc_dec: "length bs = n \<Longrightarrow> n \<le> 8 \<Longrightarrow> le_enc n (le_dec bs) = bs"
proof (induction bs arbitrary: n)
  case (Cons b bs)
  then obtain m where n: "n = Suc m" and m: "length bs = m" by auto
  with Cons have IH: "le_enc m (le_dec bs) = bs" and "m < 8" by auto
  moreover have "take_bit (8 * m) (le_dec bs) = le_dec bs"
    using le_dec_bound [of bs] m \<open>m < 8\<close> by simp
  ultimately have "drop_bit 8 (le_dec (b # bs)) = le_dec bs" by (simp only: le_dec.simps drop_head)
  then show ?case using IH by (simp only: n le_enc.simps) (simp add: ucast_head)
qed simp

lemma le64_dec: "length bs = 8 \<Longrightarrow> le64 (le_dec bs) = bs"
  by (simp add: le64_def le_enc_dec)

lemma le64_inject [simp]: "le64 v = le64 w \<longleftrightarrow> v = w"
  by (metis le_dec_le64)

lemma field64_here: "length pre = off \<Longrightarrow> field64 off (pre @ le64 w @ post) = w"
  by (simp add: field64_def)

section \<open>Words\<close>

lemma unat_SFD_MIN [simp]: "unat (SFD_MIN a b) = min (unat a) (unat b)"
  by (auto simp: SFD_MIN_def word_less_nat_alt min_def)

lemma SFD_MIN_le1: "SFD_MIN a b \<le> a" and SFD_MIN_le2: "SFD_MIN a b \<le> b"
  by (auto simp: SFD_MIN_def)

lemma SFD_MIN_pos_iff: "0 < SFD_MIN a b \<longleftrightarrow> 0 < a \<and> 0 < b"
  by (auto simp: SFD_MIN_def)

section \<open>Lists\<close>

lemma distinct_remove_last_into:
  assumes "distinct xs" and "i < length xs"
  shows "distinct (butlast (xs[i := last xs]))"
    and "set (butlast (xs[i := last xs])) = set xs - {xs ! i}"
proof -
  obtain ys y where xs: "xs = ys @ [y]"
    using assms(2) by (cases xs rule: rev_cases) auto
  define zs where "zs = butlast (xs[i := last xs])"
  have *: "zs = (if i < length ys then ys[i := y] else ys)"
    using assms(2) xs unfolding zs_def
    by (auto simp: list_update_append butlast_append less_Suc_eq split: nat.splits)
  have "distinct zs"
    using assms(1) by (simp add: * xs distinct_list_update)
  then show "distinct (butlast (xs[i := last xs]))" by (simp add: zs_def)
  have "set zs = set xs - {xs ! i}"
    using assms by (auto simp: * xs nth_append set_update_distinct split: if_splits)
  then show "set (butlast (xs[i := last xs])) = set xs - {xs ! i}" by (simp add: zs_def)
qed

end
