(* ===== verification/Sfd_Protocol.thy ===== *)
theory Sfd_Protocol
  imports Sfd_Prelude
begin

text \<open>
  The message formats: \<open>impl/protocol.h\<close> and \<open>responses.h\<close> (command ids, the message structures
  and their sizes), \<open>impl/protocol_client.c\<close> (building requests), \<open>impl/protocol_server.c\<close>
  (reading requests, building responses) and \<open>responses.c\<close> (reading responses). A structure is a
  record; the bytes it occupies on LP64 are given by an image function, with the compiler's
  padding as the zero bytes the marshalling functions write. \<open>off_t\<close> fields are the 64-bit
  two's-complement word. The locale \<open>pdu_codec\<close> is the interface of a fixed-size message type;
  it is interpreted for every message type that is copied byte for byte.
\<close>

section \<open>Command ids and sizes\<close>

definition PROT_CMD_FILE_OPEN :: byte where "PROT_CMD_FILE_OPEN = 0x01"
definition PROT_CMD_READ :: byte where "PROT_CMD_READ = 0x02"
definition PROT_CMD_SEND :: byte where "PROT_CMD_SEND = 0x03"
definition PROT_CMD_SEND_OPEN :: byte where "PROT_CMD_SEND_OPEN = 0x04"
definition PROT_CMD_CANCEL :: byte where "PROT_CMD_CANCEL = 0x05"
definition SFD_FILE_INFO :: byte where "SFD_FILE_INFO = 0x81"
definition SFD_XFER_STAT :: byte where "SFD_XFER_STAT = 0x82"
definition SFD_STAT_OK :: byte where "SFD_STAT_OK = 0"

lemmas cmd_defs =
  PROT_CMD_FILE_OPEN_def PROT_CMD_READ_def PROT_CMD_SEND_def PROT_CMD_SEND_OPEN_def
  PROT_CMD_CANCEL_def SFD_FILE_INFO_def SFD_XFER_STAT_def SFD_STAT_OK_def

definition PROT_IS_REQUEST :: "byte \<Rightarrow> bool" where
  "PROT_IS_REQUEST c \<longleftrightarrow> c AND 0x80 = 0"

definition PROT_MAXFDS :: nat where "PROT_MAXFDS = 2"
definition PROT_FILENAME_MAX :: nat where "PROT_FILENAME_MAX = 512"
definition PROT_REQ_BASE_SIZE :: nat where "PROT_REQ_BASE_SIZE = 24"
definition PROT_REQ_MINSIZE :: nat where "PROT_REQ_MINSIZE = PROT_REQ_BASE_SIZE + 1 + 1"

text \<open>\<open>sizeof(struct prot_request)\<close> is 40 on LP64: the 24 bytes that are sent, a pointer and a
  length.\<close>

definition PROT_REQ_MAXSIZE :: nat where "PROT_REQ_MAXSIZE = 40 + PROT_FILENAME_MAX + 1"
definition PROT_XFER_COMPLETE :: size_t where "PROT_XFER_COMPLETE = - 1"

lemmas size_defs =
  PROT_MAXFDS_def PROT_FILENAME_MAX_def PROT_REQ_BASE_SIZE_def PROT_REQ_MINSIZE_def
  PROT_REQ_MAXSIZE_def PROT_XFER_COMPLETE_def

section \<open>Message structures\<close>

record prot_hdr =
  hdr_cmd :: byte
  hdr_stat :: byte

text \<open>\<open>filename\<close> is the memory the pointer refers to (\<open>None\<close> for a null pointer).\<close>

record prot_request =
  rq_cmd :: byte
  rq_stat :: byte
  rq_offset :: off_t
  rq_len :: size_t
  rq_filename :: "byte list option"
  rq_filename_len :: nat

record prot_send_open =
  so_cmd :: byte
  so_stat :: byte
  so_txnid :: size_t

record prot_cancel =
  ca_cmd :: byte
  ca_stat :: byte
  ca_txnid :: size_t

record sfd_file_info =
  fi_cmd :: byte
  fi_stat :: byte
  fi_size :: size_t
  fi_atime :: "64 word"
  fi_mtime :: "64 word"
  fi_ctime :: "64 word"
  fi_txnid :: size_t

record sfd_xfer_stat =
  xs_cmd :: byte
  xs_stat :: byte
  xs_size :: size_t

section \<open>Images of the structures\<close>

definition pad6 :: "byte list" where
  "pad6 = replicate 6 0"

definition hdr_bytes :: "prot_hdr \<Rightarrow> byte list" where
  "hdr_bytes h = [hdr_cmd h, hdr_stat h]"

definition request_base_bytes :: "prot_request \<Rightarrow> byte list" where
  "request_base_bytes r = [rq_cmd r, rq_stat r] @ pad6 @ le64 (rq_offset r) @ le64 (rq_len r)"

definition send_open_bytes :: "prot_send_open \<Rightarrow> byte list" where
  "send_open_bytes p = [so_cmd p, so_stat p] @ pad6 @ le64 (so_txnid p)"

definition cancel_bytes :: "prot_cancel \<Rightarrow> byte list" where
  "cancel_bytes p = [ca_cmd p, ca_stat p] @ pad6 @ le64 (ca_txnid p)"

definition file_info_bytes :: "sfd_file_info \<Rightarrow> byte list" where
  "file_info_bytes p = [fi_cmd p, fi_stat p] @ pad6 @ le64 (fi_size p) @ le64 (fi_atime p) @
     le64 (fi_mtime p) @ le64 (fi_ctime p) @ le64 (fi_txnid p)"

definition xfer_stat_bytes :: "sfd_xfer_stat \<Rightarrow> byte list" where
  "xfer_stat_bytes p = [xs_cmd p, xs_stat p] @ pad6 @ le64 (xs_size p)"

text \<open>The datagram of a request as the macro \<open>REQ_IOVS\<close> lays it out: the base of the structure,
  then the name with its NUL.\<close>

definition REQ_IOVS :: "prot_request \<Rightarrow> byte list" where
  "REQ_IOVS r = request_base_bytes r @
     take (rq_filename_len r + 1) (case rq_filename r of None \<Rightarrow> [] | Some m \<Rightarrow> m)"

section \<open>Reading the header (responses.c)\<close>

definition sfd_get_cmd :: "byte list \<Rightarrow> byte" where
  "sfd_get_cmd buf = buf ! 0"

definition sfd_get_stat :: "byte list \<Rightarrow> byte" where
  "sfd_get_stat buf = buf ! 1"

definition HDR_OK :: "byte list \<Rightarrow> byte \<Rightarrow> bool" where
  "HDR_OK buf c \<longleftrightarrow> sfd_get_cmd buf = c \<and> sfd_get_stat buf = SFD_STAT_OK"

section \<open>Client side: building requests (protocol\_client.c)\<close>

definition marshal_req ::
  "byte \<Rightarrow> off_t \<Rightarrow> size_t \<Rightarrow> byte list option \<Rightarrow> errno_t + prot_request" where
  "marshal_req cmd offset len filename =
     (let namelen = (case filename of Some m \<Rightarrow> strnlen m (PROT_FILENAME_MAX + 1) | None \<Rightarrow> 0)
      in if namelen = PROT_FILENAME_MAX + 1 then Inl ENAMETOOLONG
         else Inr \<lparr>rq_cmd = cmd, rq_stat = SFD_STAT_OK, rq_offset = offset, rq_len = len,
                   rq_filename = filename, rq_filename_len = namelen\<rparr>)"

definition prot_marshal_read ::
  "byte list option \<Rightarrow> off_t \<Rightarrow> size_t \<Rightarrow> errno_t + prot_request" where
  "prot_marshal_read filename offset len = marshal_req PROT_CMD_READ offset len filename"

definition prot_marshal_file_open ::
  "byte list option \<Rightarrow> off_t \<Rightarrow> size_t \<Rightarrow> errno_t + prot_request" where
  "prot_marshal_file_open filename offset len = marshal_req PROT_CMD_FILE_OPEN offset len filename"

definition prot_marshal_send ::
  "byte list option \<Rightarrow> off_t \<Rightarrow> size_t \<Rightarrow> errno_t + prot_request" where
  "prot_marshal_send filename offset len = marshal_req PROT_CMD_SEND offset len filename"

definition prot_marshal_send_open :: "size_t \<Rightarrow> prot_send_open" where
  "prot_marshal_send_open txnid =
     \<lparr>so_cmd = PROT_CMD_SEND_OPEN, so_stat = SFD_STAT_OK, so_txnid = txnid\<rparr>"

definition prot_marshal_cancel :: "size_t \<Rightarrow> prot_cancel" where
  "prot_marshal_cancel txnid =
     \<lparr>ca_cmd = PROT_CMD_CANCEL, ca_stat = SFD_STAT_OK, ca_txnid = txnid\<rparr>"

section \<open>Server side: reading requests (protocol\_server.c)\<close>

text \<open>
  \<open>buf\<close> is the whole receive buffer and \<open>sz\<close> the length of the datagram in it. The result is
  \<open>Inl\<close> where the function returns false, with the \<open>errno\<close> it sets, if it sets one. The file
  name of the result is the memory from the end of the base on.
\<close>

definition prot_unmarshal_request :: "byte list \<Rightarrow> nat \<Rightarrow> errno_t option + prot_request" where
  "prot_unmarshal_request buf sz =
     (if sz < PROT_REQ_MINSIZE then Inl None
      else if sfd_get_cmd buf \<noteq> PROT_CMD_SEND \<and> sfd_get_cmd buf \<noteq> PROT_CMD_READ \<and>
              sfd_get_cmd buf \<noteq> PROT_CMD_FILE_OPEN then Inl None
      else if sfd_get_stat buf \<noteq> SFD_STAT_OK then Inl None
      else if buf ! (sz - 1) \<noteq> 0 then Inl None
      else (let fname_len = sz - PROT_REQ_BASE_SIZE - 1
            in if fname_len > PROT_FILENAME_MAX then Inl (Some ENAMETOOLONG)
               else Inr \<lparr>rq_cmd = buf ! 0, rq_stat = buf ! 1,
                         rq_offset = field64 8 buf, rq_len = field64 16 buf,
                         rq_filename = Some (drop PROT_REQ_BASE_SIZE buf),
                         rq_filename_len = fname_len\<rparr>))"

text \<open>The two messages that carry a transaction id are copied out of the buffer at their full
  size of 16 bytes, whatever the length of the datagram.\<close>

definition prot_unmarshal_send_open :: "byte list \<Rightarrow> prot_send_open option" where
  "prot_unmarshal_send_open buf =
     (if sfd_get_cmd buf \<noteq> PROT_CMD_SEND_OPEN \<or> sfd_get_stat buf \<noteq> SFD_STAT_OK then None
      else Some \<lparr>so_cmd = buf ! 0, so_stat = buf ! 1, so_txnid = field64 8 buf\<rparr>)"

definition prot_unmarshal_cancel :: "byte list \<Rightarrow> prot_cancel option" where
  "prot_unmarshal_cancel buf =
     (if sfd_get_cmd buf \<noteq> PROT_CMD_CANCEL \<or> sfd_get_stat buf \<noteq> SFD_STAT_OK then None
      else Some \<lparr>ca_cmd = buf ! 0, ca_stat = buf ! 1, ca_txnid = field64 8 buf\<rparr>)"

section \<open>Server side: building responses\<close>

definition prot_marshal_file_info ::
  "size_t \<Rightarrow> 64 word \<Rightarrow> 64 word \<Rightarrow> 64 word \<Rightarrow> size_t \<Rightarrow> sfd_file_info" where
  "prot_marshal_file_info file_size atime mtime ctime txnid =
     \<lparr>fi_cmd = SFD_FILE_INFO, fi_stat = SFD_STAT_OK, fi_size = file_size, fi_atime = atime,
      fi_mtime = mtime, fi_ctime = ctime, fi_txnid = txnid\<rparr>"

definition prot_marshal_xfer_stat :: "size_t \<Rightarrow> sfd_xfer_stat" where
  "prot_marshal_xfer_stat file_size =
     \<lparr>xs_cmd = SFD_XFER_STAT, xs_stat = SFD_STAT_OK, xs_size = file_size\<rparr>"

section \<open>Client side: reading responses (responses.c)\<close>

definition sfd_unmarshal_file_info :: "byte list \<Rightarrow> sfd_file_info option" where
  "sfd_unmarshal_file_info buf =
     (if \<not> HDR_OK buf SFD_FILE_INFO then None
      else Some \<lparr>fi_cmd = buf ! 0, fi_stat = buf ! 1, fi_size = field64 8 buf,
                 fi_atime = field64 16 buf, fi_mtime = field64 24 buf,
                 fi_ctime = field64 32 buf, fi_txnid = field64 40 buf\<rparr>)"

definition sfd_unmarshal_xfer_stat :: "byte list \<Rightarrow> sfd_xfer_stat option" where
  "sfd_unmarshal_xfer_stat buf =
     (if \<not> HDR_OK buf SFD_XFER_STAT then None
      else Some \<lparr>xs_cmd = buf ! 0, xs_stat = buf ! 1, xs_size = field64 8 buf\<rparr>)"

definition sfd_xfer_complete :: "sfd_xfer_stat \<Rightarrow> bool" where
  "sfd_xfer_complete p \<longleftrightarrow> xs_size p = PROT_XFER_COMPLETE"

section \<open>The interface of a fixed-size message\<close>

text \<open>
  What the two processes rely on for a message type that is copied byte for byte: its image has
  one size, reading it back gives the structure whatever follows it in the buffer, and what is
  read is a message of that type. Streams of such messages can then be told apart.
\<close>

locale pdu_codec =
  fixes enc :: "'p \<Rightarrow> byte list"
    and dec :: "byte list \<Rightarrow> 'p option"
    and wf :: "'p \<Rightarrow> bool"
    and width :: nat
  assumes enc_width: "length (enc p) = width"
    and dec_enc: "wf p \<Longrightarrow> dec (enc p @ rest) = Some p"
    and dec_wf: "dec bs = Some p \<Longrightarrow> wf p"
    and width_pos: "0 < width"
begin

lemma dec_enc_exact: "wf p \<Longrightarrow> dec (enc p) = Some p"
  using dec_enc [of p "[]"] by simp

lemma enc_inj: "wf p \<Longrightarrow> wf q \<Longrightarrow> enc p = enc q \<Longrightarrow> p = q"
  using dec_enc_exact by (metis option.inject)

lemma enc_prefix_free:
  "wf p \<Longrightarrow> wf q \<Longrightarrow> enc p @ xs = enc q @ ys \<Longrightarrow> p = q \<and> xs = ys"
proof -
  assume wf: "wf p" "wf q" and eq: "enc p @ xs = enc q @ ys"
  have "Some p = Some q"
    using dec_enc [OF wf(1), of xs] dec_enc [OF wf(2), of ys] unfolding eq by simp
  with eq show ?thesis by simp
qed

lemma stream_inj:
  assumes "\<forall>p \<in> set ps. wf p" and "\<forall>q \<in> set qs. wf q"
    and "concat (map enc ps) = concat (map enc qs)"
  shows "ps = qs"
  using assms
proof (induction ps arbitrary: qs)
  case Nil
  have "enc q \<noteq> []" for q using enc_width [of q] width_pos by auto
  with Nil show ?case by (cases qs) auto
next
  case (Cons p ps)
  have "enc p \<noteq> []" using enc_width [of p] width_pos by auto
  with Cons.prems obtain q qs' where qs: "qs = q # qs'" by (cases qs) auto
  have eq: "enc p @ concat (map enc ps) = enc q @ concat (map enc qs')"
    using Cons.prems(3) qs by (simp only: list.map concat.simps)
  have "p = q \<and> concat (map enc ps) = concat (map enc qs')"
    by (rule enc_prefix_free [OF _ _ eq]) (use Cons.prems qs in simp_all)
  moreover from this have "ps = qs'"
    by (intro Cons.IH) (use Cons.prems qs in simp_all)
  ultimately show ?case using qs by simp
qed

lemma stream_progress:
  "dec (concat (map enc (p # ps))) = Some p" if "wf p"
  using dec_enc [OF that] by simp

end

section \<open>The message types implement the interface\<close>

lemma length_pad6 [simp, pdu_simps]: "length pad6 = 6"
  by (simp add: pad6_def)

lemma field64_at:
  "length a = 2 \<Longrightarrow> field64 8 (a @ pad6 @ le64 w @ r) = w"
  "length a = 2 \<Longrightarrow> field64 16 (a @ pad6 @ le64 v @ le64 w @ r) = w"
  "length a = 2 \<Longrightarrow> field64 24 (a @ pad6 @ le64 u @ le64 v @ le64 w @ r) = w"
  "length a = 2 \<Longrightarrow> field64 32 (a @ pad6 @ le64 t @ le64 u @ le64 v @ le64 w @ r) = w"
  "length a = 2 \<Longrightarrow> field64 40 (a @ pad6 @ le64 s @ le64 t @ le64 u @ le64 v @ le64 w @ r) = w"
  by (simp_all add: field64_def)

lemmas field64_hdr [simp, pdu_simps] = field64_at [of "[c, st]" for c st, simplified]

lemmas bytes_defs =
  hdr_bytes_def request_base_bytes_def send_open_bytes_def cancel_bytes_def
  file_info_bytes_def xfer_stat_bytes_def

lemmas hdr_read_defs = sfd_get_cmd_def sfd_get_stat_def HDR_OK_def

interpretation send_open: pdu_codec send_open_bytes prot_unmarshal_send_open
  "\<lambda>p. so_cmd p = PROT_CMD_SEND_OPEN \<and> so_stat p = SFD_STAT_OK" 16
  by unfold_locales (auto simp: bytes_defs prot_unmarshal_send_open_def hdr_read_defs split: if_splits)

interpretation cancel: pdu_codec cancel_bytes prot_unmarshal_cancel
  "\<lambda>p. ca_cmd p = PROT_CMD_CANCEL \<and> ca_stat p = SFD_STAT_OK" 16
  by unfold_locales (auto simp: bytes_defs prot_unmarshal_cancel_def hdr_read_defs split: if_splits)

interpretation file_info: pdu_codec file_info_bytes sfd_unmarshal_file_info
  "\<lambda>p. fi_cmd p = SFD_FILE_INFO \<and> fi_stat p = SFD_STAT_OK" 48
  by unfold_locales (auto simp: bytes_defs sfd_unmarshal_file_info_def hdr_read_defs split: if_splits)

interpretation xfer_stat: pdu_codec xfer_stat_bytes sfd_unmarshal_xfer_stat
  "\<lambda>p. xs_cmd p = SFD_XFER_STAT \<and> xs_stat p = SFD_STAT_OK" 16
  by unfold_locales (auto simp: bytes_defs sfd_unmarshal_xfer_stat_def hdr_read_defs split: if_splits)

section \<open>Requests\<close>

lemma length_request_base [simp]: "length (request_base_bytes r) = PROT_REQ_BASE_SIZE"
  by (simp add: request_base_bytes_def size_defs)

lemma request_base_fields [simp]:
  "(request_base_bytes r @ rest) ! 0 = rq_cmd r"
  "(request_base_bytes r @ rest) ! 1 = rq_stat r"
  "field64 8 (request_base_bytes r @ rest) = rq_offset r"
  "field64 16 (request_base_bytes r @ rest) = rq_len r"
  by (simp_all add: request_base_bytes_def)

lemma marshal_req_Inr:
  assumes "0 \<notin> set name" and "length name \<le> PROT_FILENAME_MAX"
  shows "marshal_req c off len (Some (name @ 0 # mem)) =
    Inr \<lparr>rq_cmd = c, rq_stat = SFD_STAT_OK, rq_offset = off, rq_len = len,
         rq_filename = Some (name @ 0 # mem), rq_filename_len = length name\<rparr>"
  using assms by (simp add: marshal_req_def strnlen_strlen min_def)

lemma unmarshal_datagram:
  fixes r :: prot_request
  assumes "rq_cmd r \<in> {PROT_CMD_SEND, PROT_CMD_READ, PROT_CMD_FILE_OPEN}"
    and "rq_stat r = SFD_STAT_OK"
    and "name \<noteq> []" and "length name \<le> PROT_FILENAME_MAX"
  shows "prot_unmarshal_request (request_base_bytes r @ name @ 0 # rest)
      (length (request_base_bytes r @ name @ [0])) =
    Inr \<lparr>rq_cmd = rq_cmd r, rq_stat = rq_stat r, rq_offset = rq_offset r, rq_len = rq_len r,
         rq_filename = Some (name @ 0 # rest), rq_filename_len = length name\<rparr>"
proof -
  have sz: "\<not> PROT_REQ_BASE_SIZE + Suc (length name) < PROT_REQ_MINSIZE"
    using assms(3) by (cases name) (auto simp: size_defs)
  have nul: "(request_base_bytes r @ name @ 0 # rest) ! (PROT_REQ_BASE_SIZE + length name) = 0"
    by (simp add: nth_append)
  show ?thesis
    using assms sz nul by (auto simp: prot_unmarshal_request_def sfd_get_cmd_def sfd_get_stat_def
        Let_def request_base_fields [simplified])
qed

section \<open>Properties\<close>

text \<open>C22: A request built by the client for one of the three file operations, sent as the datagram
  of \<open>REQ_IOVS\<close> and received at the start of a buffer with any contents behind it, is read back by
  the server with the same command, offset and length, and with the same file name. The name is
  any non-empty NUL-terminated string of at most \<open>PROT_FILENAME_MAX\<close> bytes.\<close>

theorem request_roundtrip:
  assumes "cmd \<in> {PROT_CMD_SEND, PROT_CMD_READ, PROT_CMD_FILE_OPEN}"
    and "0 \<notin> set name" and "name \<noteq> []" and "length name \<le> PROT_FILENAME_MAX"
  shows "\<exists>req. marshal_req cmd off len (Some (name @ 0 # mem)) = Inr req \<and>
    length (REQ_IOVS req) = PROT_REQ_BASE_SIZE + length name + 1 \<and>
    (\<exists>pdu. prot_unmarshal_request (REQ_IOVS req @ rest) (length (REQ_IOVS req)) = Inr pdu \<and>
       rq_cmd pdu = cmd \<and> rq_stat pdu = SFD_STAT_OK \<and> rq_offset pdu = off \<and> rq_len pdu = len \<and>
       rq_filename_len pdu = length name \<and> map_option cstr (rq_filename pdu) = Some name)"
proof -
  define req where "req = \<lparr>rq_cmd = cmd, rq_stat = SFD_STAT_OK, rq_offset = off, rq_len = len,
         rq_filename = Some (name @ 0 # mem), rq_filename_len = length name\<rparr>"
  have m: "marshal_req cmd off len (Some (name @ 0 # mem)) = Inr req"
    using assms by (simp add: marshal_req_Inr req_def)
  have i: "REQ_IOVS req = request_base_bytes req @ name @ [0]"
    by (simp add: REQ_IOVS_def req_def)
  have "prot_unmarshal_request (REQ_IOVS req @ rest) (length (REQ_IOVS req)) =
    Inr \<lparr>rq_cmd = rq_cmd req, rq_stat = rq_stat req, rq_offset = rq_offset req,
      rq_len = rq_len req, rq_filename = Some (name @ 0 # rest), rq_filename_len = length name\<rparr>"
    using unmarshal_datagram [of req name rest] assms unfolding i by (simp add: req_def)
  with m i assms show ?thesis by (simp add: req_def)
qed

theorem request_roundtrip_witness:
  "\<exists>req. marshal_req PROT_CMD_READ 7 9 (Some ([47, 97] @ 0 # [1, 2])) = Inr req \<and>
    length (REQ_IOVS req) = PROT_REQ_BASE_SIZE + length [47 :: byte, 97] + 1 \<and>
    (\<exists>pdu. prot_unmarshal_request (REQ_IOVS req @ [5, 5]) (length (REQ_IOVS req)) = Inr pdu \<and>
       rq_cmd pdu = PROT_CMD_READ \<and> rq_stat pdu = SFD_STAT_OK \<and> rq_offset pdu = 7 \<and>
       rq_len pdu = 9 \<and> rq_filename_len pdu = length [47 :: byte, 97] \<and>
       map_option cstr (rq_filename pdu) = Some [47, 97])"
  by (rule request_roundtrip) (simp_all add: size_defs)

text \<open>The datagrams the server takes for a request: of a legal size, with one of the three commands and no
  error, and with a NUL as the last byte.\<close>

definition legal_request :: "byte list \<Rightarrow> nat \<Rightarrow> bool" where
  "legal_request buf sz \<longleftrightarrow> PROT_REQ_MINSIZE \<le> sz \<and> sz \<le> PROT_REQ_BASE_SIZE + PROT_FILENAME_MAX + 1 \<and>
     buf ! 0 \<in> {PROT_CMD_SEND, PROT_CMD_READ, PROT_CMD_FILE_OPEN} \<and> buf ! 1 = SFD_STAT_OK \<and> buf ! (sz - 1) = 0"

lemma request_accepted: "(\<exists>pdu. prot_unmarshal_request buf sz = Inr pdu) \<longleftrightarrow> legal_request buf sz"
  by (auto simp: prot_unmarshal_request_def legal_request_def Let_def sfd_get_cmd_def sfd_get_stat_def size_defs)

lemma accepted_name:
  assumes "prot_unmarshal_request buf sz = Inr pdu" and "sz \<le> length buf"
  shows "PROT_REQ_MINSIZE \<le> sz \<and> sz \<le> PROT_REQ_BASE_SIZE + PROT_FILENAME_MAX + 1 \<and>
    rq_filename_len pdu = sz - PROT_REQ_BASE_SIZE - 1 \<and> rq_stat pdu = SFD_STAT_OK \<and>
    rq_cmd pdu \<in> {PROT_CMD_SEND, PROT_CMD_READ, PROT_CMD_FILE_OPEN} \<and>
    (\<exists>mem. rq_filename pdu = Some mem \<and> strlen mem \<le> rq_filename_len pdu \<and>
      PROT_REQ_BASE_SIZE + strlen mem < sz)"
proof -
  let ?mem = "drop PROT_REQ_BASE_SIZE buf"
  have *: "PROT_REQ_MINSIZE \<le> sz" "buf ! (sz - 1) = 0"
    "sz - PROT_REQ_BASE_SIZE - 1 \<le> PROT_FILENAME_MAX"
    "rq_filename pdu = Some ?mem" "rq_filename_len pdu = sz - PROT_REQ_BASE_SIZE - 1"
    "rq_stat pdu = SFD_STAT_OK" "rq_cmd pdu \<in> {PROT_CMD_SEND, PROT_CMD_READ, PROT_CMD_FILE_OPEN}"
    using assms(1)
    by (auto simp: prot_unmarshal_request_def Let_def sfd_get_cmd_def sfd_get_stat_def split: if_splits)
  let ?i = "sz - PROT_REQ_BASE_SIZE - 1"
  have sz: "PROT_REQ_BASE_SIZE + ?i = sz - 1" "?i < length ?mem"
    using *(1) assms(2) by (auto simp: size_defs)
  then have "?mem ! ?i = 0" using *(2) by (simp add: nth_drop)
  then have "strlen ?mem \<le> ?i" using sz(2) by (intro cstr_nul_within)
  with * sz show ?thesis by (auto simp: size_defs)
qed

text \<open>C21: The server accepts exactly the well-formed requests, and the file name it will open lies inside
  the datagram. A datagram of any bytes is accepted if and only if it has a legal size, one of the
  three commands, no error status, and a NUL as its last byte; every other one is rejected. The name of an
  accepted request ends with its NUL within the bytes received, and the recorded length is within
  \<open>PROT_FILENAME_MAX\<close>. (The recorded length counts up to the last byte: a NUL before it makes the name
  shorter, and possibly empty.)\<close>

theorem unmarshal_request_bounds:
  assumes "sz \<le> length buf"
  shows "((\<exists>pdu. prot_unmarshal_request buf sz = Inr pdu) \<longleftrightarrow>
      PROT_REQ_MINSIZE \<le> sz \<and> sz \<le> PROT_REQ_BASE_SIZE + PROT_FILENAME_MAX + 1 \<and>
      buf ! 0 \<in> {PROT_CMD_SEND, PROT_CMD_READ, PROT_CMD_FILE_OPEN} \<and> buf ! 1 = SFD_STAT_OK \<and> buf ! (sz - 1) = 0) \<and>
    (\<forall>pdu. prot_unmarshal_request buf sz = Inr pdu \<longrightarrow>
      rq_filename_len pdu = sz - PROT_REQ_BASE_SIZE - 1 \<and> rq_filename_len pdu \<le> PROT_FILENAME_MAX \<and>
      rq_stat pdu = SFD_STAT_OK \<and> rq_cmd pdu = buf ! 0 \<and>
      (\<exists>mem. rq_filename pdu = Some mem \<and> strlen mem \<le> rq_filename_len pdu \<and> PROT_REQ_BASE_SIZE + strlen mem < sz))"
proof -
  have "rq_cmd pdu = buf ! 0" if "prot_unmarshal_request buf sz = Inr pdu" for pdu
    using that by (auto simp: prot_unmarshal_request_def Let_def split: if_splits)
  with request_accepted [of buf sz, unfolded legal_request_def] accepted_name [OF _ assms] show ?thesis
    by (auto simp: size_defs)
qed

theorem unmarshal_request_bounds_witness:
  "\<exists>pdu. prot_unmarshal_request (PROT_CMD_SEND # replicate 23 0 @ [47, 0]) 26 = Inr pdu \<and>
     rq_filename_len pdu = 1 \<and> rq_cmd pdu = PROT_CMD_SEND"
proof -
  let ?buf = "PROT_CMD_SEND # replicate 23 0 @ [47, 0]"
  have len: "26 \<le> length ?buf" by simp
  have "?buf ! 1 = 0" "?buf ! 25 = 0" by (simp_all add: nth_Cons' nth_append)
  then obtain pdu where p: "prot_unmarshal_request ?buf 26 = Inr pdu"
    using unmarshal_request_bounds [OF len] by (auto simp: size_defs SFD_STAT_OK_def)
  with unmarshal_request_bounds [OF len] show ?thesis by (auto simp: size_defs)
qed

text \<open>The client refuses a file name exactly when it is longer than \<open>PROT_FILENAME_MAX\<close> bytes,
  with \<open>ENAMETOOLONG\<close>; a null name is passed on as an empty one.\<close>

theorem marshal_req_too_long:
  "(marshal_req cmd off len (Some m) = Inl ENAMETOOLONG \<longleftrightarrow> PROT_FILENAME_MAX < strlen m) \<and>
   (\<forall>e. marshal_req cmd off len (Some m) = Inl e \<longrightarrow> e = ENAMETOOLONG) \<and>
   (\<exists>r. marshal_req cmd off len None = Inr r \<and> rq_filename_len r = 0)"
  by (auto simp: marshal_req_def strnlen_strlen min_def size_defs)

theorem marshal_req_too_long_witness:
  "marshal_req PROT_CMD_SEND 0 0 (Some (replicate 513 1)) = Inl ENAMETOOLONG \<longleftrightarrow>
     PROT_FILENAME_MAX < strlen (replicate 513 1)"
  using marshal_req_too_long [of PROT_CMD_SEND 0 0 "replicate 513 1"] by blast

text \<open>C23: What the server says about a file reaches the client unchanged. The message the server builds
  from a size, three times and a transaction id, followed by anything, is read by the client as a
  structure with exactly these values in these fields; a transfer-status message is read with exactly the
  size it was built from. Neither reader accepts the other's message, and
  neither accepts a header that carries an error status.\<close>

theorem response_roundtrip:
  "sfd_unmarshal_file_info (file_info_bytes (prot_marshal_file_info sz at mt ct txnid) @ rest)
     = Some \<lparr>fi_cmd = SFD_FILE_INFO, fi_stat = SFD_STAT_OK, fi_size = sz, fi_atime = at, fi_mtime = mt, fi_ctime = ct,
         fi_txnid = txnid\<rparr> \<and>
   sfd_unmarshal_xfer_stat (xfer_stat_bytes (prot_marshal_xfer_stat n) @ rest)
     = Some \<lparr>xs_cmd = SFD_XFER_STAT, xs_stat = SFD_STAT_OK, xs_size = n\<rparr> \<and>
   sfd_unmarshal_xfer_stat (file_info_bytes (prot_marshal_file_info sz at mt ct txnid) @ rest) = None \<and>
   sfd_unmarshal_file_info (xfer_stat_bytes (prot_marshal_xfer_stat n) @ rest) = None \<and>
   (e \<noteq> 0 \<longrightarrow> sfd_unmarshal_file_info (hdr_bytes \<lparr>hdr_cmd = c, hdr_stat = e\<rparr> @ rest) = None \<and>
             sfd_unmarshal_xfer_stat (hdr_bytes \<lparr>hdr_cmd = c, hdr_stat = e\<rparr> @ rest) = None)"
proof -
  have "sfd_unmarshal_file_info (file_info_bytes (prot_marshal_file_info sz at mt ct txnid) @ rest)
     = Some (prot_marshal_file_info sz at mt ct txnid)"
    by (rule file_info.dec_enc) (simp add: prot_marshal_file_info_def)
  moreover have "sfd_unmarshal_xfer_stat (xfer_stat_bytes (prot_marshal_xfer_stat n) @ rest)
     = Some (prot_marshal_xfer_stat n)"
    by (rule xfer_stat.dec_enc) (simp add: prot_marshal_xfer_stat_def)
  ultimately show ?thesis
    by (simp add: sfd_unmarshal_file_info_def sfd_unmarshal_xfer_stat_def hdr_read_defs bytes_defs
        prot_marshal_file_info_def prot_marshal_xfer_stat_def cmd_defs)
qed

theorem response_roundtrip_witness:
  "(22 :: byte) \<noteq> 0 \<and>
   sfd_unmarshal_xfer_stat (hdr_bytes \<lparr>hdr_cmd = SFD_XFER_STAT, hdr_stat = 22\<rparr> @ []) = None \<and>
   map_option fi_txnid (sfd_unmarshal_file_info (file_info_bytes (prot_marshal_file_info 10 1 2 3 4) @ [])) = Some 4"
  using response_roundtrip [of 10 1 2 3 4 "[]" 0 22 SFD_XFER_STAT] by simp

text \<open>A completion notification is the only transfer status the client takes for completion: of
  the messages the server builds, \<open>sfd_xfer_complete\<close> holds exactly for \<open>PROT_XFER_COMPLETE\<close>. A
  progress report counts bytes and is smaller than any pipe capacity, so it is never one.\<close>

theorem completion_unambiguous:
  "sfd_unmarshal_xfer_stat (xfer_stat_bytes (prot_marshal_xfer_stat n) @ rest) = Some pdu \<Longrightarrow>
   sfd_xfer_complete pdu \<longleftrightarrow> n = PROT_XFER_COMPLETE"
  using xfer_stat.dec_enc [of "prot_marshal_xfer_stat n" rest]
  by (auto simp: sfd_xfer_complete_def prot_marshal_xfer_stat_def)

theorem completion_unambiguous_witness:
  "sfd_xfer_complete (prot_marshal_xfer_stat (- 1)) \<longleftrightarrow> (- 1 :: size_t) = PROT_XFER_COMPLETE"
  by (rule completion_unambiguous [where rest = "[]"], rule xfer_stat.dec_enc)
    (simp add: prot_marshal_xfer_stat_def)

text \<open>A stream of transfer-status messages, as it accumulates in the status pipe, determines the
  sequence of messages that was written.\<close>

theorem status_stream_unambiguous:
  assumes "concat (map (xfer_stat_bytes \<circ> prot_marshal_xfer_stat) ms) =
           concat (map (xfer_stat_bytes \<circ> prot_marshal_xfer_stat) ns)"
  shows "ms = ns"
proof -
  have "map prot_marshal_xfer_stat ms = map prot_marshal_xfer_stat ns"
    using assms by (intro xfer_stat.stream_inj) (auto simp: prot_marshal_xfer_stat_def)
  then show ?thesis
    by (rule map_injective) (auto simp: inj_def prot_marshal_xfer_stat_def)
qed

theorem status_stream_unambiguous_witness: "[3 :: size_t, - 1] = [3, - 1]"
  by (rule status_stream_unambiguous) simp

end
