(* ===== verification/Sfd_Process.thy ===== *)
theory Sfd_Process
  imports Sfd_Prelude
begin

text \<open>
  The process the C code runs in. A program is a function from the process state to an outcome:
  it returns a value and a state, aborts (a failed \<open>assert\<close> or \<open>abort()\<close>: the makefile never
  defines the C macro \<open>NDEBUG\<close>, so assertions are part of the program), performs an undefined
  operation of C (a read through a dangling or null pointer, an index out of range), ends the process
  with \<open>exit()\<close>, or is still running when its fuel is used up.

  The state of \<open>proc\<close> is \<open>errno\<close> and the history of system calls with their results; components
  extend it. The kernel is a parameter \<open>os\<close>: it answers a call as a function of the history, so
  that every sequence of answers is possible. A call that returns \<open>-1\<close> sets \<open>errno\<close>, a call that
  succeeds leaves it alone. \<open>wp\<close> is the weakest precondition of a program, with the set of
  failures that count as acceptable; its rewriting rules are in \<open>wp_simps\<close>.
\<close>

section \<open>Programs\<close>

datatype failure = Aborted string | Undefined string | Exited int | Running

datatype ('s, 'a) outcome = Ok 'a 's | Fail failure

type_synonym ('s, 'a) prog = "'s \<Rightarrow> ('s, 'a) outcome"

definition ret :: "'a \<Rightarrow> ('s, 'a) prog" where
  "ret a s = Ok a s"

definition bindP :: "('s, 'a) prog \<Rightarrow> ('a \<Rightarrow> ('s, 'b) prog) \<Rightarrow> ('s, 'b) prog" where
  "bindP m f s = (case m s of Ok a t \<Rightarrow> f a t | Fail e \<Rightarrow> Fail e)"

definition seqP :: "('s, 'a) prog \<Rightarrow> ('s, 'b) prog \<Rightarrow> ('s, 'b) prog" where
  "seqP m n = bindP m (\<lambda>_. n)"

definition assertP :: "bool \<Rightarrow> string \<Rightarrow> ('s, unit) prog" where
  "assertP b e s = (if b then Ok () s else Fail (Aborted e))"

definition undefP :: "string \<Rightarrow> ('s, 'a) prog" where
  "undefP e s = Fail (Undefined e)"

definition exitP :: "int \<Rightarrow> ('s, 'a) prog" where
  "exitP n s = Fail (Exited n)"

definition divergeP :: "('s, 'a) prog" where
  "divergeP s = Fail Running"

definition getP :: "('s \<Rightarrow> 'a) \<Rightarrow> ('s, 'a) prog" where
  "getP f s = Ok (f s) s"

definition modP :: "('s \<Rightarrow> 's) \<Rightarrow> ('s, unit) prog" where
  "modP f s = Ok () (f s)"

definition whenP :: "bool \<Rightarrow> ('s, unit) prog \<Rightarrow> ('s, unit) prog" where
  "whenP b m = (if b then m else ret ())"

text \<open>A partial computation without effects: \<open>None\<close> is an undefined operation.\<close>

definition liftP :: "string \<Rightarrow> 'a option \<Rightarrow> ('s, 'a) prog" where
  "liftP e x = (case x of None \<Rightarrow> undefP e | Some a \<Rightarrow> ret a)"

section \<open>Weakest preconditions\<close>

text \<open>\<open>E\<close> is the set of failures that are acceptable.\<close>

definition wp :: "(failure \<Rightarrow> bool) \<Rightarrow> ('s, 'a) prog \<Rightarrow> ('a \<Rightarrow> 's \<Rightarrow> bool) \<Rightarrow> 's \<Rightarrow> bool" where
  "wp E m Q s = (case m s of Ok a t \<Rightarrow> Q a t | Fail e \<Rightarrow> E e)"

text \<open>No failure is acceptable (total correctness); a failed assertion or a loop that is still
  running is acceptable, undefined behaviour is not (memory safety).\<close>

definition never :: "failure \<Rightarrow> bool" where
  "never e = False"

definition defined :: "failure \<Rightarrow> bool" where
  "defined e = (case e of Undefined _ \<Rightarrow> False | _ \<Rightarrow> True)"

lemma never_simps [simp]: "never e = False"
  by (simp add: never_def)

lemma defined_simps [simp]: "defined (Aborted m)" "\<not> defined (Undefined m)" "defined (Exited n)" "defined Running"
  by (simp_all add: defined_def)

lemma wp_ret [wp_simps]: "wp E (ret a) Q = (\<lambda>s. Q a s)"
  by (simp add: wp_def ret_def fun_eq_iff)

lemma wp_bindP [wp_simps]: "wp E (bindP m f) Q = (\<lambda>s. wp E m (\<lambda>a t. wp E (f a) Q t) s)"
  by (auto simp: wp_def bindP_def fun_eq_iff split: outcome.splits)

lemma wp_seqP [wp_simps]: "wp E (seqP m n) Q = (\<lambda>s. wp E m (\<lambda>_ t. wp E n Q t) s)"
  by (simp add: seqP_def wp_bindP)

lemma wp_assertP [wp_simps]: "wp E (assertP b e) Q = (\<lambda>s. if b then Q () s else E (Aborted e))"
  by (simp add: wp_def assertP_def fun_eq_iff)

lemma wp_undefP [wp_simps]: "wp E (undefP e) Q = (\<lambda>s. E (Undefined e))"
  by (simp add: wp_def undefP_def fun_eq_iff)

lemma wp_exitP [wp_simps]: "wp E (exitP n) Q = (\<lambda>s. E (Exited n))"
  by (simp add: wp_def exitP_def fun_eq_iff)

lemma wp_divergeP [wp_simps]: "wp E divergeP Q = (\<lambda>s. E Running)"
  by (simp add: wp_def divergeP_def fun_eq_iff)

lemma wp_getP [wp_simps]: "wp E (getP f) Q = (\<lambda>s. Q (f s) s)"
  by (simp add: wp_def getP_def fun_eq_iff)

lemma wp_modP [wp_simps]: "wp E (modP f) Q = (\<lambda>s. Q () (f s))"
  by (simp add: wp_def modP_def fun_eq_iff)

lemma wp_whenP [wp_simps]: "wp E (whenP b m) Q = (\<lambda>s. if b then wp E m Q s else Q () s)"
  by (simp add: whenP_def wp_ret fun_eq_iff)

lemma wp_if [wp_simps]:
  "wp E (if b then m else n) Q = (\<lambda>s. if b then wp E m Q s else wp E n Q s)"
  by simp

lemma wp_case_option [wp_simps]:
  "wp E (case x of None \<Rightarrow> m | Some a \<Rightarrow> f a) Q =
     (\<lambda>s. case x of None \<Rightarrow> wp E m Q s | Some a \<Rightarrow> wp E (f a) Q s)"
  by (simp split: option.split)

lemma wp_case_sum [wp_simps]:
  "wp E (case x of Inl a \<Rightarrow> f a | Inr b \<Rightarrow> g b) Q =
     (\<lambda>s. case x of Inl a \<Rightarrow> wp E (f a) Q s | Inr b \<Rightarrow> wp E (g b) Q s)"
  by (simp split: sum.split)

lemma wp_case_prod [wp_simps]:
  "wp E (case x of (a, b) \<Rightarrow> f a b) Q = (\<lambda>s. case x of (a, b) \<Rightarrow> wp E (f a b) Q s)"
  by (simp split: prod.split)

lemma wp_let [wp_simps]: "wp E (let x = a in f x) Q = (\<lambda>s. let x = a in wp E (f x) Q s)"
  by (simp add: Let_def)

lemma wp_liftP [wp_simps]:
  "wp E (liftP e x) Q = (\<lambda>s. case x of None \<Rightarrow> E (Undefined e) | Some a \<Rightarrow> Q a s)"
  by (simp add: liftP_def wp_simps fun_eq_iff split: option.splits)

lemma wp_mono: "wp E m P s \<Longrightarrow> (\<And>a t. P a t \<Longrightarrow> Q a t) \<Longrightarrow> wp E m Q s"
  by (auto simp: wp_def split: outcome.splits)

lemma wp_seq_rule:
  "wp E m P s \<Longrightarrow> (\<And>a t. P a t \<Longrightarrow> wp E (f a) Q t) \<Longrightarrow> wp E (bindP m f) Q s"
  by (auto simp: wp_bindP intro: wp_mono)

lemma wp_conj: "wp E m P s \<Longrightarrow> wp E m Q s \<Longrightarrow> wp E m (\<lambda>a t. P a t \<and> Q a t) s"
  by (auto simp: wp_def split: outcome.splits)

lemma wp_conj_strong: "wp E m P s \<Longrightarrow> wp E' m Q s \<Longrightarrow> wp E' m (\<lambda>a t. P a t \<and> Q a t) s"
  by (auto simp: wp_def split: outcome.splits)

lemma wp_weaken: "wp E m Q s \<Longrightarrow> (\<And>e. E e \<Longrightarrow> E' e) \<Longrightarrow> wp E' m Q s"
  by (auto simp: wp_def split: outcome.splits)

lemma wp_never: "wp never m Q s \<Longrightarrow> wp E m Q s"
  by (erule wp_weaken) simp

lemma wp_never_iff: "wp never m Q s \<longleftrightarrow> (\<exists>a t. m s = Ok a t \<and> Q a t)"
  by (auto simp: wp_def split: outcome.splits)

lemma wp_Ok: "wp E m Q s \<Longrightarrow> m s = Ok a t \<Longrightarrow> Q a t"
  by (simp add: wp_def)

lemma wp_Fail: "wp E m Q s \<Longrightarrow> m s = Fail e \<Longrightarrow> E e"
  by (simp add: wp_def)

text \<open>A predicate on states that a program keeps, whatever it returns; failures do not count. The rules
  follow the structure of the program; what a theory adds are the rules for the system calls and
  updates its predicate is about.\<close>

abbreviation anyf :: "failure \<Rightarrow> bool" where
  "anyf \<equiv> \<lambda>_. True"

definition stable :: "('s \<Rightarrow> bool) \<Rightarrow> ('s, 'a) prog \<Rightarrow> bool" where
  "stable P m \<longleftrightarrow> (\<forall>s. P s \<longrightarrow> wp anyf m (\<lambda>_. P) s)"

lemma stableD: "stable P m \<Longrightarrow> P s \<Longrightarrow> wp anyf m (\<lambda>_. P) s"
  by (simp add: stable_def)

lemma wp_any [simp]: "wp anyf m (\<lambda>_ _. True) s"
  by (simp add: wp_def split: outcome.split)

lemma stable_basic [stable_intros]:
  "stable P (ret a)" "stable P (getP f)" "stable P (assertP b e)" "stable P (undefP e)"
  "stable P divergeP" "stable P (liftP e x)"
  by (auto simp: stable_def wp_simps split: option.splits)

lemma stable_bind [stable_intros]: "stable P m \<Longrightarrow> (\<And>a. stable P (f a)) \<Longrightarrow> stable P (bindP m f)"
  unfolding stable_def by (blast intro: wp_seq_rule)

lemma stable_seq [stable_intros]: "stable P m \<Longrightarrow> stable P n \<Longrightarrow> stable P (seqP m n)"
  unfolding seqP_def by (rule stable_bind)

lemma stable_if [stable_intros]: "(b \<Longrightarrow> stable P m) \<Longrightarrow> (\<not> b \<Longrightarrow> stable P n) \<Longrightarrow> stable P (if b then m else n)"
  by simp

lemma stable_when [stable_intros]: "(b \<Longrightarrow> stable P m) \<Longrightarrow> stable P (whenP b m)"
  by (simp add: whenP_def stable_basic)

lemma stable_option [stable_intros]:
  "(x = None \<Longrightarrow> stable P m) \<Longrightarrow> (\<And>a. x = Some a \<Longrightarrow> stable P (f a)) \<Longrightarrow>
   stable P (case x of None \<Rightarrow> m | Some a \<Rightarrow> f a)"
  by (cases x) auto

lemma stable_sum [stable_intros]:
  "(\<And>a. x = Inl a \<Longrightarrow> stable P (f a)) \<Longrightarrow> (\<And>b. x = Inr b \<Longrightarrow> stable P (g b)) \<Longrightarrow>
   stable P (case x of Inl a \<Rightarrow> f a | Inr b \<Rightarrow> g b)"
  by (cases x) auto

lemma stable_prod [stable_intros]: "(\<And>a b. x = (a, b) \<Longrightarrow> stable P (f a b)) \<Longrightarrow> stable P (case x of (a, b) \<Rightarrow> f a b)"
  by (cases x) auto

lemma stable_let [stable_intros]: "stable P (f a) \<Longrightarrow> stable P (let x = a in f x)"
  by simp

section \<open>System calls\<close>

type_synonym addr = nat

text \<open>What the program attaches to a descriptor it registers with the poller: the address of the
  server's request descriptor, of the poller's own signal descriptor, or of a resource.\<close>

datatype udata = URequest | USignal | URes addr

text \<open>An ancillary message is a list of descriptors or the sender's credentials.\<close>

record ucred =
  uc_pid :: pid_t
  uc_uid :: uid_t
  uc_gid :: nat

datatype cmsg = SCM_RIGHTS "fd list" | SCM_CREDENTIALS ucred | SCM_OTHER

text \<open>An entry of the change and event arrays of \<open>kevent(2)\<close>.\<close>

record kevent =
  kv_ident :: int
  kv_filter :: int
  kv_flags :: nat
  kv_fflags :: nat
  kv_data :: int
  kv_udata :: udata

text \<open>The calls that manage processes and identities, and those of FreeBSD. A call that looks up a user
  or a group answers with its id, and \<open>-1\<close> where the library returns the null pointer; \<open>kevent\<close> is
  called with or without a timeout of zero.\<close>

datatype admin_call =
    SysGetegid
  | SysGetuid
  | SysGetgid
  | SysGetpid
  | SysSetuid uid_t
  | SysSetgid nat
  | SysGetpwnam "byte list"
  | SysGetgrnam "byte list"
  | SysFork
  | SysSetsid
  | SysUmask nat
  | SysIgnoreHup
  | SysBlockPipe
  | SysChdir "byte list"
  | SysChroot "byte list"
  | SysOpenNull
  | SysDup2 fd fd
  | SysGetrlimit
  | SysExecvp "byte list" "byte list list"
  | SysKill pid_t nat
  | SysWaitpid pid_t
  | SysLineMax
  | SysSyslog
  | SysKqueue
  | SysKevent fd "kevent list" nat bool
  | SysSendfileBsd fd fd size_t

datatype syscall =
    SysOpen "byte list"
  | SysClose fd
  | SysRead fd nat
  | SysWrite fd "byte list"
  | SysDup fd
  | SysFstat fd
  | SysSetlk fd off_t off_t
  | SysLseek fd off_t nat
  | SysSendfile fd fd size_t
  | SysSplice fd fd size_t
  | SysPipe int
  | SysGetfl fd
  | SysSetfl fd int
  | SysGetfd fd
  | SysSetfd fd int
  | SysEpollCreate
  | SysEpollAdd fd fd nat udata
  | SysEpollDel fd fd
  | SysEpollWait fd int
  | SysSignalfd
  | SysSigmask
  | SysTimerfdCreate
  | SysTimerfdSettime fd nat nat
  | SysRecvmsg fd nat
  | SysSendmsg fd "byte list" "cmsg list"
  | SysSocket
  | SysSetsockopt fd nat
  | SysBind fd "byte list"
  | SysChown "byte list" uid_t nat
  | SysChmod "byte list" nat
  | SysUnlink "byte list"
  | SysConnect fd "byte list"
  | SysShutdown fd
  | SysMalloc nat
  | SysPageSize
  | SysGeteuid
  | SysAdmin admin_call

type_synonym history = "(syscall \<times> int) list"

text \<open>The fields of \<open>struct stat\<close> the program reads, the message \<open>recvmsg\<close> delivers and one entry
  of the array \<open>epoll_wait\<close> fills. Beside the answers to the calls, the kernel decides what is
  written to memory: the file's attributes, messages, events, the ends of a pipe, the data read,
  signals, the limit on descriptors (\<open>None\<close> for infinity), the status of a child and the number of
  bytes \<open>sendfile\<close> reports on FreeBSD.\<close>

record stat_buf =
  st_isreg :: bool
  st_islnk :: bool
  st_size :: "64 word"
  st_atime :: "64 word"
  st_mtime :: "64 word"
  st_ctime :: "64 word"
  st_blksize :: "64 word"

record message =
  msg_data :: "byte list"
  msg_cmsgs :: "cmsg list"
  msg_flags :: nat

record epoll_event =
  ee_events :: nat
  ee_data :: udata

record os =
  sys :: "history \<Rightarrow> syscall \<Rightarrow> int \<times> errno_t"
  os_stat :: "history \<Rightarrow> fd \<Rightarrow> stat_buf"
  os_message :: "history \<Rightarrow> fd \<Rightarrow> message"
  os_events :: "history \<Rightarrow> fd \<Rightarrow> epoll_event list"
  os_pipe :: "history \<Rightarrow> fd \<times> fd"
  os_data :: "history \<Rightarrow> fd \<Rightarrow> byte list"
  os_signo :: "history \<Rightarrow> nat"
  os_kevents :: "history \<Rightarrow> fd \<Rightarrow> kevent list"
  os_rlimit :: "history \<Rightarrow> nat option"
  os_status :: "history \<Rightarrow> int"
  os_nsent :: "history \<Rightarrow> int"

record proc =
  errno :: errno_t
  trace :: history

definition syscall :: "os \<Rightarrow> syscall \<Rightarrow> ('m proc_scheme, int) prog" where
  "syscall os c s =
     (let (r, e) = sys os (trace s) c
      in Ok r (s\<lparr>trace := trace s @ [(c, r)], errno := (if r = -1 then e else errno s)\<rparr>))"

definition set_errno :: "errno_t \<Rightarrow> ('m proc_scheme, unit) prog" where
  "set_errno e = modP (\<lambda>s. s\<lparr>errno := e\<rparr>)"

text \<open>The macro \<open>PRESERVE_ERRNO\<close> of \<open>impl/util.h\<close>.\<close>

definition PRESERVE_ERRNO :: "('m proc_scheme, unit) prog \<Rightarrow> ('m proc_scheme, unit) prog" where
  "PRESERVE_ERRNO m = bindP (getP errno) (\<lambda>errno_saved. seqP m (set_errno errno_saved))"

definition close_fd :: "os \<Rightarrow> fd \<Rightarrow> ('m proc_scheme, unit) prog" where
  "close_fd os fd = seqP (syscall os (SysClose fd)) (ret ())"

definition call_state :: "os \<Rightarrow> syscall \<Rightarrow> 'm proc_scheme \<Rightarrow> 'm proc_scheme" where
  "call_state os c s =
     s\<lparr>trace := trace s @ [(c, fst (sys os (trace s) c))],
       errno := (if fst (sys os (trace s) c) = -1 then snd (sys os (trace s) c) else errno s)\<rparr>"

lemma wp_syscall [wp_simps]:
  "wp E (syscall os c) Q = (\<lambda>s. Q (fst (sys os (trace s) c)) (call_state os c s))"
  by (simp add: wp_def syscall_def call_state_def fun_eq_iff split: prod.splits)

lemma wp_set_errno [wp_simps]: "wp E (set_errno e) Q = (\<lambda>s. Q () (s\<lparr>errno := e\<rparr>))"
  by (simp add: set_errno_def wp_simps)

lemma wp_PRESERVE_ERRNO [wp_simps]:
  "wp E (PRESERVE_ERRNO m) Q = (\<lambda>s. wp E m (\<lambda>_ t. Q () (t\<lparr>errno := errno s\<rparr>)) s)"
  by (simp add: PRESERVE_ERRNO_def wp_simps)

lemma wp_close_fd [wp_simps]:
  "wp E (close_fd os fd) Q = (\<lambda>s. Q () (call_state os (SysClose fd) s))"
  by (simp add: close_fd_def wp_simps)

lemma trace_call_state [simp]:
  "trace (call_state os c s) = trace s @ [(c, fst (sys os (trace s) c))]"
  by (simp add: call_state_def)

lemma errno_call_state:
  "errno (call_state os c s) = (if fst (sys os (trace s) c) = -1 then snd (sys os (trace s) c) else errno s)"
  by (simp add: call_state_def)

text \<open>The calls a state has made beyond those of an earlier one.\<close>

definition calls_since :: "'m proc_scheme \<Rightarrow> 'm proc_scheme \<Rightarrow> syscall list" where
  "calls_since s t = map fst (drop (length (trace s)) (trace t))"

lemma calls_since_refl [simp]: "calls_since s s = []"
  by (simp add: calls_since_def)

lemma calls_since_same [simp]: "trace t = trace s @ h \<Longrightarrow> calls_since s t = map fst h"
  by (simp add: calls_since_def)

section \<open>An example\<close>

text \<open>A kernel that writes everything it is asked to and answers every other call with 0, and the
  state of a process that has done nothing yet: the witnesses of the properties run on them.\<close>

definition quiet_os :: os where
  "quiet_os = \<lparr>sys = (\<lambda>h c. (case c of SysWrite fd bs \<Rightarrow> int (length bs) | _ \<Rightarrow> 0, EAGAIN)),
     os_stat = (\<lambda>h fd. \<lparr>st_isreg = True, st_islnk = False, st_size = 10, st_atime = 1, st_mtime = 2,
       st_ctime = 3, st_blksize = 4096\<rparr>),
     os_message = (\<lambda>h fd. \<lparr>msg_data = [], msg_cmsgs = [], msg_flags = 0\<rparr>),
     os_events = (\<lambda>h fd. []), os_pipe = (\<lambda>h. (3, 4)), os_data = (\<lambda>h fd. []), os_signo = (\<lambda>h. 15),
     os_kevents = (\<lambda>h fd. []), os_rlimit = (\<lambda>h. Some 16), os_status = (\<lambda>h. 0), os_nsent = (\<lambda>h. 0)\<rparr>"

definition proc0 :: proc where
  "proc0 = \<lparr>errno = 0, trace = []\<rparr>"

end
