(* ===== verification/Sfd_Table.thy ===== *)
theory Sfd_Table
  imports Sfd_Process
begin

text \<open>
  The transfer table of \<open>impl/server_xfer_table.c\<close>: an array of pointers indexed by the low bits of
  a transaction id. The record has the fields of \<open>struct xfer_table\<close>; a null \<open>elems\<close> is the empty
  list, and an access outside the array is \<open>None\<close>. The function pointer \<open>hash\<close> of the structure is
  an argument of the operations that call it, because it reads the element through memory. The
  locale \<open>txn_table\<close> states what the server relies on; it is interpreted on these operations for
  any hash function.
\<close>

section \<open>The table and its operations\<close>

record 'e xfer_table =
  elems :: "'e option list"
  capacity :: size_t
  tsize :: size_t

text \<open>\<open>1U << i\<close> is a 32-bit shift, undefined from 32 on.\<close>

function clp2_loop :: "nat \<Rightarrow> size_t \<Rightarrow> size_t option" where
  "clp2_loop i x =
     (if 32 \<le> i then None
      else if (ucast (push_bit i 1 :: 32 word) :: size_t) < x then clp2_loop (Suc i) x
      else Some (ucast (push_bit i 1 :: 32 word)))"
  by pat_completeness auto
termination
  by (relation "measure (\<lambda>(i, x). 32 - i)") auto

definition clp2 :: "size_t \<Rightarrow> size_t option" where
  "clp2 x = clp2_loop 0 x"

text \<open>The result of \<open>xfer_table_construct\<close> is its return value and the structure it fills in;
  \<open>calloc_ok\<close> says whether \<open>calloc\<close> succeeded.\<close>

definition xfer_table_construct :: "bool \<Rightarrow> size_t \<Rightarrow> (bool \<times> 'e xfer_table) option" where
  "xfer_table_construct calloc_ok max_xfers =
     (case clp2 max_xfers of
        None \<Rightarrow> None
      | Some cap \<Rightarrow>
          Some (calloc_ok,
            \<lparr>elems = (if calloc_ok then replicate (unat cap) None else []), capacity = cap, tsize = 0\<rparr>))"

definition xfer_table_new :: "bool \<Rightarrow> bool \<Rightarrow> size_t \<Rightarrow> 'e xfer_table option option" where
  "xfer_table_new malloc_ok calloc_ok max_xfers =
     (if \<not> malloc_ok then Some None
      else map_option (\<lambda>(r, t). Some t) (xfer_table_construct calloc_ok max_xfers))"

primrec destruct_elems :: "('e \<Rightarrow> ('s, unit) prog) \<Rightarrow> 'e option list \<Rightarrow> ('s, unit) prog" where
  "destruct_elems del [] = ret ()"
| "destruct_elems del (x # xs) =
     seqP (case x of None \<Rightarrow> ret () | Some e \<Rightarrow> del e) (destruct_elems del xs)"

definition xfer_table_destruct :: "('e \<Rightarrow> ('s, unit) prog) \<Rightarrow> 'e xfer_table \<Rightarrow> ('s, unit) prog" where
  "xfer_table_destruct del t =
     (if length (elems t) = unat (capacity t) then destruct_elems del (elems t)
      else undefP ''null elems'')"

definition xfer_table_delete :: "('e \<Rightarrow> ('s, unit) prog) \<Rightarrow> 'e xfer_table \<Rightarrow> ('s, unit) prog" where
  "xfer_table_delete del t = xfer_table_destruct del t"

definition indexof :: "'e xfer_table \<Rightarrow> size_t \<Rightarrow> nat" where
  "indexof t h = unat (h AND (capacity t - 1))"

definition xfer_table_insert ::
  "('e \<Rightarrow> size_t) \<Rightarrow> 'e xfer_table \<Rightarrow> 'e \<Rightarrow> (bool \<times> 'e xfer_table) option" where
  "xfer_table_insert hash t e =
     (let idx = indexof t (hash e)
      in if idx \<ge> length (elems t) then None
         else if elems t ! idx \<noteq> None then Some (False, t)
         else Some (True, t\<lparr>elems := (elems t)[idx := Some e], tsize := tsize t + 1\<rparr>))"

definition xfer_table_erase :: "'e xfer_table \<Rightarrow> size_t \<Rightarrow> 'e xfer_table option" where
  "xfer_table_erase t h =
     (let idx = indexof t h
      in if idx \<ge> length (elems t) then None
         else Some (t\<lparr>elems := (elems t)[idx := None], tsize := tsize t - 1\<rparr>))"

definition xfer_table_find :: "'e xfer_table \<Rightarrow> size_t \<Rightarrow> 'e option option" where
  "xfer_table_find t h =
     (let idx = indexof t h in if idx \<ge> length (elems t) then None else Some (elems t ! idx))"

section \<open>The invariant\<close>

definition used :: "'e option list \<Rightarrow> nat set" where
  "used xs = {i. i < length xs \<and> xs ! i \<noteq> None}"

definition contents :: "'e xfer_table \<Rightarrow> 'e set" where
  "contents t = {e. Some e \<in> set (elems t)}"

definition table_inv :: "('e \<Rightarrow> size_t) \<Rightarrow> 'e xfer_table \<Rightarrow> bool" where
  "table_inv hash t \<longleftrightarrow>
     (\<exists>k < 32. capacity t = 2 ^ k) \<and> length (elems t) = unat (capacity t) \<and>
     unat (tsize t) = card (used (elems t)) \<and>
     (\<forall>i e. i < length (elems t) \<longrightarrow> elems t ! i = Some e \<longrightarrow> indexof t (hash e) = i)"

section \<open>The interface\<close>

text \<open>
  The laws of a table that keeps at most one element per slot. \<open>find\<close> looks at the slot of an id
  only: it returns the element there, whatever id that element has.
\<close>

locale txn_table =
  fixes hash :: "'e \<Rightarrow> size_t"
    and insert :: "'t \<Rightarrow> 'e \<Rightarrow> (bool \<times> 't) option"
    and erase :: "'t \<Rightarrow> size_t \<Rightarrow> 't option"
    and find :: "'t \<Rightarrow> size_t \<Rightarrow> 'e option option"
    and inv :: "'t \<Rightarrow> bool"
    and items :: "'t \<Rightarrow> 'e set"
    and slot :: "'t \<Rightarrow> size_t \<Rightarrow> nat"
    and count :: "'t \<Rightarrow> nat"
  assumes find_Some: "inv t \<Longrightarrow> find t h = Some (Some e) \<longleftrightarrow> e \<in> items t \<and> slot t (hash e) = slot t h"
    and find_defined: "inv t \<Longrightarrow> find t h \<noteq> None"
    and slot_unique: "inv t \<Longrightarrow> e \<in> items t \<Longrightarrow> e' \<in> items t \<Longrightarrow>
      slot t (hash e) = slot t (hash e') \<Longrightarrow> e = e'"
    and insert_free: "inv t \<Longrightarrow> find t (hash e) = Some None \<Longrightarrow>
      \<exists>t'. insert t e = Some (True, t') \<and> inv t' \<and> items t' = {e} \<union> items t \<and>
        slot t' = slot t \<and> count t' = Suc (count t)"
    and insert_taken: "inv t \<Longrightarrow> find t (hash e) \<noteq> Some None \<Longrightarrow> insert t e = Some (False, t)"
    and erase_item: "inv t \<Longrightarrow> find t h = Some (Some e) \<Longrightarrow>
      \<exists>t'. erase t h = Some t' \<and> inv t' \<and> items t' = items t - {e} \<and> slot t' = slot t \<and>
        Suc (count t') = count t"
    and count_items: "inv t \<Longrightarrow> finite (items t) \<and> count t = card (items t)"
begin

lemma find_item: "inv t \<Longrightarrow> e \<in> items t \<Longrightarrow> find t (hash e) = Some (Some e)"
  by (simp add: find_Some)

lemma find_cases:
  assumes "inv t"
  obtains (free) "find t h = Some None" | (taken) e where "find t h = Some (Some e)" "e \<in> items t"
    "slot t (hash e) = slot t h"
  using assms find_defined [of t h] find_Some [of t h] by (cases "find t h") auto

lemma insert_find:
  assumes "inv t" and "insert t e = Some (True, t')"
  shows "inv t' \<and> find t' (hash e) = Some (Some e) \<and> items t' = {e} \<union> items t \<and>
    slot t' = slot t \<and> count t' = Suc (count t)"
proof -
  have "find t (hash e) = Some None"
    using assms insert_taken [of t e] by fastforce
  with assms obtain u where "insert t e = Some (True, u)" "inv u" "items u = {e} \<union> items t"
    "slot u = slot t" "count u = Suc (count t)"
    using insert_free by blast
  with assms(2) find_item [of u e] show ?thesis by auto
qed

lemma insert_keeps:
  assumes "inv t" and "insert t e = Some (True, t')" and "slot t h \<noteq> slot t (hash e)"
  shows "find t' h = find t h"
proof -
  from insert_find [OF assms(1,2)] have t': "inv t'" "items t' = {e} \<union> items t" "slot t' = slot t"
    by auto
  have "find t' h = Some (Some x) \<longleftrightarrow> find t h = Some (Some x)" for x
    using t' assms(1,3) by (auto simp: find_Some)
  then show ?thesis
    using find_defined [OF assms(1), of h] find_defined [OF t'(1), of h]
    by (metis option.exhaust)
qed

lemma erase_find:
  assumes "inv t" and "e \<in> items t" and "slot t (hash e) = slot t h"
  shows "\<exists>t'. erase t h = Some t' \<and> inv t' \<and> items t' = items t - {e} \<and> slot t' = slot t \<and>
    Suc (count t') = count t \<and> find t' h = Some None"
proof -
  have "find t h = Some (Some e)" using assms by (simp add: find_Some)
  then obtain t' where t': "erase t h = Some t'" "inv t'" "items t' = items t - {e}"
    "slot t' = slot t" "Suc (count t') = count t"
    using erase_item [OF assms(1)] by blast
  have "find t' h \<noteq> Some (Some x)" for x
    using t' assms slot_unique [OF assms(1), of x e] by (auto simp: find_Some)
  with find_defined [OF t'(2), of h] have "find t' h = Some None"
    by (cases "find t' h") auto
  with t' show ?thesis by blast
qed

lemma insert_erase:
  assumes "inv t" and "insert t e = Some (True, t')" and "e \<notin> items t"
  shows "\<exists>t''. erase t' (hash e) = Some t'' \<and> inv t'' \<and> items t'' = items t \<and> count t'' = count t"
  using erase_find [of t' e "hash e"] insert_find [OF assms(1,2)] assms(3) by auto

end

section \<open>The operations implement the interface\<close>

lemma indexof_take_bit:
  assumes "capacity t = 2 ^ k"
  shows "indexof t h = unat (take_bit k h)"
  using assms by (simp add: indexof_def take_bit_eq_mask mask_eq_exp_minus_1)

lemma unat_pow2: "k < 32 \<Longrightarrow> unat (2 ^ k :: size_t) = 2 ^ k"
proof -
  assume "k < 32"
  then have "(2 :: nat) ^ k < 2 ^ 64" by (intro power_strict_increasing) auto
  then have "unat (of_nat (2 ^ k) :: size_t) = 2 ^ k" by (simp only: unat_of_nat) simp
  then show ?thesis by simp
qed

lemma indexof_mod:
  assumes "capacity t = 2 ^ k" and "k < 32"
  shows "indexof t h = unat h mod 2 ^ k"
  using assms by (simp only: indexof_take_bit unsigned_take_bit_eq) (simp only: take_bit_eq_mod)

lemma table_inv_cap:
  assumes "table_inv hash t"
  obtains k where "k < 32" "capacity t = 2 ^ k" "length (elems t) = 2 ^ k"
  using assms by (auto simp: table_inv_def unat_pow2)

lemma table_inv_slot:
  "table_inv hash t \<Longrightarrow> i < length (elems t) \<Longrightarrow> elems t ! i = Some e \<Longrightarrow> indexof t (hash e) = i"
  by (simp add: table_inv_def)

lemma table_inv_size: "table_inv hash t \<Longrightarrow> unat (tsize t) = card (used (elems t))"
  by (simp add: table_inv_def)

lemma table_invI:
  assumes "table_inv hash t" and "capacity t' = capacity t" and "length (elems t') = length (elems t)"
    and "unat (tsize t') = card (used (elems t'))"
    and "\<And>i e. i < length (elems t) \<Longrightarrow> elems t' ! i = Some e \<Longrightarrow> indexof t (hash e) = i"
  shows "table_inv hash t'"
  using assms unfolding table_inv_def by (simp add: indexof_def)

lemma indexof_less:
  assumes "table_inv hash t"
  shows "indexof t h < length (elems t)"
proof -
  from assms obtain k where "k < 32" "capacity t = 2 ^ k" "length (elems t) = 2 ^ k"
    by (rule table_inv_cap)
  then show ?thesis by (simp add: indexof_mod)
qed

lemma finite_used [simp]: "finite (used xs)"
  by (simp add: used_def)

lemma used_insert: "i < length xs \<Longrightarrow> used (xs[i := Some e]) = insert i (used xs)"
  by (auto simp: used_def nth_list_update)

lemma nth_upd_None: "xs[i := None] ! j = Some x \<Longrightarrow> j < length xs \<Longrightarrow> j \<noteq> i \<and> xs ! j = Some x"
  by (cases "i = j") auto

lemma nth_upd_Some:
  "xs[i := Some e] ! j = Some x \<Longrightarrow> j < length xs \<Longrightarrow> (if j = i then x = e else xs ! j = Some x)"
  by (cases "i = j") auto

lemma used_erase: "used (xs[i := None]) = used xs - {i}"
  by (auto simp: used_def dest: nth_upd_None)

lemma used_subset: "used xs \<subseteq> {..<length xs}"
  by (auto simp: used_def)

lemma card_used_le: "card (used xs) \<le> length xs"
  using card_mono [OF _ used_subset, of xs] by simp

lemma card_used_less: "i < length xs \<Longrightarrow> i \<notin> used xs \<Longrightarrow> card (used xs) < length xs"
  by (rule psubset_card_mono [of "{..<length xs}", simplified]) (use used_subset in auto)

lemma contents_nth: "e \<in> contents t \<longleftrightarrow> (\<exists>i < length (elems t). elems t ! i = Some e)"
  by (auto simp: contents_def in_set_conv_nth)

lemma card_contents: "table_inv hash t \<Longrightarrow> card (contents t) = card (used (elems t))"
proof -
  assume inv: "table_inv hash t"
  have "bij_betw (\<lambda>i. the (elems t ! i)) (used (elems t)) (contents t)"
  proof (rule bij_betwI')
    fix x y assume "x \<in> used (elems t)" "y \<in> used (elems t)"
    then show "(the (elems t ! x) = the (elems t ! y)) = (x = y)"
      using table_inv_slot [OF inv, of x] table_inv_slot [OF inv, of y] by (fastforce simp: used_def)
  next
    fix x assume "x \<in> used (elems t)"
    then show "the (elems t ! x) \<in> contents t"
      by (auto simp: used_def contents_nth)
  next
    fix e assume "e \<in> contents t"
    then show "\<exists>x\<in>used (elems t). e = the (elems t ! x)"
      by (force simp: used_def contents_nth)
  qed
  then show ?thesis by (simp add: bij_betw_same_card)
qed

lemma finite_contents [simp]: "finite (contents t)"
proof -
  have "contents t \<subseteq> the ` set (elems t)" by (force simp: contents_def)
  then show ?thesis by (rule finite_subset) simp
qed

lemma find_contents:
  assumes "table_inv hash t"
  shows "xfer_table_find t h = Some (Some e) \<longleftrightarrow> e \<in> contents t \<and> indexof t (hash e) = indexof t h"
  using indexof_less [OF assms, of h] table_inv_slot [OF assms]
  by (auto simp: xfer_table_find_def Let_def contents_nth)

lemma insert_free_slot:
  assumes inv: "table_inv hash t" and free: "xfer_table_find t (hash e) = Some None"
  shows "\<exists>t'. xfer_table_insert hash t e = Some (True, t') \<and> table_inv hash t' \<and>
    contents t' = {e} \<union> contents t \<and> indexof t' = indexof t \<and> unat (tsize t') = Suc (unat (tsize t)) \<and>
    capacity t' = capacity t"
proof -
  let ?i = "indexof t (hash e)"
  let ?t = "t\<lparr>elems := (elems t)[?i := Some e], tsize := tsize t + 1\<rparr>"
  have i: "?i < length (elems t)" using inv by (rule indexof_less)
  have none: "elems t ! ?i = None"
    using free i by (simp add: xfer_table_find_def Let_def)
  from inv obtain k where k: "k < 32" "capacity t = 2 ^ k" "length (elems t) = 2 ^ k"
    by (rule table_inv_cap)
  have idx: "indexof ?t = indexof t" by (simp add: indexof_def fun_eq_iff)
  have nu: "?i \<notin> used (elems t)" using none by (simp add: used_def)
  with i have "card (used (elems t)) < 2 ^ k" using card_used_less k by metis
  also have "(2 :: nat) ^ k < 2 ^ 32" using k(1) by (rule power_strict_increasing) simp
  finally have "unat (tsize t) < 2 ^ 32" using inv by (simp add: table_inv_size)
  then have sz: "unat (tsize t + 1) = Suc (unat (tsize t))"
    by (simp add: unat_word_ariths)
  have "table_inv hash ?t"
  proof (rule table_invI [OF inv])
    show "unat (tsize ?t) = card (used (elems ?t))"
      using i nu sz by (simp add: used_insert table_inv_size [OF inv])
    show "indexof t (hash x) = j" if "j < length (elems t)" "elems ?t ! j = Some x" for j x
      using that nth_upd_Some [of "elems t" ?i e j x] table_inv_slot [OF inv, of j x]
      by (auto split: if_splits)
  qed simp_all
  moreover have "contents ?t = {e} \<union> contents t"
  proof (intro set_eqI iffI)
    fix x assume "x \<in> contents ?t"
    then show "x \<in> {e} \<union> contents t"
      by (auto simp: contents_nth dest!: nth_upd_Some split: if_splits)
  next
    fix x assume "x \<in> {e} \<union> contents t"
    then consider "x = e" | j where "j < length (elems t)" "elems t ! j = Some x"
      by (auto simp: contents_nth)
    then show "x \<in> contents ?t"
      by cases (use i none in \<open>auto simp: contents_nth nth_list_update intro!: exI\<close>)
  qed
  ultimately show ?thesis
    using i none sz idx by (simp add: xfer_table_insert_def Let_def)
qed

lemma erase_slot:
  assumes inv: "table_inv hash t" and taken: "xfer_table_find t h = Some (Some e)"
  shows "\<exists>t'. xfer_table_erase t h = Some t' \<and> table_inv hash t' \<and>
    contents t' = contents t - {e} \<and> indexof t' = indexof t \<and> Suc (unat (tsize t')) = unat (tsize t) \<and>
    capacity t' = capacity t"
proof -
  let ?i = "indexof t h"
  let ?t = "t\<lparr>elems := (elems t)[?i := None], tsize := tsize t - 1\<rparr>"
  have i: "?i < length (elems t)" using inv by (rule indexof_less)
  have some: "elems t ! ?i = Some e"
    using taken i by (simp add: xfer_table_find_def Let_def)
  have idx: "indexof ?t = indexof t" by (simp add: indexof_def fun_eq_iff)
  have used: "?i \<in> used (elems t)" using some i by (simp add: used_def)
  then have pos: "0 < card (used (elems t))" by (auto simp: card_gt_0_iff)
  then have "tsize t \<noteq> 0" using inv by (auto simp: table_inv_def)
  then have sz: "Suc (unat (tsize t - 1)) = unat (tsize t)"
    by (simp add: unat_minus_one Suc_pred unat_gt_0)
  have "table_inv hash ?t"
  proof (rule table_invI [OF inv])
    show "unat (tsize ?t) = card (used (elems ?t))"
      using used pos sz by (simp add: used_erase table_inv_size [OF inv] card_Diff_singleton)
    show "indexof t (hash x) = j" if "j < length (elems t)" "elems ?t ! j = Some x" for j x
      using that nth_upd_None [of "elems t" ?i j x] table_inv_slot [OF inv, of j x] by auto
  qed simp_all
  moreover have "contents ?t = contents t - {e}"
  proof (rule set_eqI)
    fix x
    have one: "j = ?i" if "j < length (elems t)" "elems t ! j = Some e" for j
      using table_inv_slot [OF inv that] table_inv_slot [OF inv i some] by argo
    have "x \<in> contents ?t \<longleftrightarrow> (\<exists>j < length (elems t). j \<noteq> ?i \<and> elems t ! j = Some x)"
      unfolding contents_nth by (auto dest: nth_upd_None simp: nth_list_update_neq)
    also have "\<dots> \<longleftrightarrow> x \<in> contents t - {e}"
      using some one by (auto simp: contents_nth)
    finally show "x \<in> contents ?t \<longleftrightarrow> x \<in> contents t - {e}" .
  qed
  ultimately show ?thesis
    using i sz idx by (simp add: xfer_table_erase_def Let_def)
qed

interpretation tbl: txn_table hash "xfer_table_insert hash" xfer_table_erase xfer_table_find
  "table_inv hash" contents indexof "\<lambda>t. unat (tsize t)" for hash :: "'e \<Rightarrow> size_t"
proof (unfold_locales, goal_cases)
  case (1 t h e)
  then show ?case by (rule find_contents)
next
  case (2 t h)
  then show ?case using indexof_less [of hash t h] by (simp add: xfer_table_find_def Let_def)
next
  case (3 t e e')
  then obtain i j where i: "i < length (elems t)" "elems t ! i = Some e"
    and j: "j < length (elems t)" "elems t ! j = Some e'" by (auto simp: contents_nth)
  have "i = j"
    using table_inv_slot [OF 3(1) i] table_inv_slot [OF 3(1) j] 3(4) by argo
  with i j show ?case by simp
next
  case (4 t e)
  from insert_free_slot [OF 4] show ?case by (elim exE conjE) (intro exI conjI)
next
  case (5 t e)
  then show ?case
    using indexof_less [of hash t "hash e"]
    by (auto simp: xfer_table_insert_def xfer_table_find_def Let_def)
next
  case (6 t h e)
  from erase_slot [OF 6] show ?case by (elim exE conjE) (intro exI conjI)
next
  case (7 t)
  then show ?case using card_contents [of hash t] by (simp add: table_inv_def)
qed

section \<open>Sizing the table\<close>

declare clp2_loop.simps [simp del]

lemma ucast_shift1: "i < 32 \<Longrightarrow> (ucast (2 ^ i :: 32 word) :: size_t) = 2 ^ i"
  by (rule bit_word_eqI) (auto simp: bit_simps bit_exp_iff)

lemma clp2_loop_spec:
  assumes "i < 32" and "unat x \<le> 2 ^ 31" and "\<forall>j < i. 2 ^ j < unat x"
  shows "\<exists>k. i \<le> k \<and> k < 32 \<and> clp2_loop i x = Some (2 ^ k) \<and> unat x \<le> 2 ^ k \<and> (\<forall>j < k. 2 ^ j < unat x)"
  using assms
proof (induction "32 - i" arbitrary: i rule: less_induct)
  case less
  show ?case
  proof (cases "2 ^ i < unat x")
    case True
    with less.prems(1,2) have "i \<noteq> 31" by auto
    with less.prems have i: "Suc i < 32" by simp
    have "\<exists>k. Suc i \<le> k \<and> k < 32 \<and> clp2_loop (Suc i) x = Some (2 ^ k) \<and> unat x \<le> 2 ^ k \<and>
        (\<forall>j < k. 2 ^ j < unat x)"
      using less.prems i True by (intro less.hyps) (auto simp: less_Suc_eq)
    moreover have "clp2_loop i x = clp2_loop (Suc i) x"
      using less.prems True by (subst clp2_loop.simps) (simp add: ucast_shift1 word_less_nat_alt unat_pow2)
    ultimately show ?thesis by (metis Suc_leD)
  next
    case False
    then have "clp2_loop i x = Some (2 ^ i)"
      using less.prems by (subst clp2_loop.simps) (simp add: ucast_shift1 word_less_nat_alt unat_pow2)
    with False less.prems show ?thesis by (intro exI [of _ i]) auto
  qed
qed

section \<open>Properties\<close>

text \<open>C27: For every table size that fits in a positive \<open>int\<close> the loop of \<open>clp2\<close> ends before its
  32-bit shift becomes undefined, and it returns the least power of two that is not smaller than
  the size; a requested size above one is at most doubled.\<close>

theorem clp2_least_power:
  assumes "unat x \<le> 2 ^ 31"
  shows "\<exists>k < 32. clp2 x = Some (2 ^ k) \<and> unat x \<le> 2 ^ k \<and> (\<forall>j < k. 2 ^ j < unat x) \<and>
    (1 \<le> unat x \<longrightarrow> 2 ^ k < 2 * unat x)"
proof -
  obtain k where k: "k < 32" "clp2 x = Some (2 ^ k)" "unat x \<le> 2 ^ k" "\<forall>j < k. 2 ^ j < unat x"
    using clp2_loop_spec [of 0 x] assms by (auto simp: clp2_def)
  have "2 ^ k < 2 * unat x" if "1 \<le> unat x"
    using that k(4) by (cases k) auto
  with k show ?thesis by blast
qed

theorem clp2_least_power_witness:
  "\<exists>k < 32. clp2 5 = Some (2 ^ k) \<and> unat (5 :: size_t) \<le> 2 ^ k \<and> (\<forall>j < k. 2 ^ j < unat (5 :: size_t)) \<and>
    (1 \<le> unat (5 :: size_t) \<longrightarrow> 2 ^ k < 2 * unat (5 :: size_t))"
  by (rule clp2_least_power) simp

text \<open>A new table satisfies the invariant, is empty, and has room for at least the number of
  transfers asked for.\<close>

theorem xfer_table_new_inv:
  assumes "xfer_table_new True True n = Some (Some t)" and "unat n \<le> 2 ^ 31"
  shows "table_inv hash t \<and> contents t = {} \<and> tsize t = 0 \<and> unat n \<le> unat (capacity t)"
proof -
  obtain k where k: "k < 32" "clp2 n = Some (2 ^ k)" "unat n \<le> 2 ^ k"
    using clp2_loop_spec [of 0 n] assms(2) by (auto simp: clp2_def)
  then have t: "t = \<lparr>elems = replicate (2 ^ k) None, capacity = 2 ^ k, tsize = 0\<rparr>"
    using assms(1) by (simp add: xfer_table_new_def xfer_table_construct_def unat_pow2)
  have "used (replicate m None) = {}" for m by (auto simp: used_def)
  then have "table_inv hash t"
    using k by (auto simp: t table_inv_def unat_pow2)
  with k show ?thesis by (auto simp: t contents_def unat_pow2)
qed

theorem xfer_table_new_inv_witness:
  "\<exists>t :: nat xfer_table. xfer_table_new True True 3 = Some (Some t) \<and> contents t = {} \<and>
     unat (3 :: size_t) \<le> unat (capacity t)"
proof -
  have "clp2 3 = Some 4"
    by (simp add: clp2_def clp2_loop.simps)
  then obtain t :: "nat xfer_table" where t: "xfer_table_new True True 3 = Some (Some t)"
    by (simp add: xfer_table_new_def xfer_table_construct_def)
  from xfer_table_new_inv [OF t, of "\<lambda>_. 0"] t show ?thesis by auto
qed

text \<open>C26: The table behaves as a map from slots to elements: a successful insertion makes the element
  the one found under its id and keeps every other slot; erasing it restores the previous contents
  and count; and an insertion fails, leaving the table as it was, exactly when the slot is taken.\<close>

theorem xfer_table_map:
  assumes inv: "table_inv hash t"
  shows "(\<forall>t'. xfer_table_insert hash t e = Some (True, t') \<longrightarrow>
      table_inv hash t' \<and> xfer_table_find t' (hash e) = Some (Some e) \<and>
      unat (tsize t') = Suc (unat (tsize t)) \<and>
      (\<forall>h. indexof t h \<noteq> indexof t (hash e) \<longrightarrow> xfer_table_find t' h = xfer_table_find t h) \<and>
      (e \<notin> contents t \<longrightarrow> (\<exists>u. xfer_table_erase t' (hash e) = Some u \<and> table_inv hash u \<and>
         contents u = contents t \<and> tsize u = tsize t))) \<and>
    (xfer_table_insert hash t e = Some (False, t) \<longleftrightarrow>
      (\<exists>x. xfer_table_find t (hash e) = Some (Some x)))"
proof (intro conjI allI impI)
  fix t'
  assume ins: "xfer_table_insert hash t e = Some (True, t')"
  show "table_inv hash t'" "xfer_table_find t' (hash e) = Some (Some e)"
    "unat (tsize t') = Suc (unat (tsize t))"
    using tbl.insert_find [OF inv ins] by auto
  show "xfer_table_find t' h = xfer_table_find t h" if "indexof t h \<noteq> indexof t (hash e)" for h
    using tbl.insert_keeps [OF inv ins that] .
  assume "e \<notin> contents t"
  then show "\<exists>u. xfer_table_erase t' (hash e) = Some u \<and> table_inv hash u \<and>
      contents u = contents t \<and> tsize u = tsize t"
    using tbl.insert_erase [OF inv ins] by (auto simp: word_unat_eq_iff)
next
  show "xfer_table_insert hash t e = Some (False, t) \<longleftrightarrow>
      (\<exists>x. xfer_table_find t (hash e) = Some (Some x))"
    using tbl.find_cases [OF inv, of "hash e"] tbl.insert_free [OF inv, of e]
      tbl.insert_taken [OF inv, of e] by (metis option.distinct(1) option.inject prod.inject)
qed

definition example_table :: "size_t xfer_table" where
  "example_table = \<lparr>elems = [None, None, None, None], capacity = 4, tsize = 0\<rparr>"

lemma example_table_inv: "table_inv id example_table"
proof -
  have "\<exists>k < 32. (4 :: size_t) = 2 ^ k" by (intro exI [of _ 2]) simp
  moreover have "elems example_table = replicate 4 None"
    by (simp add: example_table_def numeral_eq_Suc)
  moreover have "used (replicate 4 None) = {}" by (auto simp: used_def)
  ultimately show ?thesis
    by (simp add: table_inv_def) (simp add: example_table_def)
qed

theorem xfer_table_map_witness:
  "\<exists>t'. xfer_table_insert id example_table 6 = Some (True, t') \<and>
     xfer_table_find t' (id 6) = Some (Some 6)"
  using xfer_table_map [OF example_table_inv, of 6]
  by (auto simp: xfer_table_insert_def indexof_def example_table_def Let_def)

text \<open>Looking an id up compares slots, not ids: the element found under an id is found under
  every id that is congruent to it modulo the capacity. Ids fewer than \<open>capacity\<close> apart never
  share a slot.\<close>

theorem find_by_slot:
  assumes "table_inv hash t" and "e \<in> contents t"
  shows "(xfer_table_find t h = Some (Some e) \<longleftrightarrow>
      unat h mod unat (capacity t) = unat (hash e) mod unat (capacity t)) \<and>
    (h \<noteq> hash e \<and> unat h \<le> unat (hash e) \<and> unat (hash e) - unat h < unat (capacity t) \<longrightarrow>
      xfer_table_find t h \<noteq> Some (Some e))"
proof -
  from assms(1) obtain k where k: "k < 32" "capacity t = 2 ^ k" "length (elems t) = 2 ^ k"
    by (rule table_inv_cap)
  have *: "xfer_table_find t h = Some (Some e) \<longleftrightarrow>
      unat h mod unat (capacity t) = unat (hash e) mod unat (capacity t)"
    using assms k by (auto simp: find_contents [OF assms(1)] indexof_mod unat_pow2)
  have "unat h = unat (hash e)"
    if "unat h \<le> unat (hash e)" "unat (hash e) - unat h < unat (capacity t)"
      "unat h mod unat (capacity t) = unat (hash e) mod unat (capacity t)"
  proof -
    have "unat (capacity t) dvd unat (hash e) - unat h"
      using that by (metis mod_eq_dvd_iff_nat)
    with that(2) have "unat (hash e) - unat h = 0"
      by (metis nat_dvd_not_less not_gr_zero)
    with that(1) show ?thesis by simp
  qed
  with * show ?thesis by (auto simp: word_unat_eq_iff)
qed

definition aliased_table :: "size_t xfer_table" where
  "aliased_table = \<lparr>elems = [None, Some 5, None, None], capacity = 4, tsize = 1\<rparr>"

lemma aliased_table_inv: "table_inv id aliased_table" "5 \<in> contents aliased_table"
proof -
  have "aliased_table = (case xfer_table_insert id example_table 5 of Some (_, t) \<Rightarrow> t)"
    by (simp add: aliased_table_def xfer_table_insert_def indexof_def example_table_def Let_def)
  moreover obtain t' where t': "xfer_table_insert id example_table 5 = Some (True, t')"
    by (simp add: xfer_table_insert_def indexof_def example_table_def Let_def)
  ultimately have "aliased_table = t'" by simp
  with tbl.insert_find [OF example_table_inv t']
  show "table_inv id aliased_table" "5 \<in> contents aliased_table" by auto
qed

theorem find_by_slot_witness:
  "xfer_table_find aliased_table 1 = Some (Some 5) \<and> xfer_table_find aliased_table 2 \<noteq> Some (Some 5)"
  using find_by_slot [OF aliased_table_inv, of 1] find_by_slot [OF aliased_table_inv, of 2]
  by (simp add: aliased_table_def)

end
