(* ===== verification/Sfd_File_IO.thy ===== *)
theory Sfd_File_IO
  imports Sfd_Process
begin

text \<open>
  The helpers of \<open>impl/util.c\<close>, \<open>impl/util_linux.c\<close> and \<open>impl/util_posix.c\<close> (descriptor flags,
  pipes, the capacity of a pipe), \<open>impl/file_io.c\<close> (opening, locking and inspecting a file) and the
  data movers of \<open>impl/file_io_linux.c\<close>. The static variable of \<open>pipe_capacity\<close> is the state
  component \<open>pipe_c\<close>.
\<close>

record uproc = proc +
  pipe_c :: size_t

section \<open>Descriptor flags (util.c)\<close>

definition O_NONBLOCK :: int where "O_NONBLOCK = 0x800"
definition O_CLOEXEC :: int where "O_CLOEXEC = 0x80000"
definition FD_CLOEXEC :: int where "FD_CLOEXEC = 1"

definition set_nonblock :: "os \<Rightarrow> fd \<Rightarrow> bool \<Rightarrow> ('m proc_scheme, bool) prog" where
  "set_nonblock os fd enabled =
     bindP (syscall os (SysGetfl fd)) (\<lambda>fl.
     if fl = -1 then ret False
     else bindP (syscall os (SysSetfl fd
            (if enabled then fl OR O_NONBLOCK else fl AND NOT O_NONBLOCK))) (\<lambda>r.
          ret (r = 0)))"

definition set_cloexec :: "os \<Rightarrow> fd \<Rightarrow> bool \<Rightarrow> ('m proc_scheme, bool) prog" where
  "set_cloexec os fd enabled =
     bindP (syscall os (SysGetfd fd)) (\<lambda>fl.
     if fl = -1 then ret False
     else bindP (syscall os (SysSetfd fd
            (if enabled then fl OR FD_CLOEXEC else fl AND NOT FD_CLOEXEC))) (\<lambda>r.
          ret (r = 0)))"

section \<open>Pipes\<close>

text \<open>\<open>pipe2(2)\<close> on Linux; the result is the return value and the two descriptors.\<close>

definition sfd_pipe :: "os \<Rightarrow> int \<Rightarrow> ('m proc_scheme, int \<times> (fd \<times> fd)) prog" where
  "sfd_pipe os flags =
     bindP (getP trace) (\<lambda>h.
     bindP (syscall os (SysPipe flags)) (\<lambda>r. ret (r, os_pipe os h)))"

text \<open>The two-step version for other systems (\<open>util_posix.c\<close>): both ends are closed again when a
  flag cannot be set.\<close>

definition sfd_pipe_posix :: "os \<Rightarrow> int \<Rightarrow> ('m proc_scheme, int \<times> (fd \<times> fd)) prog" where
  "sfd_pipe_posix os flags =
     bindP (sfd_pipe os 0) (\<lambda>(r, (rd, wr)).
     if r = -1 then ret (-1, (rd, wr))
     else
       let fail = seqP (PRESERVE_ERRNO (close_fd os rd))
                   (seqP (PRESERVE_ERRNO (close_fd os wr)) (ret (-1, (rd, wr))))
       in bindP (if flags AND O_NONBLOCK \<noteq> 0 then
                   bindP (set_nonblock os rd True) (\<lambda>a. if a then set_nonblock os wr True else ret False)
                 else ret True) (\<lambda>nb.
          if \<not> nb then fail
          else bindP (if flags AND O_CLOEXEC \<noteq> 0 then
                        bindP (set_cloexec os rd True) (\<lambda>a. if a then set_cloexec os wr True else ret False)
                      else ret True) (\<lambda>ce.
               if \<not> ce then fail else ret (0, (rd, wr)))))"

text \<open>
  The loop that fills a fresh pipe with pages. The kernel decides when the pipe is full, so the
  loop has fuel; every successful write adds at least a byte, and the kernel keeps a pipe's
  capacity in an \<open>int\<close>, so \<open>FILL_FUEL = 2 ^ 31\<close> rounds are enough.
\<close>

definition FILL_FUEL :: nat where "FILL_FUEL = 2 ^ 31"

fun fill_pipe :: "nat \<Rightarrow> os \<Rightarrow> fd \<Rightarrow> nat \<Rightarrow> ('m uproc_scheme, unit) prog" where
  "fill_pipe fuel os fd page_size =
     (if fuel = 0 then divergeP
      else bindP (syscall os (SysWrite fd (replicate page_size 0))) (\<lambda>n.
           if n = -1 then ret ()
           else seqP (assertP (n > 0) ''n > 0'')
                (seqP (modP (\<lambda>s. s\<lparr>pipe_c := pipe_c s + word_of_int n\<rparr>))
                (fill_pipe (fuel - 1) os fd page_size))))"

declare fill_pipe.simps [simp del]

definition pipe_capacity :: "os \<Rightarrow> ('m uproc_scheme, size_t) prog" where
  "pipe_capacity os =
     bindP (getP pipe_c) (\<lambda>c.
     if c \<noteq> 0 then ret c
     else bindP (syscall os SysPageSize) (\<lambda>page_size.
     if page_size = -1 then ret 0
     else seqP (assertP (page_size > 0) ''page_size > 0'')
     (bindP (syscall os (SysMalloc (nat page_size))) (\<lambda>page.
     if page \<le> 0 then ret 0
     else bindP (sfd_pipe os O_NONBLOCK) (\<lambda>(r, (rd, wr)).
     if r = -1 then ret 0
     else seqP (fill_pipe FILL_FUEL os wr (nat page_size))
     (bindP (getP errno) (\<lambda>e.
      bindP (getP pipe_c) (\<lambda>c.
      if (e \<noteq> EWOULDBLOCK \<and> e \<noteq> EAGAIN) \<or> c = 0 then
        seqP (assertP False ''abort: pipe capacity'') (ret 0)
      else seqP (PRESERVE_ERRNO (close_fd os rd))
           (seqP (PRESERVE_ERRNO (close_fd os wr)) (ret c)))))))))) "

section \<open>Opening files (file\_io.c)\<close>

definition SEEK_SET :: nat where "SEEK_SET = 0"
definition SEEK_CUR :: nat where "SEEK_CUR = 1"

record fio_stat =
  fs_size :: size_t
  fs_atime :: "64 word"
  fs_mtime :: "64 word"
  fs_ctime :: "64 word"
  fs_blksize :: "32 word"

definition lock_file :: "os \<Rightarrow> fd \<Rightarrow> off_t \<Rightarrow> off_t \<Rightarrow> ('m proc_scheme, bool) prog" where
  "lock_file os fd offset len =
     bindP (syscall os (SysSetlk fd offset len)) (\<lambda>r. ret (r \<noteq> -1))"

text \<open>\<open>None\<close> stands for the result \<open>-1\<close>, with \<open>errno\<close> set.\<close>

definition stat_file :: "os \<Rightarrow> fd \<Rightarrow> ('m proc_scheme, fio_stat option) prog" where
  "stat_file os fd =
     bindP (getP trace) (\<lambda>h.
     bindP (syscall os (SysFstat fd)) (\<lambda>r.
     let st = os_stat os h fd in
     if r = -1 then ret None
     else if \<not> st_isreg st \<and> \<not> st_islnk st then seqP (set_errno EINVAL) (ret None)
     else ret (Some \<lparr>fs_size = st_size st, fs_atime = st_atime st, fs_mtime = st_mtime st,
                     fs_ctime = st_ctime st, fs_blksize = ucast (st_blksize st)\<rparr>)))"

definition file_open_read ::
  "os \<Rightarrow> byte list \<Rightarrow> off_t \<Rightarrow> size_t \<Rightarrow> ('m proc_scheme, (fd \<times> fio_stat) option) prog" where
  "file_open_read os name offset len =
     bindP (syscall os (SysOpen (cstr name))) (\<lambda>fd.
     if fd = -1 then ret None
     else
       let fail = seqP (PRESERVE_ERRNO (close_fd os fd)) (ret None)
       in bindP (stat_file os fd) (\<lambda>info.
          case info of
            None \<Rightarrow> fail
          | Some st \<Rightarrow>
              bindP (lock_file os fd offset len) (\<lambda>locked.
              if \<not> locked then fail
              else if 0 <s offset then
                bindP (syscall os (SysLseek fd offset SEEK_SET)) (\<lambda>r.
                if r = -1 then fail else ret (Some (fd, st)))
              else ret (Some (fd, st)))))"

definition file_offset :: "os \<Rightarrow> fd \<Rightarrow> ('m proc_scheme, int) prog" where
  "file_offset os fd = syscall os (SysLseek fd 0 SEEK_CUR)"

section \<open>Moving data on Linux (file\_io\_linux.c)\<close>

text \<open>No context is needed: the constructor returns the null pointer and that is the valid one.\<close>

definition fio_ctx_new :: "size_t \<Rightarrow> addr" where
  "fio_ctx_new cap = 0"

definition fio_ctx_valid :: "addr \<Rightarrow> bool" where
  "fio_ctx_valid ctx \<longleftrightarrow> ctx = 0"

definition fio_ctx_delete :: "addr \<Rightarrow> ('s, unit) prog" where
  "fio_ctx_delete ctx = ret ()"

definition file_splice :: "os \<Rightarrow> fd \<Rightarrow> fd \<Rightarrow> addr \<Rightarrow> size_t \<Rightarrow> ('m proc_scheme, int) prog" where
  "file_splice os fd_in fd_out ctx nbytes =
     seqP (assertP (nbytes > 0) ''nbytes > 0'') (syscall os (SysSplice fd_in fd_out nbytes))"

definition file_sendfile :: "os \<Rightarrow> fd \<Rightarrow> fd \<Rightarrow> addr \<Rightarrow> size_t \<Rightarrow> ('m proc_scheme, int) prog" where
  "file_sendfile os fd_in fd_out ctx nbytes =
     seqP (assertP (nbytes > 0) ''nbytes > 0'') (syscall os (SysSendfile fd_out fd_in nbytes))"

section \<open>Rules\<close>

text \<open>What \<open>file_open_read\<close> did, by its result: the calls since the start.\<close>

definition open_closed :: "byte list \<Rightarrow> history \<Rightarrow> bool" where
  "open_closed name h \<longleftrightarrow> h = [(SysOpen name, -1)] \<or>
     (\<exists>fd g r. fd \<noteq> -1 \<and> h = (SysOpen name, fd) # g @ [(SysClose fd, r)] \<and>
        SysClose fd \<notin> set (map fst g) \<and> (\<forall>nm. SysOpen nm \<notin> set (map fst g)))"

definition open_kept :: "byte list \<Rightarrow> off_t \<Rightarrow> size_t \<Rightarrow> fd \<Rightarrow> history \<Rightarrow> bool" where
  "open_kept name offset len fd h \<longleftrightarrow> fd \<noteq> -1 \<and> h \<noteq> [] \<and> hd h = (SysOpen name, fd) \<and>
     SysClose fd \<notin> set (map fst h) \<and> (\<forall>nm. SysOpen nm \<notin> set (map fst (tl h))) \<and> (\<exists>r. r \<noteq> -1 \<and> (SysSetlk fd offset len, r) \<in> set h) \<and>
     (0 <s offset \<longrightarrow> (\<exists>r. r \<noteq> -1 \<and> (SysLseek fd offset SEEK_SET, r) \<in> set h))"

text \<open>The last call of \<open>h\<close>, which follows the calls \<open>pre\<close>, has failed with the error \<open>e\<close>.\<close>

definition last_failed :: "os \<Rightarrow> history \<Rightarrow> history \<Rightarrow> errno_t \<Rightarrow> bool" where
  "last_failed os pre h e \<longleftrightarrow> h \<noteq> [] \<and> snd (last h) = -1 \<and> sys os (pre @ butlast h) (fst (last h)) = (-1, e)"

text \<open>Opening was refused with the error \<open>e\<close>: by the open itself, by the last call before the descriptor was
  closed, or because the file is neither a regular one nor a link.\<close>

definition open_refused :: "os \<Rightarrow> byte list \<Rightarrow> history \<Rightarrow> history \<Rightarrow> errno_t \<Rightarrow> bool" where
  "open_refused os name pre h e \<longleftrightarrow> h = [(SysOpen name, -1)] \<and> last_failed os pre h e \<or>
     (\<exists>fd g r. fd \<noteq> -1 \<and> h = (SysOpen name, fd) # g @ [(SysClose fd, r)] \<and>
        SysClose fd \<notin> set (map fst g) \<and> (\<forall>nm. SysOpen nm \<notin> set (map fst g)) \<and>
        (last_failed os (pre @ [(SysOpen name, fd)]) g e \<or>
         e = EINVAL \<and> map fst g = [SysFstat fd] \<and> snd (hd g) \<noteq> -1 \<and>
           \<not> st_isreg (os_stat os (pre @ [(SysOpen name, fd)]) fd) \<and> \<not> st_islnk (os_stat os (pre @ [(SysOpen name, fd)]) fd)))"

lemma open_refused_closed: "open_refused os name pre h e \<Longrightarrow> open_closed name h"
  unfolding open_refused_def open_closed_def by blast

definition open_outcome ::
  "os \<Rightarrow> byte list \<Rightarrow> off_t \<Rightarrow> size_t \<Rightarrow> 'm proc_scheme \<Rightarrow> (fd \<times> fio_stat) option \<Rightarrow> 'm proc_scheme \<Rightarrow> bool" where
  "open_outcome os name offset len s r t \<longleftrightarrow> (\<exists>h. trace t = trace s @ h \<and>
     (case r of
        None \<Rightarrow> open_refused os (cstr name) (trace s) h (errno t)
      | Some (fd, st) \<Rightarrow> open_kept (cstr name) offset len fd h \<and>
          fs_size st = st_size (os_stat os (trace s @ [hd h]) fd)))"

lemma file_open_read_outcome:
  "wp E (file_open_read os name offset len) (open_outcome os name offset len s) s"
  by (auto simp: file_open_read_def stat_file_def lock_file_def wp_simps Let_def open_outcome_def
      open_refused_def last_failed_def prod_eq_iff open_kept_def errno_call_state)

section \<open>Properties\<close>

text \<open>C36: Opening a file never leaks a descriptor. When \<open>file_open_read\<close> fails, either the open itself
  failed, and \<open>errno\<close> is its error, or the descriptor was closed again, once and last, and \<open>errno\<close> is
  the error of the call just before the close (or \<open>EINVAL\<close> where that call was an \<open>fstat\<close> that found neither a regular file nor a link), whatever error the close
  itself gave. When it succeeds the descriptor is open, the requested range is locked, the file position has
  been set where an offset was given, and the size returned is the one the kernel reported.\<close>

theorem file_open_read_no_leak:
  "wp never (file_open_read os name offset len) (\<lambda>r t. \<exists>h. trace t = trace s @ h \<and>
     (case r of
        None \<Rightarrow> open_refused os (cstr name) (trace s) h (errno t)
      | Some (fd, st) \<Rightarrow> open_kept (cstr name) offset len fd h \<and>
          fs_size st = st_size (os_stat os (trace s @ [hd h]) fd))) s"
  using file_open_read_outcome [of never os name offset len s] unfolding open_outcome_def .

end
