(* ===== verification/Sfd_Resources.thy ===== *)
theory Sfd_Resources
  imports Sfd_Protocol Sfd_Table Sfd_File_IO
begin

text \<open>
  The data model of the server: the resources of \<open>impl/server_resources.h\<close> with the operations of
  \<open>impl/server_resources.c\<close>, \<open>struct syspoll\<close> of \<open>impl/syspoll_linux.c\<close> and \<open>struct server\<close> of
  \<open>impl/server.c\<close>. Resources live in a heap, a partial map from addresses; reading through an
  address that is not allocated, or through the wrong structure, is undefined, and so is freeing
  memory twice. \<open>malloc\<close> takes the address the kernel proposes when it is not in use and returns
  the null pointer otherwise, so an address may be reused once it has been freed.
\<close>

section \<open>Resources (server\_resources.h)\<close>

definition XFER_RESRC_TAG :: int where "XFER_RESRC_TAG = 0"
definition TIMER_RESRC_TAG :: int where "TIMER_RESRC_TAG = 1"
definition PENDING_RESP_TAG :: int where "PENDING_RESP_TAG = 2"

lemmas tag_defs = XFER_RESRC_TAG_def TIMER_RESRC_TAG_def PENDING_RESP_TAG_def

datatype deferral = NONE | CANCEL | READY

record resrc_xfer_file =
  xf_size :: size_t
  xf_fd :: fd
  xf_blksize :: "32 word"

record resrc_xfer =
  dest_fd :: fd
  xtag :: int
  stat_fd :: fd
  cmd :: byte
  txnid :: size_t
  xfile :: resrc_xfer_file
  fio_ctx :: addr
  nbytes_left :: size_t
  client_pid :: pid_t
  xdefer :: deferral

record resrc_resp =
  rs_stat_fd :: fd
  rs_tag :: int
  rs_pdu_size :: nat
  rs_pdu :: "byte list"

record resrc_timer =
  tm_ident :: int
  tm_tag :: int
  tm_txnid :: size_t
  tm_xfer_addr :: addr

datatype resrc = RXfer resrc_xfer | RResp resrc_resp | RTimer resrc_timer

text \<open>The first two fields have the same place in every structure: the descriptor registered with
  the poller and the type tag.\<close>

fun resrc_ident :: "resrc \<Rightarrow> int" where
  "resrc_ident (RXfer x) = dest_fd x"
| "resrc_ident (RResp r) = rs_stat_fd r"
| "resrc_ident (RTimer t) = tm_ident t"

fun resrc_tag :: "resrc \<Rightarrow> int" where
  "resrc_tag (RXfer x) = xtag x"
| "resrc_tag (RResp r) = rs_tag r"
| "resrc_tag (RTimer t) = tm_tag t"

section \<open>The server's state\<close>

type_synonym heap_t = "addr \<Rightarrow> resrc option"

record syspoll =
  epollfd :: fd
  sigfd :: fd
  pevents :: "epoll_event list"
  pnevents :: int

text \<open>\<open>deferred_xfers\<close> is the whole array; its first \<open>ndeferred_xfers\<close> slots are in use.\<close>

record server =
  poller :: syspoll
  xfers :: "addr xfer_table"
  xfer_timers :: "addr xfer_table"
  deferred_xfers :: "addr list"
  ndeferred_xfers :: nat
  next_txnid :: size_t
  reqfd :: fd
  open_file_timeout_ms :: "32 word"
  srv_uid :: uid_t

record rproc = uproc +
  heap :: heap_t

record sproc = rproc +
  srv :: server

section \<open>Memory\<close>

definition malloc_obj :: "os \<Rightarrow> nat \<Rightarrow> resrc \<Rightarrow> ('m rproc_scheme, addr) prog" where
  "malloc_obj os sz obj =
     bindP (syscall os (SysMalloc sz)) (\<lambda>r.
     bindP (getP heap) (\<lambda>h.
     if r \<le> 0 \<or> h (nat r) \<noteq> None then seqP (set_errno ENOMEM) (ret 0)
     else seqP (modP (\<lambda>s. s\<lparr>heap := (heap s)(nat r \<mapsto> obj)\<rparr>)) (ret (nat r))))"

definition free_obj :: "addr \<Rightarrow> ('m rproc_scheme, unit) prog" where
  "free_obj p =
     bindP (getP heap) (\<lambda>h.
     case h p of None \<Rightarrow> undefP ''free of an address that is not allocated''
     | Some _ \<Rightarrow> modP (\<lambda>s. s\<lparr>heap := (heap s)(p := None)\<rparr>))"

definition get_xfer :: "addr \<Rightarrow> ('m rproc_scheme, resrc_xfer) prog" where
  "get_xfer p =
     bindP (getP heap) (\<lambda>h.
     case h p of Some (RXfer x) \<Rightarrow> ret x | _ \<Rightarrow> undefP ''not a live transfer'')"

definition upd_xfer :: "addr \<Rightarrow> (resrc_xfer \<Rightarrow> resrc_xfer) \<Rightarrow> ('m rproc_scheme, unit) prog" where
  "upd_xfer p f =
     bindP (get_xfer p) (\<lambda>x. modP (\<lambda>s. s\<lparr>heap := (heap s)(p \<mapsto> RXfer (f x))\<rparr>))"

definition get_timer :: "addr \<Rightarrow> ('m rproc_scheme, resrc_timer) prog" where
  "get_timer p =
     bindP (getP heap) (\<lambda>h.
     case h p of Some (RTimer t) \<Rightarrow> ret t | _ \<Rightarrow> undefP ''not a live timer'')"

definition upd_timer :: "addr \<Rightarrow> (resrc_timer \<Rightarrow> resrc_timer) \<Rightarrow> ('m rproc_scheme, unit) prog" where
  "upd_timer p f =
     bindP (get_timer p) (\<lambda>x. modP (\<lambda>s. s\<lparr>heap := (heap s)(p \<mapsto> RTimer (f x))\<rparr>))"

definition get_resp :: "addr \<Rightarrow> ('m rproc_scheme, resrc_resp) prog" where
  "get_resp p =
     bindP (getP heap) (\<lambda>h.
     case h p of Some (RResp r) \<Rightarrow> ret r | _ \<Rightarrow> undefP ''not a live response'')"

definition get_tag :: "addr \<Rightarrow> ('m rproc_scheme, int) prog" where
  "get_tag p =
     bindP (getP heap) (\<lambda>h.
     case h p of None \<Rightarrow> undefP ''read of freed memory'' | Some r \<Rightarrow> ret (resrc_tag r))"

section \<open>Operations (server\_resources.c)\<close>

text \<open>The sizes of the structures on LP64.\<close>

definition SIZEOF_XFER :: nat where "SIZEOF_XFER = 64"
definition SIZEOF_RESP :: nat where "SIZEOF_RESP = 32"
definition SIZEOF_TIMER :: nat where "SIZEOF_TIMER = 24"

definition xfer_new ::
  "os \<Rightarrow> byte \<Rightarrow> resrc_xfer_file \<Rightarrow> size_t \<Rightarrow> pid_t \<Rightarrow> fd \<Rightarrow> fd \<Rightarrow> size_t \<Rightarrow> ('m rproc_scheme, addr) prog" where
  "xfer_new os c file nbytes pid stfd dfd tx =
     bindP (malloc_obj os SIZEOF_XFER (RXfer
       \<lparr>dest_fd = dfd, xtag = XFER_RESRC_TAG, stat_fd = stfd, cmd = c, txnid = tx, xfile = file,
        fio_ctx = fio_ctx_new (ucast (xf_blksize file)), nbytes_left = nbytes, client_pid = pid,
        xdefer = NONE\<rparr>)) (\<lambda>p.
     if p = 0 then ret 0
     else bindP (get_xfer p) (\<lambda>x.
          if \<not> fio_ctx_valid (fio_ctx x) then seqP (free_obj p) (ret 0) else ret p))"

definition is_xfer :: "addr \<Rightarrow> ('m rproc_scheme, bool) prog" where
  "is_xfer p = bindP (get_tag p) (\<lambda>t. ret (t = XFER_RESRC_TAG))"

definition is_response :: "addr \<Rightarrow> ('m rproc_scheme, bool) prog" where
  "is_response p = bindP (get_tag p) (\<lambda>t. ret (t = PENDING_RESP_TAG))"

definition is_timer :: "addr \<Rightarrow> ('m rproc_scheme, bool) prog" where
  "is_timer p = bindP (get_tag p) (\<lambda>t. ret (t = TIMER_RESRC_TAG))"

text \<open>The hash functions of the two tables, as functions of the heap.\<close>

definition resrc_xfer_txnid :: "heap_t \<Rightarrow> addr \<Rightarrow> size_t" where
  "resrc_xfer_txnid h p = (case h p of Some (RXfer x) \<Rightarrow> txnid x | _ \<Rightarrow> 0)"

definition resrc_timer_txnid :: "heap_t \<Rightarrow> addr \<Rightarrow> size_t" where
  "resrc_timer_txnid h p = (case h p of Some (RTimer t) \<Rightarrow> tm_txnid t | _ \<Rightarrow> 0)"

definition xfer_delete :: "addr \<Rightarrow> ('m rproc_scheme, unit) prog" where
  "xfer_delete p =
     (if p = 0 then ret ()
      else bindP (get_xfer p) (\<lambda>x.
           seqP (assertP (xtag x = XFER_RESRC_TAG) ''this->tag == XFER_RESRC_TAG'')
           (seqP (fio_ctx_delete (fio_ctx x)) (free_obj p))))"

definition timer_delete :: "os \<Rightarrow> addr \<Rightarrow> ('m rproc_scheme, unit) prog" where
  "timer_delete os p =
     (if p = 0 then ret ()
      else bindP (get_timer p) (\<lambda>t.
           seqP (assertP (tm_tag t = TIMER_RESRC_TAG) ''this->tag == TIMER_RESRC_TAG'')
           (seqP (close_fd os (tm_ident t)) (free_obj p))))"

section \<open>Rewriting rules\<close>

lemma call_state_fields [simp]:
  "pipe_c (call_state os c (s :: 'u uproc_scheme)) = pipe_c s"
  "heap (call_state os c (r :: 'r rproc_scheme)) = heap r"
  "srv (call_state os c (q :: 'q sproc_scheme)) = srv q"
  by (simp_all add: call_state_def)

definition malloc_ok :: "os \<Rightarrow> nat \<Rightarrow> 'm rproc_scheme \<Rightarrow> bool" where
  "malloc_ok os sz s \<longleftrightarrow>
     0 < fst (sys os (trace s) (SysMalloc sz)) \<and> heap s (nat (fst (sys os (trace s) (SysMalloc sz)))) = None"

definition malloc_addr :: "os \<Rightarrow> nat \<Rightarrow> 'm rproc_scheme \<Rightarrow> addr" where
  "malloc_addr os sz s = nat (fst (sys os (trace s) (SysMalloc sz)))"

lemma malloc_okD: "malloc_ok os sz s \<Longrightarrow> malloc_addr os sz s \<noteq> 0 \<and> heap s (malloc_addr os sz s) = None"
  by (auto simp: malloc_ok_def malloc_addr_def)

lemma wp_malloc_obj [wp_simps]:
  "wp E (malloc_obj os sz obj) Q = (\<lambda>s.
     let t = call_state os (SysMalloc sz) s
     in if malloc_ok os sz s then Q (malloc_addr os sz s) (t\<lparr>heap := (heap s)(malloc_addr os sz s \<mapsto> obj)\<rparr>)
        else Q 0 (t\<lparr>errno := ENOMEM\<rparr>))"
  by (auto simp: fun_eq_iff malloc_obj_def wp_simps malloc_ok_def malloc_addr_def Let_def not_less)

lemma wp_free_obj [wp_simps]:
  "wp E (free_obj p) Q = (\<lambda>s. if heap s p = None then E (Undefined ''free of an address that is not allocated'')
     else Q () (s\<lparr>heap := (heap s)(p := None)\<rparr>))"
  by (auto simp: fun_eq_iff free_obj_def wp_simps split: option.splits)

lemma wp_get_xfer [wp_simps]:
  "wp E (get_xfer p) Q = (\<lambda>s. case heap s p of Some (RXfer x) \<Rightarrow> Q x s
     | _ \<Rightarrow> E (Undefined ''not a live transfer''))"
  by (auto simp: fun_eq_iff get_xfer_def wp_simps split: option.splits resrc.splits)

lemma wp_upd_xfer [wp_simps]:
  "wp E (upd_xfer p f) Q =
     (\<lambda>s. case heap s p of Some (RXfer x) \<Rightarrow> Q () (s\<lparr>heap := (heap s)(p \<mapsto> RXfer (f x))\<rparr>)
     | _ \<Rightarrow> E (Undefined ''not a live transfer''))"
  by (auto simp: fun_eq_iff upd_xfer_def wp_simps split: option.splits resrc.splits)

lemma wp_get_timer [wp_simps]:
  "wp E (get_timer p) Q = (\<lambda>s. case heap s p of Some (RTimer x) \<Rightarrow> Q x s
     | _ \<Rightarrow> E (Undefined ''not a live timer''))"
  by (auto simp: fun_eq_iff get_timer_def wp_simps split: option.splits resrc.splits)

lemma wp_upd_timer [wp_simps]:
  "wp E (upd_timer p f) Q =
     (\<lambda>s. case heap s p of Some (RTimer x) \<Rightarrow> Q () (s\<lparr>heap := (heap s)(p \<mapsto> RTimer (f x))\<rparr>)
     | _ \<Rightarrow> E (Undefined ''not a live timer''))"
  by (auto simp: fun_eq_iff upd_timer_def wp_simps split: option.splits resrc.splits)

lemma wp_get_resp [wp_simps]:
  "wp E (get_resp p) Q = (\<lambda>s. case heap s p of Some (RResp x) \<Rightarrow> Q x s
     | _ \<Rightarrow> E (Undefined ''not a live response''))"
  by (auto simp: fun_eq_iff get_resp_def wp_simps split: option.splits resrc.splits)

lemma wp_get_tag [wp_simps]:
  "wp E (get_tag p) Q = (\<lambda>s. case heap s p of Some r \<Rightarrow> Q (resrc_tag r) s
     | None \<Rightarrow> E (Undefined ''read of freed memory''))"
  by (auto simp: fun_eq_iff get_tag_def wp_simps split: option.splits)

lemmas is_resrc_defs = is_xfer_def is_response_def is_timer_def

lemma wp_is_resrc [wp_simps]:
  "wp E (is_xfer p) Q = (\<lambda>s. case heap s p of Some r \<Rightarrow> Q (resrc_tag r = XFER_RESRC_TAG) s
     | None \<Rightarrow> E (Undefined ''read of freed memory''))"
  "wp E (is_response p) Q = (\<lambda>s. case heap s p of Some r \<Rightarrow> Q (resrc_tag r = PENDING_RESP_TAG) s
     | None \<Rightarrow> E (Undefined ''read of freed memory''))"
  "wp E (is_timer p) Q = (\<lambda>s. case heap s p of Some r \<Rightarrow> Q (resrc_tag r = TIMER_RESRC_TAG) s
     | None \<Rightarrow> E (Undefined ''read of freed memory''))"
  by (auto simp: fun_eq_iff is_resrc_defs wp_simps split: option.splits)

lemma wp_fio_ctx_delete [wp_simps]: "wp E (fio_ctx_delete c) Q = (\<lambda>s. Q () s)"
  by (simp add: fio_ctx_delete_def wp_simps)

lemma wp_xfer_new [wp_simps]:
  "wp E (xfer_new os c file n pid stfd dfd tx) Q = (\<lambda>s.
     let t = call_state os (SysMalloc SIZEOF_XFER) s; p = malloc_addr os SIZEOF_XFER s
     in if malloc_ok os SIZEOF_XFER s
        then Q p (t\<lparr>heap := (heap s)(p \<mapsto> RXfer
           \<lparr>dest_fd = dfd, xtag = XFER_RESRC_TAG, stat_fd = stfd, cmd = c, txnid = tx, xfile = file,
            fio_ctx = 0, nbytes_left = n, client_pid = pid, xdefer = NONE\<rparr>)\<rparr>)
        else Q 0 (t\<lparr>errno := ENOMEM\<rparr>))"
  by (auto simp: fun_eq_iff xfer_new_def wp_simps Let_def fio_ctx_new_def fio_ctx_valid_def
      dest: malloc_okD)

lemma wp_xfer_delete:
  "p \<noteq> 0 \<Longrightarrow> heap s p = Some (RXfer x) \<Longrightarrow> xtag x = XFER_RESRC_TAG \<Longrightarrow>
   wp E (xfer_delete p) Q s = Q () (s\<lparr>heap := (heap s)(p := None)\<rparr>)"
  by (simp add: xfer_delete_def wp_simps)

lemma wp_timer_delete:
  "p \<noteq> 0 \<Longrightarrow> heap s p = Some (RTimer x) \<Longrightarrow> tm_tag x = TIMER_RESRC_TAG \<Longrightarrow>
   wp E (timer_delete os p) Q s =
     Q () ((call_state os (SysClose (tm_ident x)) s)\<lparr>heap := (heap s)(p := None)\<rparr>)"
  by (simp add: timer_delete_def wp_simps)

end
