(* ===== verification/Sfd_Responses.thy ===== *)
theory Sfd_Responses
  imports Sfd_Resources
begin

text \<open>
  Writing responses to a status channel: \<open>impl/server_responses.c\<close>. A response is written with one
  \<open>write(2)\<close>; the code asserts that it is written whole or not at all, which holds for pipes and
  messages of this size (\<open>pipe_atomic\<close>).
\<close>

definition send_pdu :: "os \<Rightarrow> fd \<Rightarrow> byte list \<Rightarrow> ('m proc_scheme, bool) prog" where
  "send_pdu os fd pdu =
     bindP (syscall os (SysWrite fd pdu)) (\<lambda>n.
     seqP (assertP (n = -1 \<or> n = int (length pdu)) ''n == -1 || n == size'')
     (ret (n = int (length pdu))))"

definition send_file_info :: "os \<Rightarrow> fd \<Rightarrow> size_t \<Rightarrow> fio_stat \<Rightarrow> ('m proc_scheme, bool) prog" where
  "send_file_info os cli_fd tx info =
     send_pdu os cli_fd (file_info_bytes (prot_marshal_file_info (fs_size info)
       (fs_atime info) (fs_mtime info) (fs_ctime info) tx))"

definition send_xfer_stat :: "os \<Rightarrow> fd \<Rightarrow> size_t \<Rightarrow> ('m proc_scheme, bool) prog" where
  "send_xfer_stat os fd file_size = send_pdu os fd (xfer_stat_bytes (prot_marshal_xfer_stat file_size))"

definition send_req_err :: "os \<Rightarrow> fd \<Rightarrow> errno_t \<Rightarrow> ('m proc_scheme, bool) prog" where
  "send_req_err os fd st =
     seqP (assertP (st > 0) ''stat > 0'')
     (seqP (assertP (st \<le> 0xFF) ''stat <= 0xFF'')
     (send_pdu os fd (hdr_bytes \<lparr>hdr_cmd = SFD_FILE_INFO, hdr_stat = word_of_int st\<rparr>)))"

definition send_xfer_err :: "os \<Rightarrow> fd \<Rightarrow> errno_t \<Rightarrow> ('m proc_scheme, bool) prog" where
  "send_xfer_err os fd st =
     send_pdu os fd (hdr_bytes \<lparr>hdr_cmd = SFD_XFER_STAT, hdr_stat = word_of_int st\<rparr>)"

section \<open>What the kernel promises\<close>

text \<open>Writes of up to \<open>PIPE_BUF\<close> bytes to a non-blocking pipe are atomic (\<open>pipe(7)\<close>).\<close>

definition PIPE_BUF :: nat where "PIPE_BUF = 4096"

definition pipe_atomic :: "os \<Rightarrow> bool" where
  "pipe_atomic os \<longleftrightarrow>
     (\<forall>h fd bs. length bs \<le> PIPE_BUF \<longrightarrow> fst (sys os h (SysWrite fd bs)) \<in> {-1, int (length bs)})"

text \<open>A failed call sets \<open>errno\<close> to a positive value that fits in a byte (\<open>errno(3)\<close>; the largest
  Linux value is 133).\<close>

definition errno_range :: "os \<Rightarrow> bool" where
  "errno_range os \<longleftrightarrow> (\<forall>h c. 0 < snd (sys os h c) \<and> snd (sys os h c) \<le> 0xFF)"

section \<open>Rules\<close>

lemma wp_send_pdu:
  "wp E (send_pdu os fd pdu) Q = (\<lambda>s.
     if fst (sys os (trace s) (SysWrite fd pdu)) \<in> {-1, int (length pdu)}
     then Q (fst (sys os (trace s) (SysWrite fd pdu)) = int (length pdu)) (call_state os (SysWrite fd pdu) s)
     else E (Aborted ''n == -1 || n == size''))"
  by (auto simp: fun_eq_iff send_pdu_def wp_simps)

lemma wp_send_pdu_atomic:
  assumes "pipe_atomic os" and "length pdu \<le> PIPE_BUF"
  shows "wp E (send_pdu os fd pdu) Q = (\<lambda>s.
     Q (fst (sys os (trace s) (SysWrite fd pdu)) = int (length pdu)) (call_state os (SysWrite fd pdu) s))"
  using assms by (auto simp: fun_eq_iff wp_send_pdu pipe_atomic_def)

lemma length_pdus [simp]:
  "length (hdr_bytes h) = 2" "length (xfer_stat_bytes p) = 16" "length (file_info_bytes q) = 48"
  by (simp_all add: bytes_defs)

lemmas send_defs = send_file_info_def send_xfer_stat_def send_req_err_def send_xfer_err_def

lemma wp_send:
  assumes "pipe_atomic os"
  shows "wp E (send_file_info os fd tx info) Q = (\<lambda>s. let c = SysWrite fd (file_info_bytes
      (prot_marshal_file_info (fs_size info) (fs_atime info) (fs_mtime info) (fs_ctime info) tx))
      in Q (fst (sys os (trace s) c) = 48) (call_state os c s))"
    and "wp E (send_xfer_stat os fd n) Q = (\<lambda>s. let c = SysWrite fd (xfer_stat_bytes
      (prot_marshal_xfer_stat n)) in Q (fst (sys os (trace s) c) = 16) (call_state os c s))"
    and "wp E (send_xfer_err os fd e) Q = (\<lambda>s. let c = SysWrite fd (hdr_bytes
      \<lparr>hdr_cmd = SFD_XFER_STAT, hdr_stat = word_of_int e\<rparr>) in Q (fst (sys os (trace s) c) = 2) (call_state os c s))"
    and "wp E (send_req_err os fd e) Q = (\<lambda>s. if 0 < e \<and> e \<le> 0xFF then let c = SysWrite fd (hdr_bytes
      \<lparr>hdr_cmd = SFD_FILE_INFO, hdr_stat = word_of_int e\<rparr>) in Q (fst (sys os (trace s) c) = 2) (call_state os c s)
      else E (Aborted (if 0 < e then ''stat <= 0xFF'' else ''stat > 0'')))"
  using assms
  by (auto simp: fun_eq_iff send_defs wp_simps wp_send_pdu_atomic [OF assms] PIPE_BUF_def Let_def)

section \<open>Properties\<close>

text \<open>An error response always reaches the client as an error. For every positive \<open>errno\<close> value
  the server reports, the bytes written are a header the client's readers reject as an error, and
  the status the client reads from it is that value.\<close>

theorem error_response_reported:
  assumes "pipe_atomic os" and "0 < e" and "e \<le> 0xFF"
  shows "wp never (send_req_err os fd e) (\<lambda>r t.
      \<exists>bs. calls_since s t = [SysWrite fd bs] \<and> sfd_get_cmd bs = SFD_FILE_INFO \<and>
        uint (sfd_get_stat bs) = e \<and> sfd_unmarshal_file_info (bs @ rest) = None) s \<and>
    wp never (send_xfer_err os fd e) (\<lambda>r t.
      \<exists>bs. calls_since s t = [SysWrite fd bs] \<and> sfd_get_cmd bs = SFD_XFER_STAT \<and>
        uint (sfd_get_stat bs) = e \<and> sfd_unmarshal_xfer_stat (bs @ rest) = None) s"
proof -
  have u: "uint (word_of_int e :: byte) = e"
    using assms by (simp add: uint_word_of_int)
  then have "(word_of_int e :: byte) \<noteq> 0" using assms(2) by (metis less_irrefl unsigned_0)
  then show ?thesis
    using assms u by (auto simp: wp_send [OF assms(1)] Let_def hdr_bytes_def hdr_read_defs
        sfd_unmarshal_file_info_def sfd_unmarshal_xfer_stat_def SFD_STAT_OK_def)
qed

lemma quiet_os_ok: "pipe_atomic quiet_os" "errno_range quiet_os"
  by (auto simp: quiet_os_def pipe_atomic_def errno_range_def EAGAIN_def)

theorem error_response_reported_witness:
  "wp never (send_req_err quiet_os 7 EMFILE) (\<lambda>r t.
      \<exists>bs. calls_since proc0 t = [SysWrite 7 bs] \<and> sfd_get_cmd bs = SFD_FILE_INFO \<and>
        uint (sfd_get_stat bs) = EMFILE \<and> sfd_unmarshal_file_info (bs @ []) = None) proc0"
  using error_response_reported [OF quiet_os_ok(1), of EMFILE 7 proc0 "[]"] by (simp add: errno_defs)

end
