(* ===== verification/Sfd_Poll.thy ===== *)
theory Sfd_Poll
  imports Sfd_Responses
begin

text \<open>
  The poller on Linux: \<open>impl/syspoll.h\<close> and \<open>impl/syspoll_linux.c\<close>. Event sets are bit sets. The
  array \<open>epoll_wait\<close> fills is the component \<open>pevents\<close>; an entry past its end is undefined.
\<close>

section \<open>Events\<close>

definition SYSPOLL_ERROR :: nat where "SYSPOLL_ERROR = 1"
definition SYSPOLL_READ :: nat where "SYSPOLL_READ = 2"
definition SYSPOLL_WRITE :: nat where "SYSPOLL_WRITE = 4"
definition SYSPOLL_TERM :: nat where "SYSPOLL_TERM = 8"
definition SYSPOLL_ONESHOT :: nat where "SYSPOLL_ONESHOT = 16"

definition EPOLLIN :: nat where "EPOLLIN = 1"
definition EPOLLOUT :: nat where "EPOLLOUT = 4"
definition EPOLLERR :: nat where "EPOLLERR = 8"
definition EPOLLONESHOT :: nat where "EPOLLONESHOT = 2 ^ 30"
definition EPOLLET :: nat where "EPOLLET = 2 ^ 31"

lemmas event_defs =
  SYSPOLL_ERROR_def SYSPOLL_READ_def SYSPOLL_WRITE_def SYSPOLL_TERM_def SYSPOLL_ONESHOT_def
  EPOLLIN_def EPOLLOUT_def EPOLLERR_def EPOLLONESHOT_def EPOLLET_def

definition SIGINT :: nat where "SIGINT = 2"
definition SIGTERM :: nat where "SIGTERM = 15"
definition SIZEOF_SIGINFO :: nat where "SIZEOF_SIGINFO = 128"

text \<open>\<open>has ev b\<close> is the C test \<open>ev & b\<close>.\<close>

definition has :: "nat \<Rightarrow> nat \<Rightarrow> bool" where
  "has ev b \<longleftrightarrow> ev AND b \<noteq> 0"

record syspoll_events =
  se_events :: nat
  se_udata :: udata

section \<open>Operations\<close>

definition epoll_mask :: "nat \<Rightarrow> nat" where
  "epoll_mask events =
     (let e0 = EPOLLET;
          e1 = (if has events SYSPOLL_READ then e0 OR EPOLLIN else e0);
          e2 = (if has events SYSPOLL_WRITE then e1 OR EPOLLOUT else e1)
      in if has events SYSPOLL_ONESHOT then e2 OR EPOLLONESHOT else e2)"

definition syspoll_register ::
  "os \<Rightarrow> syspoll \<Rightarrow> int \<Rightarrow> udata \<Rightarrow> nat \<Rightarrow> ('m proc_scheme, bool) prog" where
  "syspoll_register os pl ident ud events =
     bindP (syscall os (SysEpollAdd (epollfd pl) ident (epoll_mask events) ud)) (\<lambda>r. ret (r = 0))"

text \<open>The memory for the structure and the event array, the signal mask and the two descriptors.
  The structure starts zeroed, so \<open>sigfd\<close> is 0 until it is assigned.\<close>

definition syspoll_delete :: "os \<Rightarrow> syspoll \<Rightarrow> ('m proc_scheme, unit) prog" where
  "syspoll_delete os pl = seqP (close_fd os (epollfd pl)) (close_fd os (sigfd pl))"

definition syspoll_new :: "os \<Rightarrow> int \<Rightarrow> ('m proc_scheme, syspoll option) prog" where
  "syspoll_new os maxevents =
     seqP (assertP (maxevents > 0) ''maxevents > 0'')
     (bindP (syscall os (SysMalloc 24)) (\<lambda>m.
      if m \<le> 0 then ret None
      else bindP (syscall os SysEpollCreate) (\<lambda>efd.
      let this = \<lparr>epollfd = efd, sigfd = 0, pevents = [], pnevents = maxevents\<rparr>;
          fail = (\<lambda>pl. seqP (PRESERVE_ERRNO (syspoll_delete os pl)) (ret None))
      in if efd = -1 then fail this
      else bindP (syscall os (SysMalloc (12 * nat maxevents))) (\<lambda>ev.
      if ev \<le> 0 then fail this
      else bindP (syscall os SysSigmask) (\<lambda>sm.
      if sm = -1 then fail this
      else bindP (syscall os SysSignalfd) (\<lambda>sfd.
      let this = this\<lparr>sigfd := sfd\<rparr>
      in if sfd = -1 then fail this
      else bindP (syspoll_register os this sfd USignal SYSPOLL_READ) (\<lambda>ok.
      if ok then ret (Some this) else fail this)))))))"

text \<open>
  Where \<open>timerfd_create\<close> fails the C function returns \<open>-1\<close> from a function of type \<open>bool\<close>, that is
  \<open>true\<close>. The seconds and nanoseconds are computed in \<open>unsigned\<close> arithmetic.
\<close>

definition syspoll_timer ::
  "os \<Rightarrow> syspoll \<Rightarrow> addr \<Rightarrow> 32 word \<Rightarrow> ('m rproc_scheme, bool) prog" where
  "syspoll_timer os pl p millis =
     bindP (syscall os SysTimerfdCreate) (\<lambda>fd.
     if fd = -1 then ret True
     else
       let sec = millis div 1000;
           rest = millis - sec * 1000;
           nsec = rest * 1000000;
           fail = seqP (PRESERVE_ERRNO (close_fd os fd)) (ret False)
       in bindP (syscall os (SysTimerfdSettime fd (unat sec) (unat nsec))) (\<lambda>r.
          if r = -1 then fail
          else seqP (upd_timer p (\<lambda>t. t\<lparr>tm_ident := fd\<rparr>))
               (bindP (syspoll_register os pl fd (URes p) (SYSPOLL_READ OR SYSPOLL_ONESHOT)) (\<lambda>ok.
                if ok then ret True else fail))))"

definition syspoll_deregister :: "os \<Rightarrow> syspoll \<Rightarrow> fd \<Rightarrow> ('m proc_scheme, bool) prog" where
  "syspoll_deregister os pl fd =
     bindP (syscall os (SysEpollDel (epollfd pl) fd)) (\<lambda>r. ret (r = 0))"

text \<open>\<open>epoll_wait\<close> with an infinite timeout and with none; both fill the event array.\<close>

definition syspoll_epoll :: "os \<Rightarrow> int \<Rightarrow> ('m sproc_scheme, int) prog" where
  "syspoll_epoll os timeout =
     bindP (getP srv) (\<lambda>v.
     bindP (getP trace) (\<lambda>h.
     bindP (syscall os (SysEpollWait (epollfd (poller v)) timeout)) (\<lambda>n.
     seqP (modP (\<lambda>s. s\<lparr>srv := (srv s)\<lparr>poller := (poller (srv s))\<lparr>pevents := os_events os h (epollfd (poller v))\<rparr>\<rparr>\<rparr>))
     (ret n))))"

definition syspoll_wait :: "os \<Rightarrow> ('m sproc_scheme, int) prog" where
  "syspoll_wait os = syspoll_epoll os (-1)"

definition syspoll_poll :: "os \<Rightarrow> ('m sproc_scheme, int) prog" where
  "syspoll_poll os = syspoll_epoll os 0"

text \<open>The integer at the address registered with a descriptor.\<close>

definition udata_ident :: "udata \<Rightarrow> ('m sproc_scheme, int) prog" where
  "udata_ident ud =
     (case ud of
        URequest \<Rightarrow> getP (\<lambda>s. reqfd (srv s))
      | USignal \<Rightarrow> getP (\<lambda>s. sigfd (poller (srv s)))
      | URes p \<Rightarrow> bindP (getP heap) (\<lambda>h.
          case h p of None \<Rightarrow> undefP ''event for freed memory'' | Some r \<Rightarrow> ret (resrc_ident r)))"

definition recvd_term_signal :: "os \<Rightarrow> ('m sproc_scheme, bool) prog" where
  "recvd_term_signal os =
     bindP (getP (\<lambda>s. sigfd (poller (srv s)))) (\<lambda>fd.
     bindP (getP trace) (\<lambda>h.
     bindP (syscall os (SysRead fd SIZEOF_SIGINFO)) (\<lambda>n.
     ret (n = int SIZEOF_SIGINFO \<and> (os_signo os h = SIGTERM \<or> os_signo os h = SIGINT)))))"

definition syspoll_get :: "os \<Rightarrow> nat \<Rightarrow> ('m sproc_scheme, syspoll_events) prog" where
  "syspoll_get os eventnum =
     bindP (getP (\<lambda>s. poller (srv s))) (\<lambda>pl.
     if eventnum \<ge> length (pevents pl) then undefP ''event index''
     else
       let e = pevents pl ! eventnum; ud = ee_data e;
           w = (if has (ee_events e) EPOLLOUT then SYSPOLL_WRITE else 0)
       in if has (ee_events e) EPOLLERR then ret \<lparr>se_events = SYSPOLL_ERROR, se_udata = ud\<rparr>
          else if has (ee_events e) EPOLLIN then
            bindP (udata_ident ud) (\<lambda>i.
            if i = sigfd pl then
              bindP (recvd_term_signal os) (\<lambda>term.
              ret \<lparr>se_events = (if term then SYSPOLL_TERM else SYSPOLL_ERROR), se_udata = ud\<rparr>)
            else ret \<lparr>se_events = w OR SYSPOLL_READ, se_udata = ud\<rparr>)
          else ret \<lparr>se_events = w, se_udata = ud\<rparr>)"

section \<open>Rules\<close>

lemma wp_syspoll_register [wp_simps]:
  "wp E (syspoll_register os pl i ud ev) Q = (\<lambda>s.
     let c = SysEpollAdd (epollfd pl) i (epoll_mask ev) ud
     in Q (fst (sys os (trace s) c) = 0) (call_state os c s))"
  by (simp add: syspoll_register_def wp_simps Let_def)

lemma wp_syspoll_deregister [wp_simps]:
  "wp E (syspoll_deregister os pl i) Q = (\<lambda>s.
     let c = SysEpollDel (epollfd pl) i
     in Q (fst (sys os (trace s) c) = 0) (call_state os c s))"
  by (simp add: syspoll_deregister_def wp_simps Let_def)

text \<open>The split of a number of milliseconds in \<open>unsigned\<close> arithmetic.\<close>

lemma timer_split:
  fixes ms :: "32 word"
  defines "nsec \<equiv> (ms - ms div 1000 * 1000) * 1000000"
  shows "unat nsec < 10 ^ 9" "unat (ms div 1000) * 10 ^ 9 + unat nsec = unat ms * 10 ^ 6"
proof -
  have m: "ms - ms div 1000 * 1000 = ms mod 1000" by (simp add: minus_div_mult_eq_mod)
  have "unat (ms mod 1000) = unat ms mod 1000" by (simp add: unat_mod_distrib)
  then have n: "unat nsec = unat ms mod 1000 * 1000000"
    by (simp add: nsec_def m unat_word_ariths)
  then show "unat nsec < 10 ^ 9" by simp
  have "unat (ms div 1000) = unat ms div 1000" by (simp add: unat_div_distrib)
  moreover have "q * 10 ^ 9 + r * 1000000 = a * 10 ^ 6" if "q * 1000 + r = a" for q r a :: nat
    using that by (auto simp: algebra_simps)
  ultimately show "unat (ms div 1000) * 10 ^ 9 + unat nsec = unat ms * 10 ^ 6"
    unfolding n by (simp only: div_mult_mod_eq)
qed

section \<open>Properties\<close>

text \<open>The timer of an open file is set to exactly the time asked for. Whatever number of milliseconds
  is given, the seconds and nanoseconds passed to the kernel add up to it, the nanoseconds are in
  the range the kernel accepts, and the arithmetic does not wrap around.\<close>

theorem timer_exact:
  assumes "heap s p = Some (RTimer tm)"
  shows "wp never (syspoll_timer os pl p millis) (\<lambda>ok t. \<forall>fd sec nsec. SysTimerfdSettime fd sec nsec \<in> set (calls_since s t) \<longrightarrow>
     nsec < 10 ^ 9 \<and> sec * 10 ^ 9 + nsec = unat millis * 10 ^ 6) s"
  using assms timer_split [of millis]
  by (auto simp: syspoll_timer_def wp_simps Let_def)

theorem timer_exact_witness:
  "wp never (syspoll_timer quiet_os \<lparr>epollfd = 8, sigfd = 9, pevents = [], pnevents = 4\<rparr> 16 1500) (\<lambda>ok t. \<forall>fd sec nsec.
     SysTimerfdSettime fd sec nsec \<in> set (map fst (trace t)) \<longrightarrow> sec * 10 ^ 9 + nsec = 1500 * 10 ^ 6)
     \<lparr>errno = 0, trace = [], pipe_c = 0, heap = [16 \<mapsto> RTimer \<lparr>tm_ident = 5, tm_tag = TIMER_RESRC_TAG, tm_txnid = 1, tm_xfer_addr = 32\<rparr>]\<rparr>"
  by (rule wp_mono [OF timer_exact]) (auto simp: calls_since_def)

end
