(* ===== verification/Sfd_Sockets.thy ===== *)
theory Sfd_Sockets
  imports Sfd_Responses
begin

text \<open>
  The request socket: the socket path of \<open>impl/unix_sockets.c\<close>, the socket functions of
  \<open>impl/unix_sockets_linux.c\<close>, binding and receiving on the server side
  (\<open>impl/unix_socket_server.c\<close>, \<open>impl/unix_socket_server_linux.c\<close>) and connecting on the client side
  (\<open>impl/unix_socket_client.c\<close>). The array of received descriptors has \<open>PROT_MAXFDS\<close> entries and
  keeps its contents between calls, as the caller's local array does.
\<close>

section \<open>The socket path (unix\_sockets.c)\<close>

definition cbytes :: "string \<Rightarrow> byte list" where
  "cbytes str = map of_char str"

definition SFD_PREFIX :: "byte list" where "SFD_PREFIX = cbytes ''sendfiled.''"
definition SOCKEXT :: "byte list" where "SOCKEXT = cbytes ''.socket''"

text \<open>\<open>sizeof(sun_path)\<close> on Linux.\<close>

definition SUN_PATH_MAX :: nat where "SUN_PATH_MAX = 108"

text \<open>The path with its NUL, or the \<open>errno\<close> of the failure; \<open>malloc_ok\<close> says whether \<open>malloc\<close>
  succeeded. The lengths are sizes in bytes, well below the range of \<open>size_t\<close>.\<close>

definition us_make_sockpath :: "bool \<Rightarrow> byte list \<Rightarrow> byte list \<Rightarrow> errno_t + byte list" where
  "us_make_sockpath mok dir srvname =
     (let nonname_len = length (SFD_PREFIX @ SOCKEXT);
          pathlen_max = SUN_PATH_MAX - nonname_len;
          dirlen = strnlen dir pathlen_max
      in if dirlen = pathlen_max then Inl ENAMETOOLONG
         else
           let pathlen_max = pathlen_max - dirlen;
               dir_needs_slash = (dirlen > 0 \<and> dir ! (dirlen - 1) \<noteq> 47);
               namelen = strnlen srvname pathlen_max
           in if namelen = pathlen_max then Inl ENAMETOOLONG
              else if \<not> mok then Inl ENOMEM
              else Inr (take dirlen dir @ (if dir_needs_slash then [47] else []) @ SFD_PREFIX @
                        take namelen srvname @ SOCKEXT @ [0]))"

section \<open>Sockets (unix\_sockets\_linux.c)\<close>

definition CMSG_ALIGN :: "nat \<Rightarrow> nat" where
  "CMSG_ALIGN n = (n + 7) div 8 * 8"

definition us_cmsg_space :: "nat \<Rightarrow> nat" where
  "us_cmsg_space s = CMSG_ALIGN s + 16"

definition us_cmsg_len :: "nat \<Rightarrow> nat" where
  "us_cmsg_len s = 16 + s"

definition us_socket :: "os \<Rightarrow> ('m proc_scheme, fd) prog" where
  "us_socket os = syscall os SysSocket"

section \<open>Serving (unix\_socket\_server.c)\<close>

definition US_INVALID_PID :: pid_t where "US_INVALID_PID = 0"

definition SO_PASSCRED :: nat where "SO_PASSCRED = 16"

definition us_set_passcred_option :: "os \<Rightarrow> fd \<Rightarrow> ('m proc_scheme, bool) prog" where
  "us_set_passcred_option os fd = bindP (syscall os (SysSetsockopt fd SO_PASSCRED)) (\<lambda>r. ret (r = 0))"

text \<open>Copying the path with its NUL into \<open>sun_path\<close>.\<close>

definition copy_sun_path :: "byte list \<Rightarrow> ('s, unit) prog" where
  "copy_sun_path path = (if length path \<le> SUN_PATH_MAX then ret () else undefP ''sun_path overflow'')"

text \<open>\<open>S_IRUSR | S_IWUSR | S_IXUSR\<close>.\<close>

definition S_IRWXU :: nat where "S_IRWXU = 448"

definition us_serve ::
  "os \<Rightarrow> bool \<Rightarrow> byte list \<Rightarrow> byte list \<Rightarrow> uid_t \<Rightarrow> nat \<Rightarrow> ('m proc_scheme, fd) prog" where
  "us_serve os mok sockdir srvname socket_uid socket_gid =
     bindP (us_socket os) (\<lambda>fd.
     if fd = -1 then ret (-1)
     else
       let fail = seqP (PRESERVE_ERRNO (close_fd os fd)) (ret (-1))
       in bindP (us_set_passcred_option os fd) (\<lambda>pc.
       if \<not> pc then fail
       else case us_make_sockpath mok sockdir srvname of
         Inl e \<Rightarrow> seqP (set_errno e) fail
       | Inr path \<Rightarrow>
           seqP (copy_sun_path path)
           (bindP (syscall os (SysBind fd path)) (\<lambda>b.
            if b = -1 then fail
            else bindP (syscall os (SysChown path socket_uid socket_gid)) (\<lambda>co.
            if co = -1 then fail
            else bindP (syscall os (SysChmod path S_IRWXU)) (\<lambda>cm.
            if cm = -1 then fail else ret fd))))))"

definition us_stop_serving :: "os \<Rightarrow> bool \<Rightarrow> byte list \<Rightarrow> byte list \<Rightarrow> fd \<Rightarrow> ('m proc_scheme, unit) prog" where
  "us_stop_serving os mok sockdir srv_name listenfd =
     seqP (close_fd os listenfd)
     (case us_make_sockpath mok sockdir srv_name of
        Inl e \<Rightarrow> set_errno e
      | Inr path \<Rightarrow> seqP (syscall os (SysUnlink path)) (ret ()))"

section \<open>Receiving (unix\_socket\_server.c, unix\_socket\_server\_linux.c)\<close>

text \<open>\<open>fds\<close> is the caller's array, \<open>n\<close> the value of \<open>*nfds\<close>.\<close>

record cmsg_state =
  cs_fds :: "fd list"
  cs_nfds :: nat
  cs_got_fds :: bool
  cs_creds :: "ucred option"

primrec cmsg_loop :: "cmsg list \<Rightarrow> cmsg_state \<Rightarrow> ('s, cmsg_state) prog" where
  "cmsg_loop [] st = ret st"
| "cmsg_loop (c # cs) st =
     (case c of
        SCM_RIGHTS l \<Rightarrow>
          seqP (assertP (l \<noteq> []) ''cmsg_len >= CMSG_LEN(sizeof(int))'')
          (if length l > length (cs_fds st) then undefP ''descriptor array overflow''
           else let zeroed = replicate (cs_nfds st) 0 @ drop (cs_nfds st) (cs_fds st)
                in cmsg_loop cs (st\<lparr>cs_got_fds := True, cs_fds := l @ drop (length l) zeroed,
                                  cs_nfds := length l\<rparr>))
      | SCM_CREDENTIALS u \<Rightarrow> cmsg_loop cs (st\<lparr>cs_creds := Some u\<rparr>)
      | SCM_OTHER \<Rightarrow> cmsg_loop cs st)"

definition us_get_fds_and_creds :: "cmsg list \<Rightarrow> fd list \<Rightarrow> nat \<Rightarrow> ('s, cmsg_state) prog" where
  "us_get_fds_and_creds cmsgs fds n =
     bindP (cmsg_loop cmsgs \<lparr>cs_fds = fds, cs_nfds = n, cs_got_fds = False, cs_creds = None\<rparr>) (\<lambda>st.
     ret (if \<not> cs_got_fds st then st\<lparr>cs_nfds := 0\<rparr> else st))"

definition MSG_CTRUNC :: nat where "MSG_CTRUNC = 0x8"
definition MSG_TRUNC :: nat where "MSG_TRUNC = 0x20"

record received =
  rc_buf :: "byte list"
  rc_fds :: "fd list"
  rc_nfds :: nat
  rc_uid :: uid_t
  rc_gid :: nat
  rc_pid :: pid_t

text \<open>The result is the return value and the caller's variables afterwards.\<close>

definition us_recv :: "os \<Rightarrow> fd \<Rightarrow> received \<Rightarrow> ('m proc_scheme, int \<times> received) prog" where
  "us_recv os srv_fd rc =
     seqP (assertP (rc_nfds rc > 0) ''recvd_fds && nfds && *nfds > 0'')
     (bindP (getP trace) (\<lambda>h.
      bindP (syscall os (SysRecvmsg srv_fd (length (rc_buf rc)))) (\<lambda>nrecvd.
      if nrecvd = -1 then ret (-1, rc)
      else
        let m = os_message os h srv_fd;
            data = take (length (rc_buf rc)) (msg_data m);
            rc1 = rc\<lparr>rc_buf := data @ drop (length data) (rc_buf rc)\<rparr>
        in if msg_flags m = MSG_TRUNC \<or> msg_flags m = MSG_CTRUNC then
             seqP (set_errno ERANGE) (ret (-1, rc1))
           else bindP (us_get_fds_and_creds (msg_cmsgs m) (rc_fds rc1) (rc_nfds rc1)) (\<lambda>st.
             let rc2 = rc1\<lparr>rc_fds := cs_fds st, rc_nfds := cs_nfds st\<rparr>
             in case cs_creds st of
                  None \<Rightarrow> seqP (set_errno EBADF) (ret (-1, rc2))
                | Some u \<Rightarrow>
                    seqP (whenP (cs_nfds st > 0)
                      (seqP (set_nonblock os (cs_fds st ! 0) True)
                       (whenP (cs_nfds st = 2) (seqP (set_nonblock os (cs_fds st ! 1) True) (ret ())))))
                    (ret (nrecvd, rc2\<lparr>rc_uid := uc_uid u, rc_gid := uc_gid u, rc_pid := uc_pid u\<rparr>))))))"

section \<open>Connecting (unix\_socket\_client.c)\<close>

definition us_connect :: "os \<Rightarrow> bool \<Rightarrow> byte list \<Rightarrow> byte list \<Rightarrow> ('m proc_scheme, fd) prog" where
  "us_connect os mok sockdir srvname =
     bindP (us_socket os) (\<lambda>fd.
     if fd = -1 then ret (-1)
     else
       let fail = seqP (PRESERVE_ERRNO (close_fd os fd)) (ret (-1))
       in case us_make_sockpath mok sockdir srvname of
            Inl e \<Rightarrow> seqP (set_errno e) fail
          | Inr path \<Rightarrow>
              seqP (copy_sun_path path)
              (bindP (syscall os (SysConnect fd path)) (\<lambda>r. if r = -1 then fail else ret fd)))"

section \<open>Rules\<close>

text \<open>The control buffer passed to \<open>recvmsg\<close> has room for \<open>PROT_MAXFDS\<close> descriptors and one set of
  credentials, and the kernel truncates what does not fit.\<close>

definition cmsgs_fit :: "os \<Rightarrow> bool" where
  "cmsgs_fit os \<longleftrightarrow> (\<forall>h fd l. SCM_RIGHTS l \<in> set (msg_cmsgs (os_message os h fd)) \<longrightarrow> length l \<le> PROT_MAXFDS)"

text \<open>The state of the walk over the ancillary messages \<open>cs\<close>: the array keeps its size, the count stays
  within it and the credentials are those of a message.\<close>

definition cmsg_ok :: "cmsg list \<Rightarrow> cmsg_state \<Rightarrow> bool" where
  "cmsg_ok cs st \<longleftrightarrow> length (cs_fds st) = PROT_MAXFDS \<and> cs_nfds st \<le> PROT_MAXFDS \<and>
     (\<forall>u. cs_creds st = Some u \<longrightarrow> SCM_CREDENTIALS u \<in> set cs) \<and>
     (cs_got_fds st \<longrightarrow> SCM_RIGHTS (take (cs_nfds st) (cs_fds st)) \<in> set cs)"

lemma cmsg_loop_ok:
  assumes "cmsg_ok all st" and "set cs \<subseteq> set all" and "\<forall>l. SCM_RIGHTS l \<in> set cs \<longrightarrow> length l \<le> PROT_MAXFDS"
  shows "wp defined (cmsg_loop cs st) (\<lambda>st' t. cmsg_ok all st' \<and> t = s) s"
  using assms
proof (induction cs arbitrary: st)
  case Nil
  then show ?case by (simp add: wp_simps)
next
  case (Cons c cs)
  show ?case
  proof (cases c)
    case (SCM_RIGHTS l)
    let ?st = "st\<lparr>cs_got_fds := True, cs_fds := l @ drop (length l) (replicate (cs_nfds st) 0 @ drop (cs_nfds st) (cs_fds st)), cs_nfds := length l\<rparr>"
    have "cmsg_ok all ?st" using Cons.prems SCM_RIGHTS by (auto simp: cmsg_ok_def)
    with Cons SCM_RIGHTS show ?thesis by (auto simp: wp_simps Let_def cmsg_ok_def)
  next
    case (SCM_CREDENTIALS u)
    with Cons.prems have "cmsg_ok all (st\<lparr>cs_creds := Some u\<rparr>)" by (auto simp: cmsg_ok_def)
    with Cons SCM_CREDENTIALS show ?thesis by simp
  qed (use Cons in simp)
qed

lemma wp_us_get_fds_and_creds:
  assumes "length fds = PROT_MAXFDS" and "n \<le> PROT_MAXFDS" and "\<forall>l. SCM_RIGHTS l \<in> set cs \<longrightarrow> length l \<le> PROT_MAXFDS"
    and "\<And>st. cmsg_ok cs st \<Longrightarrow> (\<not> cs_got_fds st \<Longrightarrow> cs_nfds st = 0) \<Longrightarrow> Q st s"
  shows "wp defined (us_get_fds_and_creds cs fds n) Q s"
proof -
  have "cmsg_ok cs \<lparr>cs_fds = fds, cs_nfds = n, cs_got_fds = False, cs_creds = None\<rparr>"
    using assms(1,2) by (simp add: cmsg_ok_def)
  from cmsg_loop_ok [OF this subset_refl assms(3)] show ?thesis
    unfolding us_get_fds_and_creds_def wp_bindP
    by (rule wp_mono) (auto simp: wp_simps cmsg_ok_def intro!: assms(4))
qed

text \<open>Only the history and \<open>errno\<close> have changed.\<close>

definition calls_only :: "'m proc_scheme \<Rightarrow> 'm proc_scheme \<Rightarrow> bool" where
  "calls_only s t \<longleftrightarrow> (\<exists>h e. t = s\<lparr>trace := h, errno := e\<rparr>)"

lemma calls_only_refl [simp]: "calls_only s s"
  by (cases s) (simp add: calls_only_def)

lemma calls_only_step [simp]:
  "calls_only s t \<Longrightarrow> calls_only s (call_state os c t)" "calls_only s t \<Longrightarrow> calls_only s (t\<lparr>errno := e\<rparr>)"
  by (cases s; auto simp: calls_only_def call_state_def)+

lemma calls_only_trans: "calls_only s t \<Longrightarrow> calls_only t u \<Longrightarrow> calls_only s u"
  by (cases s) (auto simp: calls_only_def)

lemma calls_only_kept:
  fixes s :: "'m sproc_scheme"
  assumes "calls_only s t"
  shows "heap t = heap s" "srv t = srv s" "pipe_c t = pipe_c s"
  using assms by (auto simp: calls_only_def)

lemma set_nonblock_frame:
  assumes "\<And>b t. calls_only s t \<Longrightarrow> Q b t"
  shows "wp E (set_nonblock os fd b) Q s"
  by (auto simp: set_nonblock_def wp_simps intro!: assms)

text \<open>What a successful call hands over, as a relation between the message and the variables.\<close>

definition delivered :: "message \<Rightarrow> received \<Rightarrow> received \<Rightarrow> bool" where
  "delivered m rc rc' \<longleftrightarrow>
     rc_buf rc' = take (length (rc_buf rc)) (msg_data m) @ drop (length (msg_data m)) (rc_buf rc) \<and>
     (\<exists>u. SCM_CREDENTIALS u \<in> set (msg_cmsgs m) \<and> rc_uid rc' = uc_uid u \<and> rc_gid rc' = uc_gid u \<and> rc_pid rc' = uc_pid u) \<and>
     (rc_nfds rc' = 0 \<or> SCM_RIGHTS (take (rc_nfds rc') (rc_fds rc')) \<in> set (msg_cmsgs m))"

definition bounded :: "received \<Rightarrow> received \<Rightarrow> bool" where
  "bounded rc rc' \<longleftrightarrow> length (rc_buf rc') = length (rc_buf rc) \<and> length (rc_fds rc') = PROT_MAXFDS \<and> rc_nfds rc' \<le> PROT_MAXFDS"

lemma recv_end:
  assumes "\<And>t. calls_only s t \<Longrightarrow> Q (n, rc) t"
  shows "wp E (seqP (whenP b (seqP (set_nonblock os f True) (whenP c (seqP (set_nonblock os g True) (ret ()))))) (ret (n, rc))) Q s"
proof -
  have "Q (n, rc) u" if "calls_only s t" "calls_only t u" for t u
    using assms calls_only_trans that by blast
  then show ?thesis by (auto simp: wp_simps intro!: set_nonblock_frame intro: assms)
qed

lemma recv_rest:
  assumes "calls_only s t" and "cmsg_ok (msg_cmsgs m) st" and "\<not> cs_got_fds st \<longrightarrow> cs_nfds st = 0"
    and "rc_buf rc1 = take (length (rc_buf rc)) (msg_data m) @ drop (length (msg_data m)) (rc_buf rc)"
  shows "wp defined (case cs_creds st of
        None \<Rightarrow> seqP (set_errno EBADF) (ret (-1, rc1\<lparr>rc_fds := cs_fds st, rc_nfds := cs_nfds st\<rparr>))
      | Some u \<Rightarrow> seqP (whenP (cs_nfds st > 0) (seqP (set_nonblock os (cs_fds st ! 0) True)
            (whenP (cs_nfds st = 2) (seqP (set_nonblock os (cs_fds st ! 1) True) (ret ())))))
          (ret (n, rc1\<lparr>rc_fds := cs_fds st, rc_nfds := cs_nfds st, rc_uid := uc_uid u, rc_gid := uc_gid u, rc_pid := uc_pid u\<rparr>)))
      (\<lambda>(n, rc') t. calls_only s t \<and> bounded rc rc' \<and> (n \<noteq> -1 \<longrightarrow> delivered m rc rc')) t"
proof (cases "cs_creds st")
  case None
  with assms show ?thesis by (simp add: wp_simps bounded_def cmsg_ok_def)
next
  case (Some u)
  let ?rc = "rc1\<lparr>rc_fds := cs_fds st, rc_nfds := cs_nfds st, rc_uid := uc_uid u, rc_gid := uc_gid u, rc_pid := uc_pid u\<rparr>"
  have "bounded rc ?rc" using assms(2,4) by (simp add: bounded_def cmsg_ok_def)
  moreover have "delivered m rc ?rc" using assms(2-4) Some by (auto simp: delivered_def cmsg_ok_def)
  ultimately show ?thesis
    unfolding Some option.case by (intro recv_end) (auto intro: calls_only_trans [OF assms(1)])
qed

lemma us_recv_post:
  assumes "cmsgs_fit os" and "length (rc_fds rc) = PROT_MAXFDS" and "0 < rc_nfds rc" and "rc_nfds rc \<le> PROT_MAXFDS"
  shows "wp defined (us_recv os fd rc) (\<lambda>(n, rc') t. calls_only s t \<and> bounded rc rc' \<and>
      (n \<noteq> -1 \<longrightarrow> delivered (os_message os (trace s) fd) rc rc')) s"
proof -
  let ?m = "os_message os (trace s) fd"
  let ?rc = "rc\<lparr>rc_buf := take (length (rc_buf rc)) (msg_data ?m) @ drop (length (take (length (rc_buf rc)) (msg_data ?m))) (rc_buf rc)\<rparr>"
  have fit: "\<forall>l. SCM_RIGHTS l \<in> set (msg_cmsgs ?m) \<longrightarrow> length l \<le> PROT_MAXFDS"
    using assms(1) by (simp add: cmsgs_fit_def)
  have "bounded rc rc" "bounded rc ?rc" using assms(2-4) by (simp_all add: bounded_def)
  then show ?thesis
    unfolding us_recv_def using assms(2-4)
    by (auto simp: wp_seqP wp_assertP wp_bindP wp_getP wp_syscall wp_if Let_def wp_ret wp_set_errno min_def
        intro!: wp_us_get_fds_and_creds [OF _ _ fit] recv_rest)
qed

lemmas sockpath_consts = SFD_PREFIX_def SOCKEXT_def cbytes_def SUN_PATH_MAX_def

lemma sockpath_parts:
  "us_make_sockpath mok dir srvname =
     (if SUN_PATH_MAX \<le> strlen dir + strlen srvname + length (SFD_PREFIX @ SOCKEXT) then Inl ENAMETOOLONG
      else if \<not> mok then Inl ENOMEM
      else Inr (cstr dir @ (if cstr dir = [] \<or> last (cstr dir) = 47 then [] else [47]) @ SFD_PREFIX @ cstr srvname @ SOCKEXT @ [0]))"
proof -
  have tk: "take (strlen bs) bs = cstr bs" for bs
    unfolding strlen_def cstr_def by (rule takeWhile_eq_take [symmetric])
  have "last (cstr dir) = dir ! (strlen dir - Suc 0)" if "cstr dir \<noteq> []"
    using that tk [of dir] by (metis One_nat_def diff_less last_conv_nth length_greater_0_conv less_one nth_take strlen_def)
  moreover have "strlen dir > 0 \<longleftrightarrow> cstr dir \<noteq> []" by (simp add: strlen_def)
  ultimately show ?thesis
    by (auto simp: us_make_sockpath_def Let_def strnlen_strlen sockpath_consts
        min_def tk)
qed

section \<open>Properties\<close>

text \<open>C20: What \<open>us_recv\<close> hands to the server is what the kernel delivered, and nothing is written out of
  bounds: whatever the datagram holds, the buffer and the descriptor array keep their sizes and the
  descriptor count stays within the array. A datagram is accepted only with credentials attached by
  the kernel, and the user, group and process ids are theirs; the descriptors are those of an
  ancillary message, and the data is a prefix of the datagram.\<close>

theorem us_recv_authentic:
  assumes "cmsgs_fit os" and "length (rc_fds rc) = PROT_MAXFDS" and "0 < rc_nfds rc" and "rc_nfds rc \<le> PROT_MAXFDS"
  shows "wp defined (us_recv os fd rc) (\<lambda>(n, rc') t. bounded rc rc' \<and>
      (n \<noteq> -1 \<longrightarrow> delivered (os_message os (trace s) fd) rc rc')) s"
  by (rule wp_mono [OF us_recv_post [OF assms]]) auto

definition mail_os :: os where
  "mail_os = quiet_os\<lparr>os_message := (\<lambda>h fd. \<lparr>msg_data = [1, 2, 3],
     msg_cmsgs = [SCM_RIGHTS [7, 8], SCM_CREDENTIALS \<lparr>uc_pid = 42, uc_uid = 1000, uc_gid = 100\<rparr>], msg_flags = 0\<rparr>),
     sys := (\<lambda>h c. (case c of SysRecvmsg fd n \<Rightarrow> 3 | _ \<Rightarrow> 0, EAGAIN))\<rparr>"

theorem us_recv_authentic_witness:
  "wp defined (us_recv mail_os 3 \<lparr>rc_buf = [0, 0, 0, 0, 0], rc_fds = [-1, -1], rc_nfds = 2, rc_uid = 0, rc_gid = 0, rc_pid = 0\<rparr>)
     (\<lambda>(n, rc) t. n \<noteq> -1 \<longrightarrow> rc_buf rc = [1, 2, 3, 0, 0] \<and> rc_uid rc = 1000 \<and> rc_pid rc = 42) proc0"
  by (rule wp_mono [OF us_recv_authentic])
    (auto simp: mail_os_def cmsgs_fit_def quiet_os_def PROT_MAXFDS_def delivered_def)

text \<open>The socket path is the directory, a slash where it needs one, the prefix, the server's name
  and the extension; the client and the server compute it with the same function. The directory or
  the name are refused with \<open>ENAMETOOLONG\<close> exactly when together they have more than 90 characters,
  and never cut short.\<close>

theorem sockpath_exact:
  "us_make_sockpath mok dir srvname =
     (if SUN_PATH_MAX \<le> strlen dir + strlen srvname + length (SFD_PREFIX @ SOCKEXT) then Inl ENAMETOOLONG
      else if \<not> mok then Inl ENOMEM
      else Inr (cstr dir @ (if cstr dir = [] \<or> last (cstr dir) = 47 then [] else [47]) @ SFD_PREFIX @ cstr srvname @ SOCKEXT @ [0]))"
  by (rule sockpath_parts)

text \<open>The slash is not counted. Where the directory does not end in a slash and directory and name
  have 90 characters together, the path and its NUL have 109 bytes and are copied into the 108 bytes
  of \<open>sun_path\<close>: both \<open>us_connect\<close> and \<open>us_serve\<close> write past the end.\<close>

theorem sockpath_overflow:
  assumes "strlen dir + strlen srvname = 90" and "cstr dir \<noteq> []" and "last (cstr dir) \<noteq> 47"
    and "\<forall>h. fst (sys os h SysSocket) \<noteq> -1" and "\<forall>h fd. fst (sys os h (SysSetsockopt fd SO_PASSCRED)) = 0"
  shows "us_connect os True dir srvname s = Fail (Undefined ''sun_path overflow'') \<and>
    us_serve os True dir srvname uid gid s = Fail (Undefined ''sun_path overflow'')"
proof -
  obtain path where "us_make_sockpath True dir srvname = Inr path" "length path = 109"
    using assms(1-3) by (auto simp: sockpath_parts strlen_def sockpath_consts)
  then have "wp (\<lambda>e. e = Undefined ''sun_path overflow'') (us_connect os True dir srvname) (\<lambda>_ _. False) s"
    "wp (\<lambda>e. e = Undefined ''sun_path overflow'') (us_serve os True dir srvname uid gid) (\<lambda>_ _. False) s"
    using assms(4,5)
    by (simp_all add: us_connect_def us_serve_def us_socket_def us_set_passcred_option_def copy_sun_path_def
        SUN_PATH_MAX_def wp_simps Let_def)
  then show ?thesis by (auto simp: wp_def split: outcome.splits)
qed

theorem sockpath_overflow_witness:
  "us_connect quiet_os True (replicate 40 97) (replicate 50 98) proc0 = Fail (Undefined ''sun_path overflow'')"
  by (rule conjunct1 [OF sockpath_overflow [where uid = 0 and gid = 0]])
    (simp_all add: strlen_def cstr_def last_replicate quiet_os_def)

end
