(* ===== verification/Sfd_Server.thy ===== *)
theory Sfd_Server
  imports Sfd_Poll Sfd_Sockets
begin

text \<open>
  The server: \<open>impl/server.c\<close>. Every function of the file is a definition, in the order of what it
  calls. A null pointer result is the address 0 or \<open>None\<close>; \<open>const\<close> parameters that never change
  (the server structure) are the state component \<open>srv\<close>. Logging is left out. Loops that the kernel
  drives have fuel: \<open>XFER_FUEL\<close> bounds the rounds of one \<open>transfer_file\<close> (each round moves at least
  a byte towards the 64-bit capacity), the loops of \<open>handle_reqfd\<close> and \<open>srv_run\<close> take theirs as an
  argument, because a client can keep the request queue full for ever.
\<close>

section \<open>Access to the server structure\<close>

definition mod_srv :: "(server \<Rightarrow> server) \<Rightarrow> ('m sproc_scheme, unit) prog" where
  "mod_srv f = modP (\<lambda>s. s\<lparr>srv := f (srv s)\<rparr>)"

definition errno_is_fatal :: "errno_t \<Rightarrow> bool" where
  "errno_is_fatal err \<longleftrightarrow>
     \<not> (err = EWOULDBLOCK \<or> err = EAGAIN \<or> err = ENFILE \<or> err = ENOBUFS \<or> err = ENOLCK \<or> err = ENOSPC)"

definition find_xfer :: "size_t \<Rightarrow> ('m sproc_scheme, addr) prog" where
  "find_xfer tx =
     bindP (getP (\<lambda>s. xfers (srv s))) (\<lambda>t.
     bindP (liftP ''table'' (xfer_table_find t tx)) (\<lambda>r.
     ret (case r of None \<Rightarrow> 0 | Some p \<Rightarrow> p)))"

definition insert_xfer :: "addr \<Rightarrow> ('m sproc_scheme, bool) prog" where
  "insert_xfer p =
     bindP (getP heap) (\<lambda>h.
     bindP (getP (\<lambda>s. xfers (srv s))) (\<lambda>t.
     bindP (liftP ''table'' (xfer_table_insert (resrc_xfer_txnid h) t p)) (\<lambda>(b, t').
     seqP (mod_srv (\<lambda>v. v\<lparr>xfers := t'\<rparr>)) (ret b))))"

definition erase_xfer :: "size_t \<Rightarrow> ('m sproc_scheme, unit) prog" where
  "erase_xfer tx =
     bindP (getP (\<lambda>s. xfers (srv s))) (\<lambda>t.
     bindP (liftP ''table'' (xfer_table_erase t tx)) (\<lambda>t'.
     mod_srv (\<lambda>v. v\<lparr>xfers := t'\<rparr>)))"

definition insert_timer :: "addr \<Rightarrow> ('m sproc_scheme, bool) prog" where
  "insert_timer p =
     bindP (getP heap) (\<lambda>h.
     bindP (getP (\<lambda>s. xfer_timers (srv s))) (\<lambda>t.
     bindP (liftP ''table'' (xfer_table_insert (resrc_timer_txnid h) t p)) (\<lambda>(b, t').
     seqP (mod_srv (\<lambda>v. v\<lparr>xfer_timers := t'\<rparr>)) (ret b))))"

definition erase_timer :: "size_t \<Rightarrow> ('m sproc_scheme, unit) prog" where
  "erase_timer tx =
     bindP (getP (\<lambda>s. xfer_timers (srv s))) (\<lambda>t.
     bindP (liftP ''table'' (xfer_table_erase t tx)) (\<lambda>t'.
     mod_srv (\<lambda>v. v\<lparr>xfer_timers := t'\<rparr>)))"

section \<open>Deferred transfers\<close>

definition push_deferred :: "addr \<Rightarrow> ('m sproc_scheme, unit) prog" where
  "push_deferred p =
     bindP (getP srv) (\<lambda>v.
     if ndeferred_xfers v \<ge> length (deferred_xfers v) then undefP ''deferred array overflow''
     else mod_srv (\<lambda>v. v\<lparr>deferred_xfers := (deferred_xfers v)[ndeferred_xfers v := p],
                         ndeferred_xfers := Suc (ndeferred_xfers v)\<rparr>))"

definition defer_xfer :: "addr \<Rightarrow> deferral \<Rightarrow> ('m sproc_scheme, unit) prog" where
  "defer_xfer p how =
     bindP (get_xfer p) (\<lambda>x.
     bindP (getP srv) (\<lambda>v.
     case how of
       CANCEL \<Rightarrow>
         seqP (assertP (xdefer x = READY \<or> ndeferred_xfers v < unat (tsize (xfers v)))
               ''xfer->defer == READY || srv->ndeferred_xfers < srv->xfers->size'')
         (seqP (whenP (xdefer x = NONE) (push_deferred p))
         (upd_xfer p (\<lambda>x. x\<lparr>xdefer := CANCEL\<rparr>)))
     | READY \<Rightarrow>
         seqP (assertP (xdefer x \<noteq> CANCEL) ''xfer->defer != CANCEL'')
         (seqP (assertP (ndeferred_xfers v < unat (tsize (xfers v)))
                ''srv->ndeferred_xfers < srv->xfers->size'')
         (seqP (push_deferred p)
         (upd_xfer p (\<lambda>x. x\<lparr>xdefer := READY\<rparr>))))
     | NONE \<Rightarrow> assertP False ''false''))"

definition undefer_xfer :: "nat \<Rightarrow> ('m sproc_scheme, nat) prog" where
  "undefer_xfer i =
     bindP (getP srv) (\<lambda>v.
     if i \<ge> length (deferred_xfers v) \<or> ndeferred_xfers v = 0 \<or>
        ndeferred_xfers v > length (deferred_xfers v) then undefP ''deferred array index''
     else
       seqP (upd_xfer (deferred_xfers v ! i) (\<lambda>x. x\<lparr>xdefer := NONE\<rparr>))
       (seqP (whenP (i < ndeferred_xfers v - 1)
          (mod_srv (\<lambda>v. v\<lparr>deferred_xfers := (deferred_xfers v)
             [i := deferred_xfers v ! (ndeferred_xfers v - 1)]\<rparr>)))
       (seqP (mod_srv (\<lambda>v. v\<lparr>ndeferred_xfers := ndeferred_xfers v - 1\<rparr>))
       (ret i))))"

section \<open>Deleting transfers\<close>

definition delete_xfer_and_close_file_fd :: "os \<Rightarrow> addr \<Rightarrow> ('m rproc_scheme, unit) prog" where
  "delete_xfer_and_close_file_fd os p =
     (if p = 0 then ret ()
      else bindP (get_xfer p) (\<lambda>x.
           seqP (assertP (xtag x = XFER_RESRC_TAG) ''this->tag == XFER_RESRC_TAG'')
           (seqP (close_fd os (xf_fd (xfile x)))
           (xfer_delete p))))"

definition delete_xfer_and_close_all_fds :: "os \<Rightarrow> addr \<Rightarrow> ('m rproc_scheme, unit) prog" where
  "delete_xfer_and_close_all_fds os p =
     (if p = 0 then ret ()
      else bindP (get_xfer p) (\<lambda>x.
           seqP (assertP (xtag x = XFER_RESRC_TAG) ''this->tag == XFER_RESRC_TAG'')
           (seqP (close_fd os (stat_fd x))
           (seqP (whenP (dest_fd x \<noteq> stat_fd x \<and> dest_fd x \<ge> 0) (close_fd os (dest_fd x)))
           (delete_xfer_and_close_file_fd os p)))))"

definition register_xfer :: "os \<Rightarrow> addr \<Rightarrow> ('m sproc_scheme, bool) prog" where
  "register_xfer os p =
     bindP (getP (\<lambda>s. poller (srv s))) (\<lambda>pl.
     bindP (get_xfer p) (\<lambda>x.
     syspoll_register os pl (dest_fd x) (URes p) SYSPOLL_WRITE))"

definition deregister_xfer :: "os \<Rightarrow> addr \<Rightarrow> ('m sproc_scheme, bool) prog" where
  "deregister_xfer os p =
     bindP (getP (\<lambda>s. poller (srv s))) (\<lambda>pl.
     bindP (get_xfer p) (\<lambda>x.
     syspoll_deregister os pl (dest_fd x)))"

definition delete_unregistered_xfer :: "os \<Rightarrow> addr \<Rightarrow> ('m sproc_scheme, unit) prog" where
  "delete_unregistered_xfer os p =
     bindP (get_xfer p) (\<lambda>x.
     seqP (erase_xfer (txnid x))
     (delete_xfer_and_close_file_fd os p))"

definition delete_registered_xfer :: "os \<Rightarrow> addr \<Rightarrow> ('m sproc_scheme, unit) prog" where
  "delete_registered_xfer os p =
     bindP (get_xfer p) (\<lambda>x.
     seqP (erase_xfer (txnid x))
     (seqP (deregister_xfer os p)
     (delete_xfer_and_close_all_fds os p)))"

section \<open>Adding transfers\<close>

text \<open>The end of \<open>add_xfer\<close>: creating the structure and entering it in the table. The result is the
  address of the transfer and the file information, or \<open>None\<close> with \<open>errno\<close> as the failure left it.\<close>

definition store_xfer ::
  "os \<Rightarrow> byte \<Rightarrow> resrc_xfer_file \<Rightarrow> pid_t \<Rightarrow> fd \<Rightarrow> fd \<Rightarrow> fio_stat \<Rightarrow>
   ('m sproc_scheme, (addr \<times> fio_stat) option) prog" where
  "store_xfer os c f pid stfd dfd finfo =
     bindP (getP srv) (\<lambda>v.
     bindP (xfer_new os c f (xf_size f) pid stfd dfd (next_txnid v)) (\<lambda>p.
     if p = 0 then seqP (PRESERVE_ERRNO (close_fd os (xf_fd f))) (ret None)
     else seqP (mod_srv (\<lambda>v. v\<lparr>next_txnid := next_txnid v + 1\<rparr>))
          (bindP (insert_xfer p) (\<lambda>ok.
           if \<not> ok then
             seqP (PRESERVE_ERRNO (delete_xfer_and_close_file_fd os p)) (ret None)
           else ret (Some (p, finfo))))))"

definition add_xfer ::
  "os \<Rightarrow> prot_request \<Rightarrow> pid_t \<Rightarrow> fd \<Rightarrow> fd \<Rightarrow> ('m sproc_scheme, (addr \<times> fio_stat) option) prog" where
  "add_xfer os req pid stfd dfd =
     seqP (assertP (rq_cmd req = PROT_CMD_READ \<or> rq_cmd req = PROT_CMD_SEND \<or>
                    rq_cmd req = PROT_CMD_FILE_OPEN) ''req->cmd'')
     (bindP (getP srv) (\<lambda>v.
      if tsize (xfers v) = capacity (xfers v) then seqP (set_errno EMFILE) (ret None)
      else bindP (file_open_read os (case rq_filename req of None \<Rightarrow> [] | Some m \<Rightarrow> m)
                   (rq_offset req) (rq_len req)) (\<lambda>opened.
      case opened of
        None \<Rightarrow> ret None
      | Some (fd, finfo) \<Rightarrow>
          if fs_size finfo = 0 then
            seqP (close_fd os fd) (seqP (set_errno EINVAL) (ret None))
          else if rq_offset req + rq_len req > fs_size finfo then
            seqP (close_fd os fd) (seqP (set_errno ERANGE) (ret None))
          else
            let xfer_nbytes = (if rq_len req > 0 then rq_len req else fs_size finfo - rq_offset req)
            in store_xfer os (rq_cmd req)
                 \<lparr>xf_size = xfer_nbytes, xf_fd = fd, xf_blksize = fs_blksize finfo\<rparr>
                 pid stfd dfd (finfo\<lparr>fs_size := xfer_nbytes\<rparr>))))"

text \<open>The part of \<open>add_open_file\<close> after the transfer has been added: creating the timer, with
  the three error exits.\<close>

definition open_timer ::
  "os \<Rightarrow> addr \<Rightarrow> resrc_xfer \<Rightarrow> fio_stat \<Rightarrow> ('m sproc_scheme, (addr \<times> fio_stat) option) prog" where
  "open_timer os p x finfo =
     (let fail1 = seqP (PRESERVE_ERRNO (delete_unregistered_xfer os p)) (ret None)
      in bindP (malloc_obj os SIZEOF_TIMER (RTimer
              \<lparr>tm_ident = -1, tm_tag = TIMER_RESRC_TAG, tm_txnid = txnid x, tm_xfer_addr = p\<rparr>)) (\<lambda>tp.
            if tp = 0 then fail1
            else
              let fail2 = seqP (PRESERVE_ERRNO (timer_delete os tp)) fail1;
                  fail3 = bindP (get_timer tp) (\<lambda>tm.
                          seqP (PRESERVE_ERRNO (erase_timer (tm_txnid tm))) fail2)
              in bindP (insert_timer tp) (\<lambda>ok.
                 if \<not> ok then fail2
                 else bindP (getP srv) (\<lambda>v.
                      bindP (syspoll_timer os (poller v) tp (open_file_timeout_ms v)) (\<lambda>ok.
                      if \<not> ok then fail3 else ret (Some (tp, finfo)))))))"

definition add_open_file ::
  "os \<Rightarrow> prot_request \<Rightarrow> pid_t \<Rightarrow> fd \<Rightarrow> ('m sproc_scheme, (addr \<times> fio_stat) option) prog" where
  "add_open_file os req pid stfd =
     bindP (add_xfer os req pid stfd (-1)) (\<lambda>added.
     case added of
       None \<Rightarrow> ret None
     | Some (p, finfo) \<Rightarrow> bindP (get_xfer p) (\<lambda>x. open_timer os p x finfo))"

definition get_open_file :: "pid_t \<Rightarrow> size_t \<Rightarrow> ('m sproc_scheme, addr) prog" where
  "get_open_file pid tx =
     bindP (find_xfer tx) (\<lambda>p.
     if p = 0 then ret 0
     else bindP (get_xfer p) (\<lambda>x.
          if client_pid x \<noteq> US_INVALID_PID \<and> client_pid x \<noteq> pid then ret 0 else ret p))"

section \<open>Transferring\<close>

definition has_stat_channel :: "resrc_xfer \<Rightarrow> ('s, bool) prog" where
  "has_stat_channel x =
     seqP (assertP (stat_fd x = dest_fd x \<or> cmd x = PROT_CMD_SEND)
           ''(x->stat_fd == x->dest_fd) || x->cmd == PROT_CMD_SEND'')
     (ret (stat_fd x \<noteq> dest_fd x))"

definition new_resrc_resp :: "os \<Rightarrow> fd \<Rightarrow> byte list \<Rightarrow> ('m rproc_scheme, addr) prog" where
  "new_resrc_resp os fd pdu =
     seqP (assertP (length pdu \<le> 16) ''pdu_size <= sizeof(struct sfd_xfer_stat)'')
     (malloc_obj os SIZEOF_RESP (RResp
       \<lparr>rs_stat_fd = fd, rs_tag = PENDING_RESP_TAG, rs_pdu_size = length pdu,
        rs_pdu = pdu @ replicate (16 - length pdu) 0\<rparr>))"

text \<open>When no memory is left for the retry, the C code closes the duplicate and then registers the
  null pointer with the poller, which reads through it.\<close>

definition send_terminal_resp :: "os \<Rightarrow> addr \<Rightarrow> byte list \<Rightarrow> ('m sproc_scheme, unit) prog" where
  "send_terminal_resp os p pdu =
     bindP (get_xfer p) (\<lambda>x.
     bindP (send_pdu os (stat_fd x) pdu) (\<lambda>sent.
     bindP (getP errno) (\<lambda>e.
     if sent \<or> errno_is_fatal e then ret ()
     else bindP (syscall os (SysDup (stat_fd x))) (\<lambda>sfd.
     if sfd = -1 then ret ()
     else bindP (new_resrc_resp os sfd pdu) (\<lambda>rp.
     seqP (whenP (rp = 0) (close_fd os sfd))
     (if rp = 0 then undefP ''syspoll_register(NULL)''
      else bindP (get_resp rp) (\<lambda>r.
           bindP (getP (\<lambda>s. poller (srv s))) (\<lambda>pl.
           bindP (syspoll_register os pl (rs_stat_fd r) (URes rp) SYSPOLL_WRITE) (\<lambda>ok.
           if \<not> ok then seqP (free_obj rp) (close_fd os sfd) else ret ())))))))))"

definition XFER_FUEL :: nat where "XFER_FUEL = 2 ^ 64"

text \<open>The size of the next write: at most a block, what is left of the transfer, and what is left of
  this turn's share. The macro \<open>SFD_MIN\<close> evaluates its smaller argument twice, and one of its
  arguments calls \<open>pipe_capacity\<close>: \<open>read_write_size\<close> makes those calls, \<open>write_size\<close> is the value
  when they all return \<open>cap\<close>.\<close>

definition write_size :: "resrc_xfer \<Rightarrow> size_t \<Rightarrow> size_t \<Rightarrow> size_t" where
  "write_size x cap tot =
     SFD_MIN (ucast (xf_blksize (xfile x))) (SFD_MIN (nbytes_left x) (cap - tot))"

definition read_write_size :: "os \<Rightarrow> resrc_xfer \<Rightarrow> size_t \<Rightarrow> ('m uproc_scheme, size_t) prog" where
  "read_write_size os x tot =
     (let blksize = ucast (xf_blksize (xfile x));
          inner = bindP (pipe_capacity os) (\<lambda>cap.
                  if nbytes_left x < cap - tot then ret (nbytes_left x)
                  else bindP (pipe_capacity os) (\<lambda>cap. ret (cap - tot)))
      in bindP inner (\<lambda>v. if blksize < v then ret blksize else inner))"

text \<open>The system call that moves the data depends on the command.\<close>

definition move_data :: "os \<Rightarrow> resrc_xfer \<Rightarrow> size_t \<Rightarrow> ('m proc_scheme, int) prog" where
  "move_data os x wsize =
     (if cmd x = PROT_CMD_READ
      then file_splice os (xf_fd (xfile x)) (dest_fd x) (fio_ctx x) wsize
      else file_sendfile os (xf_fd (xfile x)) (dest_fd x) (fio_ctx x) wsize)"

text \<open>The three ways a round of the loop ends the function: a fatal error on the destination, the last
  byte written, and a destination that is full.\<close>

definition transfer_failed :: "os \<Rightarrow> addr \<Rightarrow> errno_t \<Rightarrow> ('m sproc_scheme, bool) prog" where
  "transfer_failed os p e =
     bindP (get_xfer p) (\<lambda>x.
     bindP (has_stat_channel x) (\<lambda>stat_chan.
     if \<not> stat_chan then ret False
     else seqP (send_terminal_resp os p
            (hdr_bytes \<lparr>hdr_cmd = SFD_XFER_STAT, hdr_stat = word_of_int e\<rparr>))
          (ret False)))"

definition transfer_finished :: "os \<Rightarrow> addr \<Rightarrow> ('m sproc_scheme, bool) prog" where
  "transfer_finished os p =
     bindP (get_xfer p) (\<lambda>x.
     bindP (has_stat_channel x) (\<lambda>stat_chan.
     if stat_chan then
       seqP (send_terminal_resp os p (xfer_stat_bytes (prot_marshal_xfer_stat PROT_XFER_COMPLETE)))
       (ret False)
     else ret False))"

definition transfer_blocked :: "os \<Rightarrow> addr \<Rightarrow> size_t \<Rightarrow> ('m sproc_scheme, bool) prog" where
  "transfer_blocked os p total_nwritten =
     bindP (get_xfer p) (\<lambda>x.
     bindP (bindP (has_stat_channel x) (\<lambda>stat_chan.
            if stat_chan then
              bindP (send_xfer_stat os (stat_fd x) total_nwritten) (\<lambda>sent.
              bindP (getP errno) (\<lambda>e. ret (\<not> sent \<and> errno_is_fatal e)))
            else ret False)) (\<lambda>dead.
     if dead then ret False
     else seqP (upd_xfer p (\<lambda>x. x\<lparr>xdefer := NONE\<rparr>)) (ret True)))"

text \<open>The body of the loop: \<open>Inl\<close> is a return from the function, \<open>Inr\<close> the value of
  \<open>total_nwritten\<close> for the next round.\<close>

definition transfer_round :: "os \<Rightarrow> addr \<Rightarrow> size_t \<Rightarrow> ('m sproc_scheme, bool + size_t) prog" where
  "transfer_round os p total_nwritten =
     bindP (get_xfer p) (\<lambda>x.
     bindP (read_write_size os x total_nwritten) (\<lambda>wsize.
     seqP (assertP (wsize > 0) ''write_size > 0'')
     (bindP (move_data os x wsize) (\<lambda>nwritten.
      bindP (getP errno) (\<lambda>e.
      if nwritten = -1 \<and> errno_is_fatal e then
        bindP (transfer_failed os p e) (\<lambda>r. ret (Inl r))
      else
        seqP (whenP (nwritten \<noteq> -1)
          (seqP (assertP (nwritten > 0) ''nwritten > 0'')
           (upd_xfer p (\<lambda>x. x\<lparr>nbytes_left := nbytes_left x - word_of_int nwritten\<rparr>))))
        (seqP (assertP (nwritten > 0 \<or> (nwritten = -1 \<and> \<not> errno_is_fatal e))
          ''nwritten > 0 || (nwritten == -1 && !errno_is_fatal(errno))'')
        (let tot = (if nwritten = -1 then total_nwritten else total_nwritten + word_of_int nwritten)
         in bindP (get_xfer p) (\<lambda>x.
         if nbytes_left x = 0 then bindP (transfer_finished os p) (\<lambda>r. ret (Inl r))
         else if nwritten = -1 then bindP (transfer_blocked os p tot) (\<lambda>r. ret (Inl r))
         else
           bindP (pipe_capacity os) (\<lambda>cap.
           if tot \<ge> cap then
             seqP (whenP (xdefer x = NONE) (defer_xfer p READY)) (ret (Inl True))
           else ret (Inr tot))))))))))"

fun transfer_loop :: "nat \<Rightarrow> os \<Rightarrow> addr \<Rightarrow> size_t \<Rightarrow> ('m sproc_scheme, bool) prog" where
  "transfer_loop fuel os p total_nwritten =
     (if fuel = 0 then divergeP
      else bindP (transfer_round os p total_nwritten) (\<lambda>r.
           case r of Inl b \<Rightarrow> ret b | Inr tot \<Rightarrow> transfer_loop (fuel - 1) os p tot))"

declare transfer_loop.simps [simp del]

definition transfer_file :: "os \<Rightarrow> addr \<Rightarrow> ('m sproc_scheme, bool) prog" where
  "transfer_file os p =
     bindP (get_xfer p) (\<lambda>x.
     if cmd x = PROT_CMD_READ \<or> cmd x = PROT_CMD_SEND then transfer_loop XFER_FUEL os p 0
     else ret False)"

section \<open>Requests\<close>

text \<open>\<open>fds\<close> is the caller's array of received descriptors. The four groups of cases of the switch in
  \<open>process_request\<close>; the result \<open>False\<close> asks the caller to close the descriptors.\<close>

definition request_file_open :: "os \<Rightarrow> byte list \<Rightarrow> nat \<Rightarrow> pid_t \<Rightarrow> fd list \<Rightarrow> ('m sproc_scheme, bool) prog" where
  "request_file_open os buf sz pid fds =
     (case prot_unmarshal_request buf sz of
        Inl e \<Rightarrow> seqP (case e of None \<Rightarrow> ret () | Some e \<Rightarrow> set_errno e) (ret False)
      | Inr pdu \<Rightarrow>
          bindP (add_open_file os pdu pid (fds ! 0)) (\<lambda>added.
          case added of
            None \<Rightarrow>
              bindP (getP errno) (\<lambda>e.
              seqP (send_req_err os (fds ! 0) e) (ret False))
          | Some (tp, finfo) \<Rightarrow>
              bindP (get_timer tp) (\<lambda>tm.
              seqP (send_file_info os (fds ! 0) (tm_txnid tm) finfo) (ret True))))"

definition request_send_open :: "os \<Rightarrow> byte list \<Rightarrow> pid_t \<Rightarrow> fd list \<Rightarrow> ('m sproc_scheme, bool) prog" where
  "request_send_open os buf pid fds =
     (case prot_unmarshal_send_open buf of
        None \<Rightarrow> ret False
      | Some pdu \<Rightarrow>
          bindP (get_open_file pid (so_txnid pdu)) (\<lambda>p.
          bindP (if p = 0 then ret True
                 else bindP (get_xfer p) (\<lambda>x. ret (xdefer x = CANCEL))) (\<lambda>gone.
          if gone then seqP (close_fd os (fds ! 0)) (ret False)
          else seqP (upd_xfer p (\<lambda>x. x\<lparr>cmd := PROT_CMD_SEND, dest_fd := fds ! 0\<rparr>))
            (bindP (register_xfer os p) (\<lambda>ok.
             if \<not> ok then
               bindP (get_xfer p) (\<lambda>x.
               bindP (getP errno) (\<lambda>e.
               seqP (send_xfer_err os (stat_fd x) e)
               (seqP (delete_unregistered_xfer os p) (ret False))))
             else ret True)))))"

definition request_cancel :: "byte list \<Rightarrow> pid_t \<Rightarrow> ('m sproc_scheme, bool) prog" where
  "request_cancel buf pid =
     (case prot_unmarshal_cancel buf of
        None \<Rightarrow> ret False
      | Some pdu \<Rightarrow>
          bindP (get_open_file pid (ca_txnid pdu)) (\<lambda>p.
          if p = 0 then ret False else seqP (defer_xfer p CANCEL) (ret True)))"

definition request_transfer :: "os \<Rightarrow> byte list \<Rightarrow> nat \<Rightarrow> pid_t \<Rightarrow> fd list \<Rightarrow> ('m sproc_scheme, bool) prog" where
  "request_transfer os buf sz pid fds =
     (case prot_unmarshal_request buf sz of
        Inl e \<Rightarrow> seqP (case e of None \<Rightarrow> ret () | Some e \<Rightarrow> set_errno e) (ret False)
      | Inr pdu \<Rightarrow>
          bindP (add_xfer os pdu pid (fds ! 0)
                   (if rq_cmd pdu = PROT_CMD_SEND then fds ! 1 else fds ! 0)) (\<lambda>added.
          case added of
            None \<Rightarrow>
              bindP (getP errno) (\<lambda>e.
              seqP (send_req_err os (fds ! 0) e) (ret False))
          | Some (p, finfo) \<Rightarrow>
              bindP (register_xfer os p) (\<lambda>ok.
              bindP (get_xfer p) (\<lambda>x.
              if \<not> ok then
                bindP (getP errno) (\<lambda>e.
                seqP (send_req_err os (stat_fd x) e)
                (seqP (delete_unregistered_xfer os p) (ret False)))
              else seqP (send_file_info os (stat_fd x) (txnid x) finfo) (ret True)))))"

definition process_request ::
  "os \<Rightarrow> byte list \<Rightarrow> nat \<Rightarrow> pid_t \<Rightarrow> fd list \<Rightarrow> ('m sproc_scheme, bool) prog" where
  "process_request os buf sz pid fds =
     (if sfd_get_stat buf \<noteq> SFD_STAT_OK then ret False
      else if \<not> PROT_IS_REQUEST (sfd_get_cmd buf) then ret False
      else if sfd_get_cmd buf = PROT_CMD_FILE_OPEN then request_file_open os buf sz pid fds
      else if sfd_get_cmd buf = PROT_CMD_SEND_OPEN then request_send_open os buf pid fds
      else if sfd_get_cmd buf = PROT_CMD_CANCEL then request_cancel buf pid
      else if sfd_get_cmd buf = PROT_CMD_READ \<or> sfd_get_cmd buf = PROT_CMD_SEND then
        request_transfer os buf sz pid fds
      else ret False)"

definition close_fds :: "os \<Rightarrow> fd list \<Rightarrow> nat \<Rightarrow> ('m proc_scheme, unit) prog" where
  "close_fds os fds nfds =
     whenP (nfds > 0)
       (seqP (close_fd os (fds ! 0)) (whenP (nfds = 2) (close_fd os (fds ! 1))))"

text \<open>One received datagram: the body of the loop of \<open>handle_reqfd\<close> after \<open>us_recv\<close>.\<close>

definition handle_datagram :: "os \<Rightarrow> nat \<Rightarrow> received \<Rightarrow> ('m sproc_scheme, unit) prog" where
  "handle_datagram os nread rc =
     bindP (getP srv) (\<lambda>v.
     if sfd_get_cmd (rc_buf rc) \<noteq> PROT_CMD_CANCEL \<and> (rc_nfds rc < 1 \<or> rc_nfds rc > PROT_MAXFDS) then ret ()
     else if rc_uid rc \<noteq> srv_uid v then
       seqP (send_xfer_err os (rc_fds rc ! 0) EACCES) (close_fds os (rc_fds rc) (rc_nfds rc))
     else bindP (process_request os (rc_buf rc) nread (rc_pid rc) (rc_fds rc)) (\<lambda>ok.
          whenP (\<not> ok) (close_fds os (rc_fds rc) (rc_nfds rc))))"

fun reqfd_loop :: "nat \<Rightarrow> os \<Rightarrow> received \<Rightarrow> ('m sproc_scheme, bool \<times> received) prog" where
  "reqfd_loop fuel os rc =
     (if fuel = 0 then divergeP
      else
        bindP (getP (\<lambda>s. reqfd (srv s))) (\<lambda>fd.
        bindP (us_recv os fd (rc\<lparr>rc_nfds := PROT_MAXFDS\<rparr>)) (\<lambda>(nread, rc).
        seqP (assertP (nread \<noteq> 0) ''nread != 0'')
        (if nread < 0 then bindP (getP errno) (\<lambda>e. ret (\<not> errno_is_fatal e, rc))
         else seqP (handle_datagram os (nat nread) rc) (reqfd_loop (fuel - 1) os rc)))))"

declare reqfd_loop.simps [simp del]

definition handle_reqfd :: "nat \<Rightarrow> os \<Rightarrow> nat \<Rightarrow> received \<Rightarrow> ('m sproc_scheme, bool \<times> received) prog" where
  "handle_reqfd fuel os events rc =
     seqP (assertP (events = SYSPOLL_READ) ''events == SYSPOLL_READ'') (reqfd_loop fuel os rc)"

section \<open>Events\<close>

text \<open>An expired timer, a writable status channel with a response to retry, and a writable or
  failed data channel: the three arms of \<open>process_events\<close> that follow the request socket.\<close>

definition timer_event :: "os \<Rightarrow> addr \<Rightarrow> ('m sproc_scheme, unit) prog" where
  "timer_event os tp =
     bindP (get_timer tp) (\<lambda>tm.
     bindP (find_xfer (tm_txnid tm)) (\<lambda>p.
     seqP (if p \<noteq> 0 \<and> p = tm_xfer_addr tm then
             bindP (get_xfer p) (\<lambda>x.
             whenP (nbytes_left x = xf_size (xfile x))
               (seqP (send_xfer_err os (stat_fd x) ETIMEDOUT) (defer_xfer p CANCEL)))
           else ret ())
     (seqP (erase_timer (tm_txnid tm)) (timer_delete os tp))))"

definition response_event :: "os \<Rightarrow> bool \<Rightarrow> addr \<Rightarrow> ('m sproc_scheme, unit) prog" where
  "response_event os error_event rp =
     bindP (get_resp rp) (\<lambda>r.
     bindP (if error_event then ret True
            else bindP (send_pdu os (rs_stat_fd r) (take (rs_pdu_size r) (rs_pdu r))) (\<lambda>sent.
                 bindP (getP errno) (\<lambda>e. ret (sent \<or> errno_is_fatal e)))) (\<lambda>finished.
     whenP finished (seqP (close_fd os (rs_stat_fd r)) (free_obj rp))))"

definition xfer_event :: "os \<Rightarrow> bool \<Rightarrow> addr \<Rightarrow> ('m sproc_scheme, unit) prog" where
  "xfer_event os error_event p =
     bindP (is_xfer p) (\<lambda>isx.
     seqP (assertP isx ''is_xfer(events.udata)'')
     (bindP (get_xfer p) (\<lambda>x.
      if xdefer x = CANCEL then ret ()
      else bindP (if error_event then ret True
                  else if xdefer x = READY then ret False
                  else bindP (transfer_file os p) (\<lambda>more. ret (\<not> more))) (\<lambda>del.
           whenP del (PRESERVE_ERRNO (delete_registered_xfer os p))))))"

text \<open>The body of the loop of \<open>process_events\<close>: the result says whether to go on, and carries the
  receive buffer and descriptor array. An event of the poller's own signal descriptor that is not a
  termination signal would be read as a resource.\<close>

definition process_event ::
  "nat \<Rightarrow> os \<Rightarrow> nat \<Rightarrow> received \<Rightarrow> ('m sproc_scheme, bool \<times> received) prog" where
  "process_event fuel os i rc =
     bindP (syspoll_get os i) (\<lambda>ev.
     if has (se_events ev) SYSPOLL_TERM then ret (False, rc)
     else bindP (udata_ident (se_udata ev)) (\<lambda>ident.
     bindP (getP (\<lambda>s. reqfd (srv s))) (\<lambda>rfd.
     if ident = rfd then
       (if has (se_events ev) SYSPOLL_ERROR then ret (False, rc)
        else handle_reqfd fuel os (se_events ev) rc)
     else
       let error_event = has (se_events ev) SYSPOLL_ERROR
       in case se_udata ev of
            URes p \<Rightarrow>
              bindP (is_timer p) (\<lambda>tm.
              if tm then seqP (timer_event os p) (ret (True, rc))
              else bindP (is_response p) (\<lambda>resp.
              if resp then seqP (response_event os error_event p) (ret (True, rc))
              else seqP (xfer_event os error_event p) (ret (True, rc))))
          | _ \<Rightarrow> undefP ''event data is not a resource'')))"

primrec events_loop ::
  "nat list \<Rightarrow> nat \<Rightarrow> os \<Rightarrow> received \<Rightarrow> ('m sproc_scheme, bool \<times> received) prog" where
  "events_loop [] fuel os rc = ret (True, rc)"
| "events_loop (i # is) fuel os rc =
     bindP (process_event fuel os i rc) (\<lambda>(go_on, rc).
     if \<not> go_on then ret (False, rc) else events_loop is fuel os rc)"

definition process_events ::
  "nat \<Rightarrow> os \<Rightarrow> int \<Rightarrow> received \<Rightarrow> ('m sproc_scheme, bool \<times> received) prog" where
  "process_events fuel os nevents rc = events_loop [0..<nat nevents] fuel os rc"

section \<open>Deferred processing\<close>

text \<open>Every round shortens the list or advances the index, so one round more than the length of the
  list is enough fuel.\<close>

fun deferred_loop :: "nat \<Rightarrow> os \<Rightarrow> nat \<Rightarrow> ('m sproc_scheme, unit) prog" where
  "deferred_loop fuel os i =
     (if fuel = 0 then divergeP
      else bindP (getP srv) (\<lambda>v.
      if i \<ge> ndeferred_xfers v then ret ()
      else if i \<ge> length (deferred_xfers v) then undefP ''deferred array index''
      else
        let p = deferred_xfers v ! i
        in bindP (is_xfer p) (\<lambda>isx.
        seqP (assertP isx ''is_xfer(x)'')
        (bindP (get_xfer p) (\<lambda>x.
         case xdefer x of
           CANCEL \<Rightarrow>
             bindP (undefer_xfer i) (\<lambda>i.
             seqP (delete_registered_xfer os p) (deferred_loop (fuel - 1) os i))
         | READY \<Rightarrow>
             bindP (transfer_file os p) (\<lambda>more.
             if \<not> more then
               bindP (undefer_xfer i) (\<lambda>i.
               seqP (delete_registered_xfer os p) (deferred_loop (fuel - 1) os i))
             else bindP (get_xfer p) (\<lambda>x.
               if xdefer x = NONE then
                 bindP (undefer_xfer i) (\<lambda>i. deferred_loop (fuel - 1) os i)
               else deferred_loop (fuel - 1) os (i + 1)))
         | NONE \<Rightarrow> assertP False ''false'')))))"

declare deferred_loop.simps [simp del]

definition process_deferred :: "os \<Rightarrow> ('m sproc_scheme, unit) prog" where
  "process_deferred os =
     bindP (getP (\<lambda>s. ndeferred_xfers (srv s))) (\<lambda>n. deferred_loop (Suc n) os 0)"

section \<open>Starting and stopping\<close>

text \<open>The tables are \<open>None\<close> where their constructor returned the null pointer, which the destructor
  reads through; a null poller is accepted.\<close>

definition srv_delete ::
  "os \<Rightarrow> syspoll option \<Rightarrow> fd \<Rightarrow> addr xfer_table option \<Rightarrow> addr xfer_table option \<Rightarrow> ('m sproc_scheme, unit) prog" where
  "srv_delete os pl rfd xf tm =
     seqP (case pl of None \<Rightarrow> ret () | Some pl \<Rightarrow> syspoll_delete os pl)
     (seqP (close_fd os rfd)
     (seqP (case xf of None \<Rightarrow> undefP ''xfer_table_delete(NULL)''
            | Some t \<Rightarrow> xfer_table_delete (delete_xfer_and_close_all_fds os) t)
     (case tm of None \<Rightarrow> undefP ''xfer_table_delete(NULL)''
      | Some t \<Rightarrow> xfer_table_delete (timer_delete os) t)))"

definition table_alloc :: "os \<Rightarrow> size_t \<Rightarrow> ('m proc_scheme, addr xfer_table option) prog" where
  "table_alloc os n =
     bindP (syscall os (SysMalloc 32)) (\<lambda>m.
     if m \<le> 0 then ret None
     else bindP (liftP ''clp2'' (clp2 n)) (\<lambda>cap.
          bindP (syscall os (SysMalloc (8 * unat cap))) (\<lambda>c.
          liftP ''clp2'' (xfer_table_new True (c > 0) n))))"

definition srv_new :: "os \<Rightarrow> int \<Rightarrow> fd \<Rightarrow> int \<Rightarrow> ('m sproc_scheme, bool) prog" where
  "srv_new os timeout_ms rfd maxfds =
     seqP (assertP (maxfds > 0) ''maxfds > 0'')
     (bindP (syscall os (SysMalloc 64)) (\<lambda>this.
      if this \<le> 0 then ret False
      else bindP (syspoll_new os maxfds) (\<lambda>pl.
      bindP (table_alloc os (word_of_int maxfds)) (\<lambda>xf.
      bindP (table_alloc os (word_of_int maxfds)) (\<lambda>tm.
      bindP (syscall os (SysMalloc (SIZEOF_XFER * nat maxfds))) (\<lambda>d.
      bindP (syscall os SysGeteuid) (\<lambda>uid.
      case (pl, xf, tm) of
        (Some pl', Some xf', Some tm') \<Rightarrow>
          if d \<le> 0 then seqP (PRESERVE_ERRNO (srv_delete os pl rfd xf tm)) (ret False)
          else seqP (mod_srv (\<lambda>_. \<lparr>poller = pl', xfers = xf', xfer_timers = tm',
                 deferred_xfers = replicate (SIZEOF_XFER * nat maxfds div 8) 0, ndeferred_xfers = 0,
                 next_txnid = 1, reqfd = rfd, open_file_timeout_ms = word_of_int timeout_ms,
                 srv_uid = nat uid\<rparr>)) (ret True)
      | _ \<Rightarrow> seqP (PRESERVE_ERRNO (srv_delete os pl rfd xf tm)) (ret False))))))))"

text \<open>The main loop: one turn waits for events, handles them and then the deferred transfers.\<close>

definition srv_turn :: "nat \<Rightarrow> os \<Rightarrow> received \<Rightarrow> ('m sproc_scheme, bool \<times> received) prog" where
  "srv_turn fuel os rc =
     bindP (getP srv) (\<lambda>v.
     bindP (if ndeferred_xfers v = 0 then syspoll_wait os else syspoll_poll os) (\<lambda>nready.
     bindP (if nready = -1 then
              bindP (getP errno) (\<lambda>e. ret (\<not> (e \<noteq> EINTR \<and> errno_is_fatal e), rc))
            else process_events fuel os nready rc) (\<lambda>(go_on, rc).
     if \<not> go_on then ret (False, rc)
     else seqP (process_deferred os) (ret (True, rc)))))"

fun srv_loop :: "nat \<Rightarrow> os \<Rightarrow> received \<Rightarrow> ('m sproc_scheme, unit) prog" where
  "srv_loop fuel os rc =
     (if fuel = 0 then divergeP
      else bindP (srv_turn fuel os rc) (\<lambda>(go_on, rc).
           if \<not> go_on then ret () else srv_loop (fuel - 1) os rc))"

declare srv_loop.simps [simp del]

text \<open>\<open>junk\<close> is what the uninitialised descriptor array and identity variables hold at first.\<close>

definition srv_run :: "nat \<Rightarrow> os \<Rightarrow> received \<Rightarrow> fd \<Rightarrow> int \<Rightarrow> int \<Rightarrow> ('m sproc_scheme, bool) prog" where
  "srv_run fuel os junk rfd maxfds timeout_ms =
     bindP (srv_new os timeout_ms rfd maxfds) (\<lambda>ok.
     if \<not> ok then ret False
     else bindP (getP srv) (\<lambda>v.
     let fail = bindP (getP srv) (\<lambda>v.
           seqP (PRESERVE_ERRNO (srv_delete os (Some (poller v)) (reqfd v) (Some (xfers v)) (Some (xfer_timers v))))
           (ret False))
     in bindP (syspoll_register os (poller v) (reqfd v) URequest SYSPOLL_READ) (\<lambda>reg.
     if \<not> reg then fail
     else bindP (syscall os (SysMalloc PROT_REQ_MAXSIZE)) (\<lambda>buf.
     if buf \<le> 0 then fail
     else seqP (srv_loop fuel os (junk\<lparr>rc_buf := replicate PROT_REQ_MAXSIZE 0\<rparr>))
          (bindP (getP srv) (\<lambda>v.
           seqP (srv_delete os (Some (poller v)) (reqfd v) (Some (xfers v)) (Some (xfer_timers v)))
           (ret True)))))))"

end
