(* ===== verification/Sfd_Invariant.thy ===== *)
theory Sfd_Invariant
  imports Sfd_Server
begin

text \<open>
  The invariant that ties the parts of the server's state together: the heap of resources, the two
  tables and the array of deferred transfers. This theory holds its definition on a heap and a
  server structure, and one lemma per elementary change of the two; the theories that follow lift
  them to the functions of \<open>impl/server.c\<close>.
\<close>

section \<open>Definition\<close>

definition xfer_addrs :: "heap_t \<Rightarrow> addr set" where
  "xfer_addrs h = {p. \<exists>x. h p = Some (RXfer x)}"

definition timer_addrs :: "heap_t \<Rightarrow> addr set" where
  "timer_addrs h = {p. \<exists>x. h p = Some (RTimer x)}"

text \<open>The part of the array that is in use.\<close>

definition deferred_list :: "server \<Rightarrow> addr list" where
  "deferred_list v = take (ndeferred_xfers v) (deferred_xfers v)"

text \<open>The tag of every structure is the one of its type; a transfer that reads has no separate
  status channel; a stored response fits in its structure.\<close>

fun resrc_wf :: "resrc \<Rightarrow> bool" where
  "resrc_wf (RXfer x) \<longleftrightarrow> xtag x = XFER_RESRC_TAG \<and>
     cmd x \<in> {PROT_CMD_READ, PROT_CMD_SEND, PROT_CMD_FILE_OPEN} \<and>
     (cmd x = PROT_CMD_READ \<longrightarrow> stat_fd x = dest_fd x) \<and>
     (cmd x = PROT_CMD_FILE_OPEN \<longrightarrow> dest_fd x = -1)"
| "resrc_wf (RResp r) \<longleftrightarrow> rs_tag r = PENDING_RESP_TAG \<and> length (rs_pdu r) = 16 \<and> rs_pdu_size r \<le> 16"
| "resrc_wf (RTimer t) \<longleftrightarrow> tm_tag t = TIMER_RESRC_TAG"

definition heap_wf :: "heap_t \<Rightarrow> bool" where
  "heap_wf h \<longleftrightarrow> (\<forall>p r. h p = Some r \<longrightarrow> p \<noteq> 0 \<and> resrc_wf r)"

text \<open>The tables hold exactly the live transfers and timers.\<close>

definition tables_ok :: "heap_t \<Rightarrow> server \<Rightarrow> bool" where
  "tables_ok h v \<longleftrightarrow>
     table_inv (resrc_xfer_txnid h) (xfers v) \<and> contents (xfers v) = xfer_addrs h \<and>
     table_inv (resrc_timer_txnid h) (xfer_timers v) \<and> contents (xfer_timers v) = timer_addrs h"

definition array_ok :: "heap_t \<Rightarrow> server \<Rightarrow> bool" where
  "array_ok h v \<longleftrightarrow>
     ndeferred_xfers v \<le> length (deferred_xfers v) \<and>
     unat (capacity (xfers v)) \<le> length (deferred_xfers v) \<and>
     distinct (deferred_list v) \<and> set (deferred_list v) \<subseteq> xfer_addrs h"

text \<open>A transfer is in the deferred list exactly when its flag says so, the transfers of \<open>Q\<close>
  excepted.\<close>

definition flags_ok :: "addr set \<Rightarrow> heap_t \<Rightarrow> server \<Rightarrow> bool" where
  "flags_ok Q h v \<longleftrightarrow>
     (\<forall>p x. h p = Some (RXfer x) \<longrightarrow> p \<notin> Q \<longrightarrow> (xdefer x \<noteq> NONE \<longleftrightarrow> p \<in> set (deferred_list v)))"

definition sinv :: "addr set \<Rightarrow> heap_t \<Rightarrow> server \<Rightarrow> bool" where
  "sinv Q h v \<longleftrightarrow> heap_wf h \<and> tables_ok h v \<and> array_ok h v \<and> flags_ok Q h v"

definition server_inv :: "'m sproc_scheme \<Rightarrow> bool" where
  "server_inv s \<longleftrightarrow> sinv {} (heap s) (srv s)"

lemmas sinv_defs = sinv_def tables_ok_def array_ok_def flags_ok_def

section \<open>Consequences\<close>

lemma in_addrs [simp]:
  "h p = Some (RXfer x) \<Longrightarrow> p \<in> xfer_addrs h" "h p = Some (RTimer t) \<Longrightarrow> p \<in> timer_addrs h"
  by (auto simp: xfer_addrs_def timer_addrs_def)

lemma sinv_heap: "sinv Q h v \<Longrightarrow> h p = Some r \<Longrightarrow> p \<noteq> 0 \<and> resrc_wf r"
  by (simp add: sinv_def heap_wf_def)

lemma sinv_null: "sinv Q h v \<Longrightarrow> h 0 = None"
  using sinv_heap [of Q h v 0] by (cases "h 0") auto

lemma sinv_mono: "sinv Q h v \<Longrightarrow> Q \<subseteq> Q' \<Longrightarrow> sinv Q' h v"
  unfolding sinv_def flags_ok_def by blast

lemma sinv_tables:
  assumes "sinv Q h v"
  shows "table_inv (resrc_xfer_txnid h) (xfers v)" "contents (xfers v) = xfer_addrs h"
    "table_inv (resrc_timer_txnid h) (xfer_timers v)" "contents (xfer_timers v) = timer_addrs h"
  using assms by (simp_all add: sinv_defs)

lemma sinv_array:
  assumes "sinv Q h v"
  shows "ndeferred_xfers v \<le> length (deferred_xfers v)"
    "unat (capacity (xfers v)) \<le> length (deferred_xfers v)"
    "distinct (deferred_list v)" "set (deferred_list v) \<subseteq> xfer_addrs h"
    "length (deferred_list v) = ndeferred_xfers v"
  using assms by (simp_all add: sinv_defs deferred_list_def)

lemma sinv_flag:
  "sinv Q h v \<Longrightarrow> h p = Some (RXfer x) \<Longrightarrow> p \<notin> Q \<Longrightarrow> xdefer x \<noteq> NONE \<longleftrightarrow> p \<in> set (deferred_list v)"
  by (simp add: sinv_defs)

lemma sinv_flagged: "sinv {} h v \<Longrightarrow> p \<in> set (deferred_list v) \<Longrightarrow> \<exists>x. h p = Some (RXfer x) \<and> xdefer x \<noteq> NONE"
  using sinv_array(4) [of "{}" h v] by (auto simp: xfer_addrs_def sinv_defs)

text \<open>The number of live transfers is the \<open>size\<close> field of the table.\<close>

lemma sinv_size: "sinv Q h v \<Longrightarrow> unat (tsize (xfers v)) = card (xfer_addrs h) \<and> finite (xfer_addrs h)"
  using sinv_tables(1,2) [of Q h v] card_contents [of "resrc_xfer_txnid h" "xfers v"]
    table_inv_size [of "resrc_xfer_txnid h" "xfers v"] finite_contents [of "xfers v"] by simp

lemma sinv_size_cap: "sinv Q h v \<Longrightarrow> unat (tsize (xfers v)) \<le> unat (capacity (xfers v))"
  using sinv_tables(1) [of Q h v] card_used_le [of "elems (xfers v)"] by (simp add: table_inv_def)

text \<open>A transfer outside the list leaves room in the array: the list is a set of live transfers and
  there are never more of them than the table has slots.\<close>

lemma sinv_room:
  assumes "sinv Q h v" and "h p = Some (RXfer x)" and "p \<notin> set (deferred_list v)"
  shows "ndeferred_xfers v < unat (tsize (xfers v))" "ndeferred_xfers v < length (deferred_xfers v)"
proof -
  have "set (deferred_list v) \<subset> xfer_addrs h"
    using sinv_array(4) [OF assms(1)] assms(2,3) by auto
  then have "card (set (deferred_list v)) < card (xfer_addrs h)"
    using sinv_size [OF assms(1)] by (intro psubset_card_mono) auto
  then show n: "ndeferred_xfers v < unat (tsize (xfers v))"
    using sinv_array(3,5) [OF assms(1)] sinv_size [OF assms(1)] by (simp add: distinct_card)
  show "ndeferred_xfers v < length (deferred_xfers v)"
    using n sinv_size_cap [OF assms(1)] sinv_array(2) [OF assms(1)] by linarith
qed

lemma sinv_find:
  assumes "sinv Q h v"
  obtains (none) "xfer_table_find (xfers v) tx = Some None"
    | (some) p x where "xfer_table_find (xfers v) tx = Some (Some p)" "h p = Some (RXfer x)" "p \<noteq> 0"
        "indexof (xfers v) (txnid x) = indexof (xfers v) tx"
proof (rule tbl.find_cases [OF sinv_tables(1) [OF assms], of tx])
  assume "xfer_table_find (xfers v) tx = Some None"
  then show thesis by (rule none)
next
  fix e assume e: "xfer_table_find (xfers v) tx = Some (Some e)" "e \<in> contents (xfers v)"
    "indexof (xfers v) (resrc_xfer_txnid h e) = indexof (xfers v) tx"
  then obtain x where "h e = Some (RXfer x)"
    using sinv_tables(2) [OF assms] by (auto simp: xfer_addrs_def)
  with e sinv_heap [OF assms this] show thesis by (auto intro: some simp: resrc_xfer_txnid_def)
qed

section \<open>Elementary changes\<close>

lemma table_inv_cong:
  assumes "table_inv hash t" and "\<And>e. e \<in> contents t \<Longrightarrow> hash' e = hash e"
  shows "table_inv hash' t"
proof -
  have "hash' e = hash e" if "i < length (elems t)" "elems t ! i = Some e" for i e
    using assms(2) that by (auto simp: contents_nth)
  with assms(1) show ?thesis unfolding table_inv_def by metis
qed

lemma deferred_list_simps [simp]:
  "deferred_list (v\<lparr>poller := a\<rparr>) = deferred_list v"
  "deferred_list (v\<lparr>xfers := b\<rparr>) = deferred_list v"
  "deferred_list (v\<lparr>xfer_timers := b\<rparr>) = deferred_list v"
  "deferred_list (v\<lparr>next_txnid := c\<rparr>) = deferred_list v"
  by (simp_all add: deferred_list_def)

lemma sinv_frame [simp]:
  "sinv Q h (v\<lparr>poller := a\<rparr>) = sinv Q h v"
  "sinv Q h (v\<lparr>next_txnid := c\<rparr>) = sinv Q h v"
  by (simp_all add: sinv_defs)

lemma heap_wf_upd: "heap_wf h \<Longrightarrow> p \<noteq> 0 \<Longrightarrow> resrc_wf r \<Longrightarrow> heap_wf (h(p \<mapsto> r))"
  by (auto simp: heap_wf_def)

lemma heap_wf_free: "heap_wf h \<Longrightarrow> heap_wf (h(p := None))"
  by (auto simp: heap_wf_def)

text \<open>Changing a transfer in place, its id kept and its deferral flag kept unless excepted.\<close>

lemma sinv_upd_xfer:
  assumes "sinv Q h v" and "h p = Some (RXfer x)" and "resrc_wf (RXfer x')" and "txnid x' = txnid x"
    and "p \<notin> Q \<Longrightarrow> (xdefer x' = NONE) = (xdefer x = NONE)"
  shows "sinv Q (h(p \<mapsto> RXfer x')) v"
proof -
  have addrs: "xfer_addrs (h(p \<mapsto> RXfer x')) = xfer_addrs h" "timer_addrs (h(p \<mapsto> RXfer x')) = timer_addrs h"
    using assms(2) by (auto simp: xfer_addrs_def timer_addrs_def)
  have hash: "resrc_xfer_txnid (h(p \<mapsto> RXfer x')) = resrc_xfer_txnid h"
    "resrc_timer_txnid (h(p \<mapsto> RXfer x')) = resrc_timer_txnid h"
    using assms(2,4) by (auto simp: resrc_xfer_txnid_def resrc_timer_txnid_def fun_eq_iff)
  have "heap_wf (h(p \<mapsto> RXfer x'))"
    using assms(1) sinv_heap [OF assms(1,2)] assms(3) by (simp add: sinv_def heap_wf_upd)
  with assms show ?thesis
    unfolding sinv_defs addrs hash by (auto split: if_splits)
qed

lemma set_upd_append:
  assumes "n < length d"
  shows "take (Suc n) (d[n := p]) = take n d @ [p]"
  using assms by (simp add: take_Suc_conv_app_nth)

text \<open>Appending a transfer to the list.\<close>

definition appended :: "addr \<Rightarrow> server \<Rightarrow> server" where
  "appended p v = v\<lparr>deferred_xfers := (deferred_xfers v)[ndeferred_xfers v := p],
                     ndeferred_xfers := Suc (ndeferred_xfers v)\<rparr>"

lemma appended_simps [simp]:
  "xfers (appended p v) = xfers v" "xfer_timers (appended p v) = xfer_timers v"
  "poller (appended p v) = poller v" "reqfd (appended p v) = reqfd v"
  "next_txnid (appended p v) = next_txnid v" "srv_uid (appended p v) = srv_uid v"
  "length (deferred_xfers (appended p v)) = length (deferred_xfers v)"
  "ndeferred_xfers (appended p v) = Suc (ndeferred_xfers v)"
  by (simp_all add: appended_def)

lemma deferred_list_appended:
  "ndeferred_xfers v < length (deferred_xfers v) \<Longrightarrow> deferred_list (appended p v) = deferred_list v @ [p]"
  by (simp add: appended_def deferred_list_def set_upd_append)

lemma sinv_append:
  assumes "sinv Q h v" and "h p = Some (RXfer x)" and "p \<notin> set (deferred_list v)"
  shows "sinv (insert p Q) h (appended p v)"
proof -
  note room = sinv_room(2) [OF assms]
  have "flags_ok (insert p Q) h (appended p v)"
    using assms room by (auto simp: flags_ok_def sinv_def deferred_list_appended)
  moreover have "array_ok h (appended p v)"
    using assms room by (auto simp: array_ok_def sinv_def deferred_list_appended)
  ultimately show ?thesis
    using assms(1) by (auto simp: sinv_def tables_ok_def)
qed

lemma sinv_defer_new:
  assumes "sinv Q h v" and "h p = Some (RXfer x)" and "p \<notin> set (deferred_list v)" and "d \<noteq> NONE"
  shows "sinv (Q - {p}) (h(p \<mapsto> RXfer (x\<lparr>xdefer := d\<rparr>))) (appended p v)"
proof -
  have "resrc_wf (RXfer (x\<lparr>xdefer := d\<rparr>))" using sinv_heap [OF assms(1,2)] by simp
  then have i: "sinv (insert p Q) (h(p \<mapsto> RXfer (x\<lparr>xdefer := d\<rparr>))) (appended p v)"
    using sinv_upd_xfer [OF sinv_append [OF assms(1-3)] assms(2)] by simp
  have "p \<in> set (deferred_list (appended p v))"
    using sinv_room(2) [OF assms(1-3)] by (simp add: deferred_list_appended)
  with i assms(4) show ?thesis by (auto simp: sinv_defs)
qed

text \<open>Removing the entry at an index: the last entry takes its place.\<close>

definition removed :: "nat \<Rightarrow> server \<Rightarrow> server" where
  "removed i v = v\<lparr>deferred_xfers := (if i < ndeferred_xfers v - 1
        then (deferred_xfers v)[i := deferred_xfers v ! (ndeferred_xfers v - 1)] else deferred_xfers v),
      ndeferred_xfers := ndeferred_xfers v - 1\<rparr>"

lemma removed_simps [simp]:
  "xfers (removed i v) = xfers v" "xfer_timers (removed i v) = xfer_timers v"
  "poller (removed i v) = poller v" "reqfd (removed i v) = reqfd v"
  "next_txnid (removed i v) = next_txnid v" "srv_uid (removed i v) = srv_uid v"
  "length (deferred_xfers (removed i v)) = length (deferred_xfers v)"
  "ndeferred_xfers (removed i v) = ndeferred_xfers v - 1"
  by (simp_all add: removed_def)

lemma deferred_list_removed:
  assumes "i < ndeferred_xfers v" and "ndeferred_xfers v \<le> length (deferred_xfers v)"
  shows "deferred_list (removed i v) = butlast ((deferred_list v)[i := last (deferred_list v)])"
proof -
  let ?n = "ndeferred_xfers v" and ?d = "deferred_xfers v"
  have last: "last (take ?n ?d) = ?d ! (?n - 1)"
    using assms by (subst last_conv_nth) auto
  have "take (?n - 1) (?d[i := ?d ! (?n - 1)]) = butlast ((take ?n ?d)[i := ?d ! (?n - 1)])"
    using assms by (simp add: butlast_conv_take take_update_swap min_def)
  moreover have "take (?n - 1) ?d = butlast ((take ?n ?d)[i := ?d ! (?n - 1)])" if "\<not> i < ?n - 1"
    using assms that by (simp add: butlast_conv_take take_update_swap min_def list_update_beyond)
  ultimately show ?thesis by (simp add: deferred_list_def removed_def last)
qed

lemma sinv_remove:
  assumes "sinv Q h v" and "i < ndeferred_xfers v"
    and "h (deferred_xfers v ! i) = Some (RXfer x)"
  shows "sinv (Q - {deferred_xfers v ! i}) (h(deferred_xfers v ! i \<mapsto> RXfer (x\<lparr>xdefer := NONE\<rparr>))) (removed i v)"
    and "set (deferred_list (removed i v)) = set (deferred_list v) - {deferred_xfers v ! i}"
proof -
  let ?p = "deferred_xfers v ! i" and ?h = "h(deferred_xfers v ! i \<mapsto> RXfer (x\<lparr>xdefer := NONE\<rparr>))"
  have nth: "deferred_list v ! i = ?p" using assms(2) by (simp add: deferred_list_def)
  have len: "i < length (deferred_list v)" using sinv_array(5) [OF assms(1)] assms(2) by simp
  have dl: "deferred_list (removed i v) = butlast ((deferred_list v)[i := last (deferred_list v)])"
    using assms(2) sinv_array(1) [OF assms(1)] by (rule deferred_list_removed)
  note rm = distinct_remove_last_into [OF sinv_array(3) [OF assms(1)] len, folded dl, unfolded nth]
  show set: "set (deferred_list (removed i v)) = set (deferred_list v) - {?p}" by (rule rm(2))
  have "resrc_wf (RXfer (x\<lparr>xdefer := NONE\<rparr>))" using sinv_heap [OF assms(1,3)] by simp
  then have up: "sinv (insert ?p Q) ?h v"
    by (intro sinv_upd_xfer [where h = h and x = x] sinv_mono [OF assms(1)])
      (simp_all add: assms(3) subset_insertI)
  have "array_ok ?h (removed i v)"
    using sinv_array [OF up] rm by (auto simp: array_ok_def)
  moreover have "flags_ok (Q - {?p}) ?h (removed i v)"
    using up rm(2) by (auto simp: sinv_def flags_ok_def)
  ultimately show "sinv (Q - {?p}) ?h (removed i v)"
    using up by (simp add: sinv_def tables_ok_def)
qed

text \<open>Adding and deleting transfers, timers and stored responses.\<close>

lemma xfer_addrs_upd [simp]:
  "xfer_addrs (h(p \<mapsto> RXfer x)) = insert p (xfer_addrs h)"
  "xfer_addrs (h(p \<mapsto> RResp r)) = xfer_addrs h - {p}"
  "xfer_addrs (h(p \<mapsto> RTimer t)) = xfer_addrs h - {p}"
  "xfer_addrs (h(p := None)) = xfer_addrs h - {p}"
  by (auto simp: xfer_addrs_def)

lemma timer_addrs_upd [simp]:
  "timer_addrs (h(p \<mapsto> RTimer t)) = insert p (timer_addrs h)"
  "timer_addrs (h(p \<mapsto> RResp r)) = timer_addrs h - {p}"
  "timer_addrs (h(p \<mapsto> RXfer x)) = timer_addrs h - {p}"
  "timer_addrs (h(p := None)) = timer_addrs h - {p}"
  by (auto simp: timer_addrs_def)

lemma not_in_addrs:
  "h p = None \<Longrightarrow> p \<notin> xfer_addrs h" "h p = None \<Longrightarrow> p \<notin> timer_addrs h"
  "h p = Some (RTimer t) \<Longrightarrow> p \<notin> xfer_addrs h" "h p = Some (RXfer x) \<Longrightarrow> p \<notin> timer_addrs h"
  "h p = Some (RResp r) \<Longrightarrow> p \<notin> xfer_addrs h" "h p = Some (RResp r) \<Longrightarrow> p \<notin> timer_addrs h"
  by (auto simp: xfer_addrs_def timer_addrs_def)

lemma hash_upd:
  "e \<noteq> p \<Longrightarrow> resrc_xfer_txnid (h(p := r)) e = resrc_xfer_txnid h e"
  "e \<noteq> p \<Longrightarrow> resrc_timer_txnid (h(p := r)) e = resrc_timer_txnid h e"
  by (simp_all add: resrc_xfer_txnid_def resrc_timer_txnid_def)

lemma hash_new [simp]:
  "resrc_xfer_txnid (h(p \<mapsto> RXfer x)) p = txnid x" "resrc_timer_txnid (h(p \<mapsto> RTimer t)) p = tm_txnid t"
  by (simp_all add: resrc_xfer_txnid_def resrc_timer_txnid_def)

lemma xfer_table_other:
  assumes "sinv Q h v" and "p \<notin> xfer_addrs h"
  shows "table_inv (resrc_xfer_txnid (h(p := r))) (xfers v)"
  by (rule table_inv_cong [OF sinv_tables(1) [OF assms(1)]])
    (use assms(2) sinv_tables(2) [OF assms(1)] in \<open>auto intro!: hash_upd\<close>)

lemma timer_table_other:
  assumes "sinv Q h v" and "p \<notin> timer_addrs h"
  shows "table_inv (resrc_timer_txnid (h(p := r))) (xfer_timers v)"
  by (rule table_inv_cong [OF sinv_tables(3) [OF assms(1)]])
    (use assms(2) sinv_tables(4) [OF assms(1)] in \<open>auto intro!: hash_upd\<close>)

lemma tables_new:
  assumes "sinv Q h v" and "h p = None"
  shows "table_inv (resrc_xfer_txnid (h(p := r))) (xfers v)"
    "table_inv (resrc_timer_txnid (h(p := r))) (xfer_timers v)"
  using assms not_in_addrs(1,2) by (auto intro: xfer_table_other timer_table_other)

text \<open>A stored response is in no table.\<close>

lemma sinv_resp:
  assumes "sinv Q h v" and "p \<notin> xfer_addrs h" and "p \<notin> timer_addrs h" and "p \<noteq> 0" and "resrc_wf (RResp r)"
  shows "sinv Q (h(p \<mapsto> RResp r)) v"
  using assms xfer_table_other [of Q h v p "Some (RResp r)"] timer_table_other [of Q h v p "Some (RResp r)"]
    heap_wf_upd [of h p "RResp r"]
  by (auto simp: sinv_defs)

lemma sinv_free_resp:
  assumes "sinv Q h v" and "p \<notin> xfer_addrs h" and "p \<notin> timer_addrs h"
  shows "sinv Q (h(p := None)) v"
  using assms xfer_table_other [of Q h v p None] timer_table_other [of Q h v p None] heap_wf_free [of h p] by (auto simp: sinv_defs)

text \<open>A new transfer whose slot is free, or taken.\<close>

lemma insert_new_xfer:
  assumes inv: "sinv Q h v" and new: "h p = None" "p \<noteq> 0" and wf: "resrc_wf (RXfer x)" "xdefer x = NONE"
    and free: "xfer_table_find (xfers v) (txnid x) = Some None"
  shows "\<exists>t'. xfer_table_insert (resrc_xfer_txnid (h(p \<mapsto> RXfer x))) (xfers v) p = Some (True, t') \<and>
    sinv Q (h(p \<mapsto> RXfer x)) (v\<lparr>xfers := t'\<rparr>) \<and> xfer_table_find t' (txnid x) = Some (Some p)"
proof -
  let ?h = "h(p \<mapsto> RXfer x)"
  note t = tables_new [OF inv new(1), of "Some (RXfer x)"]
  obtain t' where t': "xfer_table_insert (resrc_xfer_txnid ?h) (xfers v) p = Some (True, t')"
    "table_inv (resrc_xfer_txnid ?h) t'" "contents t' = {p} \<union> contents (xfers v)"
    "capacity t' = capacity (xfers v)"
    using insert_free_slot [OF t(1), of p] free by auto
  have "p \<notin> set (deferred_list v)"
    using sinv_array(4) [OF inv] not_in_addrs(1) [of h p] new(1) by auto
  moreover have "xfer_table_find t' (txnid x) = Some (Some p)"
    using tbl.insert_find [OF t(1) t'(1)] by simp
  moreover have "timer_addrs h - {p} = timer_addrs h"
    using not_in_addrs(2) [of h p] new(1) by auto
  ultimately show ?thesis
    using t' t inv new wf heap_wf_upd [of h p "RXfer x"] by (auto simp: sinv_defs)
qed

lemma insert_taken_xfer:
  assumes inv: "sinv Q h v" and new: "h p = None"
    and taken: "xfer_table_find (xfers v) (txnid x) \<noteq> Some None"
  shows "xfer_table_insert (resrc_xfer_txnid (h(p \<mapsto> RXfer x))) (xfers v) p = Some (False, xfers v)"
  using tbl.insert_taken [OF tables_new(1) [OF inv new, of "Some (RXfer x)"], of p] taken by simp

lemma insert_new_timer:
  assumes inv: "sinv Q h v" and new: "h p = None" "p \<noteq> 0" and wf: "resrc_wf (RTimer x)"
    and free: "xfer_table_find (xfer_timers v) (tm_txnid x) = Some None"
  shows "\<exists>t'. xfer_table_insert (resrc_timer_txnid (h(p \<mapsto> RTimer x))) (xfer_timers v) p = Some (True, t') \<and>
    sinv Q (h(p \<mapsto> RTimer x)) (v\<lparr>xfer_timers := t'\<rparr>)"
proof -
  let ?h = "h(p \<mapsto> RTimer x)"
  note t = tables_new [OF inv new(1), of "Some (RTimer x)"]
  obtain t' where t': "xfer_table_insert (resrc_timer_txnid ?h) (xfer_timers v) p = Some (True, t')"
    "table_inv (resrc_timer_txnid ?h) t'" "contents t' = {p} \<union> contents (xfer_timers v)"
    using insert_free_slot [OF t(2), of p] free by auto
  have "xfer_addrs h - {p} = xfer_addrs h"
    using not_in_addrs(1) [of h p] new(1) by auto
  then show ?thesis
    using t' t inv new wf heap_wf_upd [of h p "RTimer x"] by (auto simp: sinv_defs)
qed

lemma insert_taken_timer:
  assumes inv: "sinv Q h v" and new: "h p = None"
    and taken: "xfer_table_find (xfer_timers v) (tm_txnid x) \<noteq> Some None"
  shows "xfer_table_insert (resrc_timer_txnid (h(p \<mapsto> RTimer x))) (xfer_timers v) p = Some (False, xfer_timers v)"
  using tbl.insert_taken [OF tables_new(2) [OF inv new, of "Some (RTimer x)"], of p] taken by simp

text \<open>Deleting a transfer that is not in the deferred list, and a timer.\<close>

lemma erase_xfer_table:
  assumes inv: "sinv Q h v" and x: "h p = Some (RXfer x)" and out: "p \<notin> set (deferred_list v)"
  shows "\<exists>t'. xfer_table_erase (xfers v) (txnid x) = Some t' \<and> sinv (Q - {p}) (h(p := None)) (v\<lparr>xfers := t'\<rparr>) \<and>
    xfer_table_find t' (txnid x) = Some None"
proof -
  let ?h = "h(p := None)"
  have find: "xfer_table_find (xfers v) (txnid x) = Some (Some p)"
    using tbl.find_item [OF sinv_tables(1) [OF inv], of p] sinv_tables(2) [OF inv] x
    by (simp add: resrc_xfer_txnid_def)
  obtain t' where t': "xfer_table_erase (xfers v) (txnid x) = Some t'"
    "table_inv (resrc_xfer_txnid h) t'" "contents t' = contents (xfers v) - {p}"
    "capacity t' = capacity (xfers v)"
    using erase_slot [OF sinv_tables(1) [OF inv] find] by auto
  have found: "xfer_table_find t' (txnid x) = Some None"
    using tbl.erase_find [OF sinv_tables(1) [OF inv], of p "txnid x"] x t'(1) sinv_tables(2) [OF inv]
    by (auto simp: resrc_xfer_txnid_def)
  have "table_inv (resrc_xfer_txnid ?h) t'"
    using t'(2,3) by (rule_tac table_inv_cong) (auto simp: hash_upd)
  moreover have "table_inv (resrc_timer_txnid ?h) (xfer_timers v)"
    by (rule timer_table_other [OF inv]) (rule not_in_addrs(4) [of h, OF x])
  moreover have "timer_addrs h - {p} = timer_addrs h" using not_in_addrs(4) [of h p] x by auto
  ultimately show ?thesis
    using t' found inv out heap_wf_free [of h p] by (auto simp: sinv_defs)
qed

lemma erase_timer_table:
  assumes inv: "sinv Q h v" and x: "h p = Some (RTimer x)"
  shows "\<exists>t'. xfer_table_erase (xfer_timers v) (tm_txnid x) = Some t' \<and>
    sinv Q (h(p := None)) (v\<lparr>xfer_timers := t'\<rparr>)"
proof -
  let ?h = "h(p := None)"
  have find: "xfer_table_find (xfer_timers v) (tm_txnid x) = Some (Some p)"
    using tbl.find_item [OF sinv_tables(3) [OF inv], of p] sinv_tables(4) [OF inv] x
    by (simp add: resrc_timer_txnid_def)
  obtain t' where t': "xfer_table_erase (xfer_timers v) (tm_txnid x) = Some t'"
    "table_inv (resrc_timer_txnid h) t'" "contents t' = contents (xfer_timers v) - {p}"
    using erase_slot [OF sinv_tables(3) [OF inv] find] by auto
  have "table_inv (resrc_timer_txnid ?h) t'"
    using t'(2,3) by (rule_tac table_inv_cong) (auto simp: hash_upd)
  moreover have "table_inv (resrc_xfer_txnid ?h) (xfers v)"
    by (rule xfer_table_other [OF inv]) (rule not_in_addrs(3) [of h, OF x])
  moreover have "xfer_addrs h - {p} = xfer_addrs h" using not_in_addrs(3) [of h p] x by auto
  ultimately show ?thesis
    using t' inv heap_wf_free [of h p] by (auto simp: sinv_defs)
qed

section \<open>An example state\<close>

text \<open>A server with room for four transfers and one transfer at address 16, deferred as \<open>d\<close> says.
  The witnesses of the properties run the functions of the server on it.\<close>

definition example_xfer :: "deferral \<Rightarrow> resrc_xfer" where
  "example_xfer d =
     \<lparr>dest_fd = 5, xtag = XFER_RESRC_TAG, stat_fd = 6, cmd = PROT_CMD_SEND, txnid = 1,
      xfile = \<lparr>xf_size = 10, xf_fd = 7, xf_blksize = 4096\<rparr>, fio_ctx = 0, nbytes_left = 10,
      client_pid = 42, xdefer = d\<rparr>"

definition example_server :: "deferral \<Rightarrow> server" where
  "example_server d =
     \<lparr>poller = \<lparr>epollfd = 8, sigfd = 9, pevents = [], pnevents = 4\<rparr>,
      xfers = \<lparr>elems = [None, Some 16, None, None], capacity = 4, tsize = 1\<rparr>,
      xfer_timers = \<lparr>elems = [None, None, None, None], capacity = 4, tsize = 0\<rparr>,
      deferred_xfers = 16 # replicate 7 0, ndeferred_xfers = (if d = NONE then 0 else 1),
      next_txnid = 2, reqfd = 3, open_file_timeout_ms = 1000, srv_uid = 0\<rparr>"

definition example_state :: "deferral \<Rightarrow> sproc" where
  "example_state d =
     \<lparr>errno = 0, trace = [], pipe_c = 65536, heap = [16 \<mapsto> RXfer (example_xfer d)], srv = example_server d\<rparr>"

lemmas example_defs = example_state_def example_server_def example_xfer_def

lemma example_tables:
  "table_inv hash \<lparr>elems = [None :: addr option, None, None, None], capacity = 4, tsize = 0\<rparr>"
  "hash (a :: addr) \<in> {1, 5} \<Longrightarrow> table_inv hash \<lparr>elems = [None, Some (a :: addr), None, None], capacity = 4, tsize = 1\<rparr>"
proof -
  have four: "\<exists>k < 32. (4 :: size_t) = 2 ^ k" by (intro exI [of _ 2]) simp
  have e: "used ([None, None, None, None] :: addr option list) = {}"
    by (simp add: used_def nth_Cons split: nat.split)
  moreover have "used [None, Some (a :: addr), None, None] = {1}"
    using used_insert [of 1 "[None, None, None, None]" "a :: addr"] e by simp
  ultimately show "table_inv hash \<lparr>elems = [None, None, None, None], capacity = 4, tsize = 0\<rparr>"
    "hash (a :: addr) \<in> {1, 5} \<Longrightarrow> table_inv hash \<lparr>elems = [None, Some (a :: addr), None, None], capacity = 4, tsize = 1\<rparr>"
    using four by (auto simp: table_inv_def indexof_def less_Suc_eq)
qed

lemma example_inv: "server_inv (example_state d)"
  using example_tables(1) example_tables(2) [of _ 16]
  by (auto simp: server_inv_def sinv_defs heap_wf_def example_defs deferred_list_def contents_def
      xfer_addrs_def timer_addrs_def resrc_xfer_txnid_def cmd_defs)

end
