(* ===== verification/Sfd_Deferral.thy ===== *)
theory Sfd_Deferral
  imports Sfd_Invariant
begin

text \<open>
  Deferring, undeferring and deleting transfers (\<open>defer_xfer\<close>, \<open>undefer_xfer\<close>,
  \<open>delete_registered_xfer\<close> and \<open>delete_unregistered_xfer\<close> of \<open>impl/server.c\<close>): what each does to the
  state when the invariant holds, with the system calls it makes.
\<close>

section \<open>Rewriting rules\<close>

text \<open>A normal form for updates of the process state: \<open>errno\<close>, then \<open>heap\<close>, then \<open>srv\<close>.\<close>

lemma upd_commute [simp]:
  "(s :: 'm sproc_scheme)\<lparr>srv := v, heap := h\<rparr> = s\<lparr>heap := h, srv := v\<rparr>"
  "s\<lparr>srv := v, errno := e\<rparr> = s\<lparr>errno := e, srv := v\<rparr>"
  "(r :: 'n rproc_scheme)\<lparr>heap := h, errno := e\<rparr> = r\<lparr>errno := e, heap := h\<rparr>"
  by simp_all

lemma wp_mod_srv [wp_simps]: "wp E (mod_srv f) Q = (\<lambda>s. Q () (s\<lparr>srv := f (srv s)\<rparr>))"
  by (simp add: mod_srv_def wp_simps)

lemma wp_push_deferred [wp_simps]:
  "wp E (push_deferred p) Q = (\<lambda>s.
     if ndeferred_xfers (srv s) < length (deferred_xfers (srv s)) then Q () (s\<lparr>srv := appended p (srv s)\<rparr>)
     else E (Undefined ''deferred array overflow''))"
  by (auto simp: fun_eq_iff push_deferred_def wp_simps appended_def not_less)

lemma wp_find_xfer [wp_simps]:
  "wp E (find_xfer tx) Q = (\<lambda>s. case xfer_table_find (xfers (srv s)) tx of
     None \<Rightarrow> E (Undefined ''table'') | Some r \<Rightarrow> Q (case r of None \<Rightarrow> 0 | Some p \<Rightarrow> p) s)"
  by (auto simp: fun_eq_iff find_xfer_def wp_simps split: option.splits)

lemma wp_erase_xfer [wp_simps]:
  "wp E (erase_xfer tx) Q = (\<lambda>s. case xfer_table_erase (xfers (srv s)) tx of
     None \<Rightarrow> E (Undefined ''table'') | Some t' \<Rightarrow> Q () (s\<lparr>srv := (srv s)\<lparr>xfers := t'\<rparr>\<rparr>))"
  by (auto simp: fun_eq_iff erase_xfer_def wp_simps split: option.splits)

lemma wp_erase_timer [wp_simps]:
  "wp E (erase_timer tx) Q = (\<lambda>s. case xfer_table_erase (xfer_timers (srv s)) tx of
     None \<Rightarrow> E (Undefined ''table'') | Some t' \<Rightarrow> Q () (s\<lparr>srv := (srv s)\<lparr>xfer_timers := t'\<rparr>\<rparr>))"
  by (auto simp: fun_eq_iff erase_timer_def wp_simps split: option.splits)

lemma wp_insert_xfer [wp_simps]:
  "wp E (insert_xfer p) Q = (\<lambda>s. case xfer_table_insert (resrc_xfer_txnid (heap s)) (xfers (srv s)) p of
     None \<Rightarrow> E (Undefined ''table'') | Some (b, t') \<Rightarrow> Q b (s\<lparr>srv := (srv s)\<lparr>xfers := t'\<rparr>\<rparr>))"
  by (auto simp: fun_eq_iff insert_xfer_def wp_simps split: option.splits)

lemma wp_insert_timer [wp_simps]:
  "wp E (insert_timer p) Q = (\<lambda>s. case xfer_table_insert (resrc_timer_txnid (heap s)) (xfer_timers (srv s)) p of
     None \<Rightarrow> E (Undefined ''table'') | Some (b, t') \<Rightarrow> Q b (s\<lparr>srv := (srv s)\<lparr>xfer_timers := t'\<rparr>\<rparr>))"
  by (auto simp: fun_eq_iff insert_timer_def wp_simps split: option.splits)

section \<open>Deferring\<close>

text \<open>The state after a transfer has been marked, and listed where it was not yet.\<close>

definition defer_state :: "addr \<Rightarrow> resrc_xfer \<Rightarrow> deferral \<Rightarrow> 'm sproc_scheme \<Rightarrow> 'm sproc_scheme" where
  "defer_state p x d s = s\<lparr>heap := (heap s)(p \<mapsto> RXfer (x\<lparr>xdefer := d\<rparr>)),
     srv := (if xdefer x = NONE then appended p (srv s) else srv s)\<rparr>"

lemma defer_state_simps [simp]:
  "trace (defer_state p x d s) = trace s" "errno (defer_state p x d s) = errno s"
  "pipe_c (defer_state p x d s) = pipe_c s"
  "heap (defer_state p x d s) = (heap s)(p \<mapsto> RXfer (x\<lparr>xdefer := d\<rparr>))"
  "srv (defer_state p x d s) = (if xdefer x = NONE then appended p (srv s) else srv s)"
  by (simp_all add: defer_state_def)

lemma wp_defer_CANCEL:
  assumes "server_inv s" and "heap s p = Some (RXfer x)" and "xdefer x \<noteq> CANCEL"
  shows "wp E (defer_xfer p CANCEL) Q s = Q () (defer_state p x CANCEL s)"
proof (cases "xdefer x")
  case NONE
  have inv: "sinv {} (heap s) (srv s)" using assms(1) by (simp add: server_inv_def)
  have "p \<notin> set (deferred_list (srv s))" using sinv_flag [OF inv assms(2)] NONE by simp
  from sinv_room [OF inv assms(2) this] assms(2) NONE show ?thesis
    by (simp add: defer_xfer_def wp_simps defer_state_def)
qed (use assms in \<open>simp_all add: defer_xfer_def wp_simps defer_state_def\<close>)

lemma wp_defer_READY:
  assumes "sinv Q (heap s) (srv s)" and "heap s p = Some (RXfer x)" and "xdefer x = NONE"
    and "p \<notin> set (deferred_list (srv s))"
  shows "wp E (defer_xfer p READY) Q' s = Q' () (defer_state p x READY s)"
  using sinv_room [OF assms(1,2,4)] assms(2,3)
  by (simp add: defer_xfer_def wp_simps defer_state_def)

lemma defer_state_inv:
  assumes "server_inv s" and "heap s p = Some (RXfer x)" and "d \<noteq> NONE"
  shows "server_inv (defer_state p x d s)" "p \<in> set (deferred_list (srv (defer_state p x d s)))"
proof -
  have inv: "sinv {} (heap s) (srv s)" using assms(1) by (simp add: server_inv_def)
  have wf: "resrc_wf (RXfer (x\<lparr>xdefer := d\<rparr>))" using sinv_heap [OF inv assms(2)] by simp
  note flag = sinv_flag [OF inv assms(2)]
  show "server_inv (defer_state p x d s)"
    using flag sinv_defer_new [OF inv assms(2) _ assms(3)] sinv_upd_xfer [OF inv assms(2) wf] assms(3)
    by (auto simp: server_inv_def)
  show "p \<in> set (deferred_list (srv (defer_state p x d s)))"
    using flag sinv_room(2) [OF inv assms(2)] by (auto simp: deferred_list_appended)
qed

lemma wp_undefer_xfer:
  assumes "ndeferred_xfers (srv s) \<le> length (deferred_xfers (srv s))" and "i < ndeferred_xfers (srv s)"
    and "heap s (deferred_xfers (srv s) ! i) = Some (RXfer x)"
  shows "wp E (undefer_xfer i) Q s =
     Q i (s\<lparr>heap := (heap s)(deferred_xfers (srv s) ! i \<mapsto> RXfer (x\<lparr>xdefer := NONE\<rparr>)),
            srv := removed i (srv s)\<rparr>)"
  using assms by (auto simp: undefer_xfer_def wp_simps removed_def)

section \<open>Deleting\<close>

text \<open>The descriptors a transfer closes, in order.\<close>

definition all_fd_closes :: "resrc_xfer \<Rightarrow> syscall list" where
  "all_fd_closes x = SysClose (stat_fd x) #
     (if dest_fd x \<noteq> stat_fd x \<and> dest_fd x \<ge> 0 then [SysClose (dest_fd x)] else []) @
     [SysClose (xf_fd (xfile x))]"

text \<open>The state after a list of calls whose results are ignored.\<close>

primrec calls_state :: "os \<Rightarrow> syscall list \<Rightarrow> 'm proc_scheme \<Rightarrow> 'm proc_scheme" where
  "calls_state os [] s = s"
| "calls_state os (c # cs) s = calls_state os cs (call_state os c s)"

lemma call_state_commute [simp]:
  "call_state os c ((s :: 'm rproc_scheme)\<lparr>heap := h\<rparr>) = (call_state os c s)\<lparr>heap := h\<rparr>"
  "call_state os c ((r :: 'n sproc_scheme)\<lparr>srv := v\<rparr>) = (call_state os c r)\<lparr>srv := v\<rparr>"
  by (simp_all add: call_state_def)

lemma calls_state_simps [simp]:
  "pipe_c (calls_state os cs (u :: 'u uproc_scheme)) = pipe_c u"
  "heap (calls_state os cs (r :: 'r rproc_scheme)) = heap r"
  "srv (calls_state os cs (q :: 'q sproc_scheme)) = srv q"
  "calls_state os cs (r\<lparr>heap := h\<rparr>) = (calls_state os cs r)\<lparr>heap := h\<rparr>"
  "calls_state os cs (q\<lparr>srv := v\<rparr>) = (calls_state os cs q)\<lparr>srv := v\<rparr>"
  by (induction cs arbitrary: u r q) simp_all

lemma trace_calls_state: "\<exists>h. trace (calls_state os cs s) = trace s @ h \<and> map fst h = cs"
proof (induction cs arbitrary: s)
  case (Cons c cs)
  from Cons.IH [of "call_state os c s"] obtain h where
    "trace (calls_state os cs (call_state os c s)) = trace (call_state os c s) @ h" "map fst h = cs" by blast
  then show ?case by simp
qed simp

lemma calls_since_calls_state [simp]: "calls_since s (calls_state os cs s) = cs"
  using trace_calls_state [of os cs s] by auto

lemma calls_since_upd [simp]:
  "calls_since s ((t :: 'm rproc_scheme)\<lparr>heap := h\<rparr>) = calls_since s t"
  "calls_since (s' :: 'm sproc_scheme) (t'\<lparr>srv := v\<rparr>) = calls_since s' t'"
  "calls_since s'' (t''\<lparr>errno := e\<rparr>) = calls_since s'' t''"
  by (simp_all add: calls_since_def)

lemma wp_delete_file_fd:
  assumes "p \<noteq> 0" and "heap s p = Some (RXfer x)" and "xtag x = XFER_RESRC_TAG"
  shows "wp E (delete_xfer_and_close_file_fd os p) Q s =
    Q () (calls_state os [SysClose (xf_fd (xfile x))] (s\<lparr>heap := (heap s)(p := None)\<rparr>))"
  using assms by (simp add: delete_xfer_and_close_file_fd_def wp_simps wp_xfer_delete)

lemma wp_delete_all_fds:
  assumes "p \<noteq> 0" and "heap s p = Some (RXfer x)" and "xtag x = XFER_RESRC_TAG"
  shows "wp E (delete_xfer_and_close_all_fds os p) Q s =
    Q () (calls_state os (all_fd_closes x) (s\<lparr>heap := (heap s)(p := None)\<rparr>))"
  using assms by (simp add: delete_xfer_and_close_all_fds_def wp_simps wp_delete_file_fd all_fd_closes_def)

text \<open>The state after the deletion of a transfer: its memory is free and so is its slot.\<close>

definition deleted_state :: "addr \<Rightarrow> resrc_xfer \<Rightarrow> 'm sproc_scheme \<Rightarrow> 'm sproc_scheme" where
  "deleted_state p x s = s\<lparr>heap := (heap s)(p := None),
     srv := (srv s)\<lparr>xfers := the (xfer_table_erase (xfers (srv s)) (txnid x))\<rparr>\<rparr>"

lemma deleted_state_simps [simp]:
  "heap (deleted_state p x s) = (heap s)(p := None)" "trace (deleted_state p x s) = trace s"
  "errno (deleted_state p x s) = errno s" "pipe_c (deleted_state p x s) = pipe_c s"
  "deferred_list (srv (deleted_state p x s)) = deferred_list (srv s)"
  "deferred_xfers (srv (deleted_state p x s)) = deferred_xfers (srv s)"
  "ndeferred_xfers (srv (deleted_state p x s)) = ndeferred_xfers (srv s)"
  "next_txnid (srv (deleted_state p x s)) = next_txnid (srv s)"
  "poller (srv (deleted_state p x s)) = poller (srv s)"
  "xfer_timers (srv (deleted_state p x s)) = xfer_timers (srv s)"
  "calls_since u (deleted_state p x s) = calls_since u s"
  by (simp_all add: deleted_state_def)

lemma sinv_deleted:
  assumes "sinv Q (heap s) (srv s)" and "heap s p = Some (RXfer x)" and "p \<notin> set (deferred_list (srv s))"
  shows "sinv (Q - {p}) (heap (deleted_state p x s)) (srv (deleted_state p x s))"
    "xfer_table_find (xfers (srv (deleted_state p x s))) (txnid x) = Some None"
  using erase_xfer_table [OF assms] by (auto simp: deleted_state_def)

lemma wp_delete_unregistered:
  assumes "sinv Q (heap s) (srv s)" and "heap s p = Some (RXfer x)" and "p \<notin> set (deferred_list (srv s))"
  shows "wp E (delete_unregistered_xfer os p) R s =
    R () (calls_state os [SysClose (xf_fd (xfile x))] (deleted_state p x s))"
  using erase_xfer_table [OF assms] sinv_heap [OF assms(1,2)] assms(2)
  by (auto simp: delete_unregistered_xfer_def wp_simps wp_delete_file_fd deleted_state_def)

lemma wp_delete_registered:
  assumes "sinv Q (heap s) (srv s)" and "heap s p = Some (RXfer x)" and "p \<notin> set (deferred_list (srv s))"
  shows "wp E (delete_registered_xfer os p) R s =
    R () (calls_state os (SysEpollDel (epollfd (poller (srv s))) (dest_fd x) # all_fd_closes x) (deleted_state p x s))"
  using erase_xfer_table [OF assms] sinv_heap [OF assms(1,2)] assms(2)
  by (auto simp: delete_registered_xfer_def deregister_xfer_def wp_simps wp_delete_all_fds deleted_state_def Let_def)

section \<open>Properties\<close>

text \<open>Cancelling a live transfer that is not cancelled yet never fails: no assertion fires and the
  array of deferred transfers never overruns its allocation, whatever transfers are already listed.
  Afterwards the transfer is marked, listed exactly once, every other resource is as it was, no
  system call was made and the invariant of the server holds.\<close>

theorem cancel_never_overruns:
  assumes "server_inv s" and "heap s p = Some (RXfer x)" and "xdefer x \<noteq> CANCEL"
  shows "wp never (defer_xfer p CANCEL) (\<lambda>_ t. server_inv t \<and>
      heap t = (heap s)(p \<mapsto> RXfer (x\<lparr>xdefer := CANCEL\<rparr>)) \<and> trace t = trace s \<and>
      distinct (deferred_list (srv t)) \<and>
      set (deferred_list (srv t)) = insert p (set (deferred_list (srv s)))) s"
proof -
  have inv: "sinv {} (heap s) (srv s)" using assms(1) by (simp add: server_inv_def)
  have t: "server_inv (defer_state p x CANCEL s)" by (rule defer_state_inv [OF assms(1,2)]) simp
  then have "distinct (deferred_list (srv (defer_state p x CANCEL s)))"
    using sinv_array(3) by (auto simp: server_inv_def)
  moreover have "set (deferred_list (srv (defer_state p x CANCEL s))) = insert p (set (deferred_list (srv s)))"
    using sinv_flag [OF inv assms(2)] sinv_room(2) [OF inv assms(2)] by (auto simp: deferred_list_appended)
  ultimately show ?thesis
    using t by (simp add: wp_defer_CANCEL [OF assms])
qed

theorem cancel_never_overruns_witness:
  "wp never (defer_xfer 16 CANCEL) (\<lambda>_ t. server_inv t \<and>
      heap t = (heap (example_state NONE))(16 \<mapsto> RXfer ((example_xfer NONE)\<lparr>xdefer := CANCEL\<rparr>)) \<and>
      trace t = trace (example_state NONE) \<and> distinct (deferred_list (srv t)) \<and>
      set (deferred_list (srv t)) = insert 16 (set (deferred_list (srv (example_state NONE))))) (example_state NONE)"
  by (rule cancel_never_overruns [OF example_inv]) (simp_all add: example_defs)

text \<open>Cancelling a transfer twice before the deferred transfers are processed has no effect, or it
  stops the server: the assertion fails exactly when every live transfer is in the deferred list.\<close>

theorem double_cancel:
  assumes "server_inv s" and "heap s p = Some (RXfer x)" and "xdefer x = CANCEL"
  shows "defer_xfer p CANCEL s =
    (if set (deferred_list (srv s)) = xfer_addrs (heap s)
     then Fail (Aborted ''xfer->defer == READY || srv->ndeferred_xfers < srv->xfers->size'')
     else Ok () s)"
proof -
  have inv: "sinv {} (heap s) (srv s)" using assms(1) by (simp add: server_inv_def)
  have n: "ndeferred_xfers (srv s) = card (set (deferred_list (srv s)))"
    using sinv_array(3,5) [OF inv] by (simp add: distinct_card)
  have "ndeferred_xfers (srv s) < unat (tsize (xfers (srv s))) \<longleftrightarrow>
      set (deferred_list (srv s)) \<noteq> xfer_addrs (heap s)"
    using sinv_array(4) [OF inv] sinv_size [OF inv] n
    by (metis card_mono card_subset_eq nat_less_le)
  moreover have "(heap s)(p \<mapsto> RXfer (x\<lparr>xdefer := CANCEL\<rparr>)) = heap s"
    using assms(2,3) by (cases x) (auto simp: fun_eq_iff)
  ultimately show ?thesis
    using assms(2,3)
    by (auto simp: defer_xfer_def bindP_def seqP_def get_xfer_def getP_def assertP_def whenP_def ret_def
        upd_xfer_def modP_def)
qed

theorem double_cancel_witness:
  "defer_xfer 16 CANCEL (example_state CANCEL) =
     Fail (Aborted ''xfer->defer == READY || srv->ndeferred_xfers < srv->xfers->size'')"
proof -
  have "set (deferred_list (srv (example_state CANCEL))) = xfer_addrs (heap (example_state CANCEL))"
    by (simp add: example_defs deferred_list_def xfer_addrs_def)
  then show ?thesis
    using double_cancel [OF example_inv, of CANCEL 16 "example_xfer CANCEL"]
    by (simp add: example_state_def example_xfer_def)
qed

text \<open>Removing an entry from the deferred list removes that transfer and no other: the last entry
  takes its place, the list stays free of duplicates, the transfer's flag is cleared, and the
  invariant holds again even where the flag had been cleared before.\<close>

theorem undefer_removes_one:
  assumes "sinv {deferred_xfers (srv s) ! i} (heap s) (srv s)" and "i < ndeferred_xfers (srv s)"
    and "deferred_xfers (srv s) ! i = p" and "heap s p = Some (RXfer x)"
  shows "wp never (undefer_xfer i) (\<lambda>j t. j = i \<and> server_inv t \<and>
      heap t = (heap s)(p \<mapsto> RXfer (x\<lparr>xdefer := NONE\<rparr>)) \<and> trace t = trace s \<and>
      set (deferred_list (srv t)) = set (deferred_list (srv s)) - {p} \<and>
      ndeferred_xfers (srv t) + 1 = ndeferred_xfers (srv s)) s"
  using sinv_remove [OF assms(1,2)] sinv_array(1) [OF assms(1)] assms(2-4)
  by (simp add: wp_undefer_xfer server_inv_def)

theorem undefer_removes_one_witness:
  "wp never (undefer_xfer 0) (\<lambda>j t. j = 0 \<and> server_inv t \<and>
      heap t = (heap (example_state READY))(16 \<mapsto> RXfer ((example_xfer READY)\<lparr>xdefer := NONE\<rparr>)) \<and>
      trace t = trace (example_state READY) \<and>
      set (deferred_list (srv t)) = set (deferred_list (srv (example_state READY))) - {16} \<and>
      ndeferred_xfers (srv t) + 1 = ndeferred_xfers (srv (example_state READY))) (example_state READY)"
  by (rule undefer_removes_one)
    (use example_inv [of READY] in \<open>auto simp: server_inv_def intro: sinv_mono\<close>, simp_all add: example_defs)

text \<open>C30: Deleting a registered transfer that is not in the list of deferred transfers releases everything it holds: the poller is told to forget
  the destination, then the status channel, the destination (when it is another descriptor) and the
  file are closed, each once; the memory is freed, the slot of the table is free again, and the
  invariant of the server holds.\<close>

theorem delete_registered_releases:
  assumes "server_inv s" and "heap s p = Some (RXfer x)" and "xdefer x = NONE"
  shows "wp never (delete_registered_xfer os p) (\<lambda>_ t. server_inv t \<and> heap t = (heap s)(p := None) \<and>
      calls_since s t = SysEpollDel (epollfd (poller (srv s))) (dest_fd x) # SysClose (stat_fd x) #
        (if dest_fd x \<noteq> stat_fd x \<and> dest_fd x \<ge> 0 then [SysClose (dest_fd x)] else []) @
        [SysClose (xf_fd (xfile x))] \<and>
      xfer_table_find (xfers (srv t)) (txnid x) = Some None \<and>
      unat (tsize (xfers (srv t))) + 1 = unat (tsize (xfers (srv s)))) s"
proof -
  have inv: "sinv {} (heap s) (srv s)" using assms(1) by (simp add: server_inv_def)
  have out: "p \<notin> set (deferred_list (srv s))" using sinv_flag [OF inv assms(2)] assms(3) by simp
  note d = sinv_deleted [OF inv assms(2) out]
  have "p \<in> xfer_addrs (heap s)" using assms(2) by simp
  then have "unat (tsize (xfers (srv (deleted_state p x s)))) + 1 = unat (tsize (xfers (srv s)))"
    using sinv_size [OF inv] sinv_size [OF d(1)] card_Suc_Diff1 [of "xfer_addrs (heap s)" p] by simp
  with d show ?thesis
    unfolding wp_delete_registered [OF inv assms(2) out]
    using calls_since_calls_state [of "deleted_state p x s"]
    by (simp add: server_inv_def all_fd_closes_def calls_since_def)
qed

theorem delete_registered_releases_witness:
  "wp never (delete_registered_xfer quiet_os 16) (\<lambda>_ t. server_inv t \<and>
      heap t = (heap (example_state NONE))(16 := None) \<and>
      calls_since (example_state NONE) t = SysEpollDel (epollfd (poller (srv (example_state NONE)))) 5 #
        SysClose 6 # [SysClose 5] @ [SysClose 7] \<and>
      xfer_table_find (xfers (srv t)) 1 = Some None \<and>
      unat (tsize (xfers (srv t))) + 1 = unat (tsize (xfers (srv (example_state NONE))))) (example_state NONE)"
  using delete_registered_releases [OF example_inv, of NONE 16 "example_xfer NONE" quiet_os]
  by (simp add: example_defs)

end
