(* ===== verification/Sfd_Transfer.thy ===== *)
theory Sfd_Transfer
  imports Sfd_Deferral
begin

text \<open>
  Moving the data of a transfer (\<open>transfer_file\<close> of \<open>impl/server.c\<close> and the functions it calls).
  For every behaviour of the kernel it is memory safe, and this theory shows what it may change.
\<close>

section \<open>What may go wrong\<close>

text \<open>Failed assertions stop the server in a defined way. The only undefined operation the server can
  reach from a state that satisfies the invariant is the null pointer that \<open>send_terminal_resp\<close>
  registers when no memory is left.\<close>

definition tolerated :: "failure \<Rightarrow> bool" where
  "tolerated e = (case e of Undefined m \<Rightarrow> m = ''syspoll_register(NULL)'' | _ \<Rightarrow> True)"

lemma tolerated_simps [simp]:
  "tolerated (Aborted m)" "tolerated Running" "tolerated (Undefined m) = (m = ''syspoll_register(NULL)'')"
  by (simp_all add: tolerated_def)

section \<open>The capacity of a pipe\<close>

lemma fill_pipe_frame:
  fixes s :: "'m sproc_scheme"
  assumes "\<And>t. heap t = heap s \<Longrightarrow> srv t = srv s \<Longrightarrow> Q () t"
  shows "wp tolerated (fill_pipe n os fd k) Q s"
  using assms
proof (induction n arbitrary: s)
  case 0
  then show ?case by (simp add: fill_pipe.simps [of 0] wp_simps)
next
  case (Suc n)
  show ?case
    by (subst fill_pipe.simps) (auto simp: wp_simps intro!: Suc)
qed

lemma pipe_capacity_known: "pipe_c s \<noteq> 0 \<Longrightarrow> wp E (pipe_capacity os) Q s = Q (pipe_c s) s"
  by (simp add: pipe_capacity_def wp_simps)

lemma pipe_capacity_frame:
  fixes s :: "'m sproc_scheme"
  assumes "\<And>c t. heap t = heap s \<Longrightarrow> srv t = srv s \<Longrightarrow> Q c t"
  shows "wp tolerated (pipe_capacity os) Q s"
  unfolding pipe_capacity_def sfd_pipe_def
  by (auto simp: wp_simps split: prod.splits intro!: fill_pipe_frame assms)

lemma read_write_size_known:
  "pipe_c s \<noteq> 0 \<Longrightarrow> wp E (read_write_size os x tot) Q s = Q (write_size x (pipe_c s) tot) s"
  by (auto simp: read_write_size_def Let_def wp_simps pipe_capacity_known write_size_def SFD_MIN_def)

lemma read_write_size_frame:
  fixes s :: "'m sproc_scheme"
  assumes "\<And>c t. heap t = heap s \<Longrightarrow> srv t = srv s \<Longrightarrow> Q c t"
  shows "wp tolerated (read_write_size os x tot) Q s"
  unfolding read_write_size_def Let_def
  by (auto simp: wp_simps intro!: pipe_capacity_frame assms)

section \<open>The call that moves the data\<close>

definition move_call :: "resrc_xfer \<Rightarrow> size_t \<Rightarrow> syscall" where
  "move_call x w = (if cmd x = PROT_CMD_READ then SysSplice (xf_fd (xfile x)) (dest_fd x) w
     else SysSendfile (dest_fd x) (xf_fd (xfile x)) w)"

lemma wp_move_data [wp_simps]:
  "wp E (move_data os x w) Q = (\<lambda>s. if 0 < w
     then Q (fst (sys os (trace s) (move_call x w))) (call_state os (move_call x w) s)
     else E (Aborted ''nbytes > 0''))"
  by (auto simp: fun_eq_iff move_data_def move_call_def file_splice_def file_sendfile_def wp_simps)

section \<open>Terminal responses\<close>

text \<open>Everything but the transfer is kept; a response to be retried may have been stored.\<close>

definition others_kept :: "addr \<Rightarrow> heap_t \<Rightarrow> heap_t \<Rightarrow> bool" where
  "others_kept p h h' \<longleftrightarrow> (\<forall>q. q \<noteq> p \<longrightarrow> h' q = h q \<or> (h q = None \<and> (\<exists>r. h' q = Some (RResp r))))"

lemma others_kept_refl [simp]: "others_kept p h h" "others_kept p h (h(p := r))"
  by (simp_all add: others_kept_def)

lemma others_kept_trans: "others_kept p h h' \<Longrightarrow> others_kept p h' h'' \<Longrightarrow> others_kept p h h''"
  unfolding others_kept_def by (metis option.distinct(1))

definition resp_stored :: "heap_t \<Rightarrow> heap_t \<Rightarrow> bool" where
  "resp_stored h h' \<longleftrightarrow>
     h' = h \<or> (\<exists>q r. q \<noteq> 0 \<and> h q = None \<and> resrc_wf (RResp r) \<and> h' = h(q \<mapsto> RResp r))"

lemma resp_stored_refl [simp]: "resp_stored h h"
  by (simp add: resp_stored_def)

lemma resp_storedI:
  "q \<noteq> 0 \<Longrightarrow> h q = None \<Longrightarrow> resrc_wf (RResp r) \<Longrightarrow> resp_stored h (h(q \<mapsto> RResp r))"
  unfolding resp_stored_def by blast

lemma sinv_resp_stored: "sinv Q h v \<Longrightarrow> resp_stored h h' \<Longrightarrow> sinv Q h' v"
  using sinv_resp [of Q h v] not_in_addrs(1,2) unfolding resp_stored_def by blast

lemma others_kept_stored: "resp_stored h h' \<Longrightarrow> others_kept p h h'"
  by (auto simp: resp_stored_def others_kept_def split: if_splits)

lemma resp_stored_get: "resp_stored h h' \<Longrightarrow> h p = Some r \<Longrightarrow> h' p = Some r"
  by (auto simp: resp_stored_def)

lemma send_terminal_resp_frame:
  assumes "heap s p = Some (RXfer x)" and "length pdu \<le> 16"
  shows "wp tolerated (send_terminal_resp os p pdu) (\<lambda>_ t. resp_stored (heap s) (heap t) \<and> srv t = srv s) s"
  using assms
  by (auto simp: send_terminal_resp_def wp_simps wp_send_pdu new_resrc_resp_def Let_def fun_upd_idem
      dest!: malloc_okD intro!: resp_storedI)

section \<open>One round\<close>

definition same_xfer :: "resrc_xfer \<Rightarrow> resrc_xfer \<Rightarrow> bool" where
  "same_xfer x x' \<longleftrightarrow> x' = x\<lparr>nbytes_left := nbytes_left x', xdefer := xdefer x'\<rparr>"

lemma same_xfer_refl [simp]: "same_xfer x x" "same_xfer x (x\<lparr>nbytes_left := n\<rparr>)" "same_xfer x (x\<lparr>xdefer := d\<rparr>)"
  by (simp_all add: same_xfer_def)

lemma same_xfer_trans: "same_xfer x y \<Longrightarrow> same_xfer y z \<Longrightarrow> same_xfer x z"
  unfolding same_xfer_def by (cases x; cases y; cases z) simp

lemma same_xferD:
  "same_xfer x x' \<Longrightarrow> txnid x' = txnid x \<and> cmd x' = cmd x \<and> stat_fd x' = stat_fd x \<and> dest_fd x' = dest_fd x \<and>
     xfile x' = xfile x \<and> xtag x' = xtag x \<and> client_pid x' = client_pid x"
  unfolding same_xfer_def by (cases x; cases x') simp

text \<open>What a call of \<open>transfer_file\<close> leaves behind, by its result.\<close>

definition transfer_post ::
  "addr \<Rightarrow> resrc_xfer \<Rightarrow> 'm sproc_scheme \<Rightarrow> bool \<Rightarrow> 'm sproc_scheme \<Rightarrow> bool" where
  "transfer_post p x s r t \<longleftrightarrow>
     (\<exists>x'. heap t p = Some (RXfer x') \<and> same_xfer x x' \<and> others_kept p (heap s) (heap t) \<and>
        sinv {p} (heap t) (srv t) \<and>
        (if r then (xdefer x' = NONE \<and> srv t = srv s) \<or>
              (xdefer x' = READY \<and> srv t = (if xdefer x = NONE then appended p (srv s) else srv s))
         else xdefer x' = xdefer x \<and> srv t = srv s))"

lemma upd_xfer_sinv:
  assumes "sinv Q (heap s) (srv s)" and "heap s p = Some (RXfer x)" and "same_xfer x x'"
    and "p \<in> Q \<or> xdefer x' = xdefer x"
  shows "sinv Q ((heap s)(p \<mapsto> RXfer x')) (srv s)"
  using assms sinv_heap [OF assms(1,2)] same_xferD [OF assms(3)]
  by (intro sinv_upd_xfer [OF assms(1,2)]) auto

lemma resp_stored_post:
  "sinv {p} (heap s) (srv s) \<Longrightarrow> heap s p = Some (RXfer x) \<Longrightarrow> resp_stored (heap s) (heap t) \<Longrightarrow> srv t = srv s \<Longrightarrow>
   transfer_post p x s False t"
  unfolding transfer_post_def
  using sinv_resp_stored [of "{p}" "heap s" "srv s" "heap t"] resp_stored_get [of "heap s" "heap t" p]
    others_kept_stored [of "heap s" "heap t" p] by auto

lemma transfer_failed_post:
  assumes "sinv {p} (heap s) (srv s)" and "heap s p = Some (RXfer x)"
  shows "wp tolerated (transfer_failed os p e) (\<lambda>r t. \<not> r \<and> transfer_post p x s r t) s"
  using assms
  by (auto simp: transfer_failed_def has_stat_channel_def wp_simps
      intro!: wp_mono [OF send_terminal_resp_frame] resp_stored_post)

lemma transfer_finished_post:
  assumes "sinv {p} (heap s) (srv s)" and "heap s p = Some (RXfer x)"
  shows "wp tolerated (transfer_finished os p) (\<lambda>r t. \<not> r \<and> transfer_post p x s r t) s"
  using assms
  by (auto simp: transfer_finished_def has_stat_channel_def wp_simps
      intro!: wp_mono [OF send_terminal_resp_frame] resp_stored_post)

lemma transfer_blocked_post:
  assumes "sinv {p} (heap s) (srv s)" and "heap s p = Some (RXfer x)"
  shows "wp tolerated (transfer_blocked os p tot) (\<lambda>r t. transfer_post p x s r t) s"
  using assms upd_xfer_sinv [OF assms, of "x\<lparr>xdefer := NONE\<rparr>"]
  by (auto simp: transfer_blocked_def has_stat_channel_def send_xfer_stat_def wp_simps wp_send_pdu transfer_post_def)

lemma transfer_post_start:
  assumes "transfer_post p x1 s1 b t" and "heap s1 = (heap s)(p \<mapsto> RXfer x1)" and "srv s1 = srv s"
    and "same_xfer x x1" and "xdefer x1 = xdefer x"
  shows "transfer_post p x s b t"
proof -
  have kept: "others_kept p (heap s) (heap s1)" using assms(2) by simp
  obtain x' where x': "heap t p = Some (RXfer x')" "same_xfer x1 x'" "others_kept p (heap s1) (heap t)"
    "sinv {p} (heap t) (srv t)" "if b then (xdefer x' = NONE \<and> srv t = srv s1) \<or>
        (xdefer x' = READY \<and> srv t = (if xdefer x1 = NONE then appended p (srv s1) else srv s1))
      else xdefer x' = xdefer x1 \<and> srv t = srv s1"
    using assms(1) unfolding transfer_post_def by blast
  have "same_xfer x x'" "others_kept p (heap s) (heap t)"
    using same_xfer_trans [OF assms(4) x'(2)] others_kept_trans [OF kept x'(3)] .
  with x' assms(3,5) show ?thesis unfolding transfer_post_def by auto
qed

text \<open>Only the count of the bytes left has changed.\<close>

definition counted :: "addr \<Rightarrow> resrc_xfer \<Rightarrow> 'm sproc_scheme \<Rightarrow> 'm sproc_scheme \<Rightarrow> bool" where
  "counted p x s t \<longleftrightarrow> (\<exists>n. heap t = (heap s)(p \<mapsto> RXfer (x\<lparr>nbytes_left := n\<rparr>)) \<and> srv t = srv s)"

lemma countedI:
  "heap t = (heap s)(p \<mapsto> RXfer (x\<lparr>nbytes_left := n\<rparr>)) \<Longrightarrow> srv t = srv s \<Longrightarrow> counted p x s t"
  unfolding counted_def by blast

lemma counted_same:
  "heap t = heap s \<Longrightarrow> srv t = srv s \<Longrightarrow> heap s p = Some (RXfer x) \<Longrightarrow> counted p x s t"
  by (rule countedI [where n = "nbytes_left x"]) (simp_all add: fun_upd_idem)

definition round_post ::
  "addr \<Rightarrow> resrc_xfer \<Rightarrow> 'm sproc_scheme \<Rightarrow> bool + size_t \<Rightarrow> 'm sproc_scheme \<Rightarrow> bool" where
  "round_post p x s r t = (case r of Inl b \<Rightarrow> transfer_post p x s b t
     | Inr tot \<Rightarrow> counted p x s t)"

lemma round_post_simps [simp]:
  "round_post p x s (Inl b) t = transfer_post p x s b t"
  "round_post p x s (Inr tot) t = counted p x s t"
  by (simp_all add: round_post_def)

lemma server_inv_but: "server_inv s \<Longrightarrow> sinv {p} (heap s) (srv s)"
  by (auto simp: server_inv_def intro: sinv_mono)

text \<open>The end of a round after a successful write.\<close>

lemma round_written:
  assumes "server_inv s" and "heap s p = Some (RXfer x)" and "xdefer x \<noteq> CANCEL"
    and "counted p x s u"
  shows "wp tolerated (transfer_finished os p) (transfer_post p x s) u"
    and "wp tolerated (transfer_blocked os p tot) (transfer_post p x s) u"
    and "xdefer x = READY \<Longrightarrow> transfer_post p x s True u"
    and "xdefer x = NONE \<Longrightarrow> wp tolerated (defer_xfer p READY) (\<lambda>_. transfer_post p x s True) u"
proof -
  obtain n where u: "heap u = (heap s)(p \<mapsto> RXfer (x\<lparr>nbytes_left := n\<rparr>))" "srv u = srv s"
    using assms(4) by (auto simp: counted_def)
  let ?x = "x\<lparr>nbytes_left := n\<rparr>"
  have inv: "sinv {} (heap s) (srv s)" using assms(1) by (simp add: server_inv_def)
  have invu: "sinv {} (heap u) (srv u)"
    using upd_xfer_sinv [OF inv assms(2), of ?x] u by simp
  then have but: "sinv {p} (heap u) (srv u)" by (rule sinv_mono) simp
  have xu: "heap u p = Some (RXfer ?x)" using u by simp
  have start: "transfer_post p x s b t" if "transfer_post p ?x u b t" for b t
    using transfer_post_start [OF that u] by simp
  show "wp tolerated (transfer_finished os p) (transfer_post p x s) u"
    by (rule wp_mono [OF transfer_finished_post [OF but xu]]) (use start in auto)
  show "wp tolerated (transfer_blocked os p tot) (transfer_post p x s) u"
    by (rule wp_mono [OF transfer_blocked_post [OF but xu]]) (simp add: start)
  show "transfer_post p x s True u" if "xdefer x = READY"
    using that xu but u by (auto simp: transfer_post_def)
  assume none: "xdefer x = NONE"
  then have out: "p \<notin> set (deferred_list (srv u))"
    using sinv_flag [OF invu xu] by simp
  have "sinv {p} (heap (defer_state p ?x READY u)) (srv (defer_state p ?x READY u))"
    using sinv_defer_new [OF invu xu out, of READY] none by (auto intro: sinv_mono)
  then have "transfer_post p ?x u True (defer_state p ?x READY u)"
    using none by (auto simp: transfer_post_def)
  then show "wp tolerated (defer_xfer p READY) (\<lambda>_. transfer_post p x s True) u"
    by (subst wp_defer_READY [OF invu xu _ out]) (simp_all add: none start)
qed

lemma transfer_round_post:
  assumes "server_inv s" and "heap s p = Some (RXfer x)" and "xdefer x \<noteq> CANCEL"
  shows "wp tolerated (transfer_round os p tot) (round_post p x s) s"
proof -
  have same: "(heap s)(p \<mapsto> RXfer x) = heap s" using assms(2) by (simp add: fun_upd_idem)
  have failed: "wp tolerated (transfer_failed os p e) (transfer_post p x s) u"
    if "heap u = heap s" "srv u = srv s" for u e
  proof (rule wp_mono [OF transfer_failed_post [of p u x]])
    show "sinv {p} (heap u) (srv u)" "heap u p = Some (RXfer x)"
      using server_inv_but [OF assms(1)] assms(2) that by simp_all
    show "transfer_post p x s b t" if "\<not> b \<and> transfer_post p x u b t" for b t
      using that transfer_post_start [of p x u b t s x] same \<open>heap u = heap s\<close> \<open>srv u = srv s\<close> by auto
  qed
  have ready: "xdefer x = NONE \<or> xdefer x = READY" using assms(3) by (cases "xdefer x") auto
  show ?thesis
    unfolding transfer_round_def
    using assms(2) ready
    by (auto simp: wp_simps Let_def intro!: read_write_size_frame pipe_capacity_frame failed
        round_written [OF assms])
      (simp_all add: counted_same, (rule countedI; simp)+)
qed

lemma transfer_loop_post:
  assumes "server_inv s" and "heap s p = Some (RXfer x)" and "xdefer x \<noteq> CANCEL"
  shows "wp tolerated (transfer_loop n os p tot) (transfer_post p x s) s"
  using assms
proof (induction n arbitrary: s x tot)
  case 0
  then show ?case by (simp add: transfer_loop.simps [of 0] wp_simps)
next
  case (Suc n)
  have "wp tolerated (transfer_loop n os p tot') (transfer_post p x s) t"
    if c: "counted p x s t" for t tot'
  proof -
    obtain k where t: "heap t = (heap s)(p \<mapsto> RXfer (x\<lparr>nbytes_left := k\<rparr>))" "srv t = srv s"
      using c by (auto simp: counted_def)
    show ?thesis
    proof (rule wp_mono [OF Suc.IH])
      show "server_inv t"
        using upd_xfer_sinv [of "{}" s p x "x\<lparr>nbytes_left := k\<rparr>"] Suc.prems t by (simp add: server_inv_def)
      show "heap t p = Some (RXfer (x\<lparr>nbytes_left := k\<rparr>))" using t by simp
      show "transfer_post p x s b u" if "transfer_post p (x\<lparr>nbytes_left := k\<rparr>) t b u" for b u
        using transfer_post_start [OF that t] by simp
    qed (use Suc.prems in simp)
  qed
  then show ?case
    by (subst transfer_loop.simps)
      (auto simp: wp_simps round_post_def split: sum.splits intro!: wp_mono [OF transfer_round_post [OF Suc.prems]])
qed

lemma transfer_file_post:
  assumes "server_inv s" and "heap s p = Some (RXfer x)" and "xdefer x \<noteq> CANCEL"
  shows "wp tolerated (transfer_file os p) (transfer_post p x s) s"
  using transfer_loop_post [OF assms] server_inv_but [OF assms(1), of p] assms(2)
  by (auto simp: transfer_file_def wp_simps transfer_post_def)

lemma sinv_restore:
  assumes "sinv {p} h v" and "h p = Some (RXfer x)" and "xdefer x \<noteq> NONE \<longleftrightarrow> p \<in> set (deferred_list v)"
  shows "sinv {} h v"
proof -
  have "flags_ok {} h v"
    unfolding flags_ok_def
  proof (intro allI impI)
    fix q y assume "h q = Some (RXfer y)"
    then show "(xdefer y \<noteq> NONE) = (q \<in> set (deferred_list v))"
      using assms sinv_flag [OF assms(1), of q y] by (cases "q = p") auto
  qed
  with assms(1) show ?thesis by (simp add: sinv_def)
qed

text \<open>The invariant holds again unless the transfer was in the list and left it half-way.\<close>

lemma transfer_post_inv:
  assumes "transfer_post p x s r t" and "server_inv s" and "heap s p = Some (RXfer x)"
    and "heap t p = Some (RXfer x')" and "\<not> (r \<and> xdefer x = READY \<and> xdefer x' = NONE)"
    and "xdefer x \<noteq> CANCEL"
  shows "server_inv t"
proof -
  have inv: "sinv {} (heap s) (srv s)" using assms(2) by (simp add: server_inv_def)
  have "xdefer x' \<noteq> NONE \<longleftrightarrow> p \<in> set (deferred_list (srv t))"
    using assms sinv_flag [OF inv assms(3)] sinv_room(2) [OF inv assms(3)]
    by (cases "xdefer x") (auto simp: transfer_post_def deferred_list_appended split: if_splits)
  with assms(1,4) sinv_restore [of p "heap t" "srv t" x'] show ?thesis
    by (auto simp: transfer_post_def server_inv_def)
qed

section \<open>Properties\<close>

text \<open>Moving data is memory safe and keeps the server's state consistent, however the kernel
  answers: from a state that satisfies the invariant, a turn of a live transfer that is not
  cancelled reads no freed memory and overruns no array (the one exception is the null pointer
  registered when no memory is left for a response). It changes no other transfer or timer; the
  transfer keeps its identity, descriptors and file; and the invariant holds again, except that a
  deferred transfer whose destination is full waits in the list to be removed.\<close>

theorem transfer_file_safe:
  assumes "server_inv s" and "heap s p = Some (RXfer x)" and "xdefer x \<noteq> CANCEL"
  shows "wp tolerated (transfer_file os p) (\<lambda>r t.
      (\<exists>x'. heap t p = Some (RXfer x') \<and> x' = x\<lparr>nbytes_left := nbytes_left x', xdefer := xdefer x'\<rparr> \<and>
         (xdefer x = READY \<and> xdefer x' = NONE \<and> r \<and> sinv {p} (heap t) (srv t) \<and> p \<in> set (deferred_list (srv t)) \<or>
          server_inv t)) \<and>
      (\<forall>q. q \<noteq> p \<longrightarrow> heap t q = heap s q \<or> heap s q = None \<and> (\<exists>r. heap t q = Some (RResp r))) \<and>
      xfers (srv t) = xfers (srv s) \<and> xfer_timers (srv t) = xfer_timers (srv s)) s"
proof (rule wp_mono [OF transfer_file_post [OF assms]])
  fix r t assume post: "transfer_post p x s r t"
  then obtain x' where x': "heap t p = Some (RXfer x')" "same_xfer x x'" "others_kept p (heap s) (heap t)"
    "sinv {p} (heap t) (srv t)"
    by (auto simp: transfer_post_def)
  have "xdefer x = READY \<longrightarrow> p \<in> set (deferred_list (srv s))"
    using assms(1,2) sinv_flag [of "{}" "heap s" "srv s" p x] by (auto simp: server_inv_def)
  then have "xdefer x = READY \<and> xdefer x' = NONE \<and> r \<and> sinv {p} (heap t) (srv t) \<and> p \<in> set (deferred_list (srv t)) \<or>
      server_inv t"
    using transfer_post_inv [OF post assms(1,2) x'(1) _ assms(3)] x' post
    by (auto simp: transfer_post_def split: if_splits)
  moreover have "xfers (srv t) = xfers (srv s) \<and> xfer_timers (srv t) = xfer_timers (srv s)"
    using post by (auto simp: transfer_post_def split: if_splits)
  ultimately show "(\<exists>x'. heap t p = Some (RXfer x') \<and> x' = x\<lparr>nbytes_left := nbytes_left x', xdefer := xdefer x'\<rparr> \<and>
         (xdefer x = READY \<and> xdefer x' = NONE \<and> r \<and> sinv {p} (heap t) (srv t) \<and> p \<in> set (deferred_list (srv t)) \<or>
          server_inv t)) \<and>
      (\<forall>q. q \<noteq> p \<longrightarrow> heap t q = heap s q \<or> heap s q = None \<and> (\<exists>r. heap t q = Some (RResp r))) \<and>
      xfers (srv t) = xfers (srv s) \<and> xfer_timers (srv t) = xfer_timers (srv s)"
    using x' unfolding same_xfer_def others_kept_def by blast
qed

theorem transfer_file_safe_witness:
  "wp tolerated (transfer_file quiet_os 16) (\<lambda>r t. xfers (srv t) = xfers (srv (example_state NONE))) (example_state NONE)"
  by (rule wp_mono [OF transfer_file_safe [OF example_inv, of NONE 16 "example_xfer NONE"]])
    (simp_all add: example_defs)

end
