(* ===== verification/Sfd_Requests.thy ===== *)
theory Sfd_Requests
  imports Sfd_Transfer
begin

text \<open>
  Handling requests: \<open>add_xfer\<close>, \<open>add_open_file\<close>, \<open>get_open_file\<close> and \<open>process_request\<close> of
  \<open>impl/server.c\<close>. Each keeps the invariant of the server; the properties say what a request
  allocates, what it releases again when it fails, and which transfers a client may touch.
\<close>

section \<open>Frames\<close>

lemma file_open_read_frame:
  fixes s :: "'m sproc_scheme"
  assumes "\<And>r t. heap t = heap s \<Longrightarrow> srv t = srv s \<Longrightarrow> Q r t"
  shows "wp E (file_open_read os name offset len) Q s"
  by (auto simp: file_open_read_def stat_file_def lock_file_def wp_simps Let_def intro!: assms)

lemma send_frame:
  fixes s :: "'m sproc_scheme"
  assumes "\<And>r t. heap t = heap s \<Longrightarrow> srv t = srv s \<Longrightarrow> Q r t"
  shows "wp tolerated (send_file_info os fd tx info) Q s" "wp tolerated (send_xfer_stat os fd n) Q s"
    "wp tolerated (send_xfer_err os fd e) Q s" "wp tolerated (send_req_err os fd e) Q s"
  by (auto simp: send_defs wp_simps wp_send_pdu intro!: assms)

section \<open>Adding a transfer\<close>

text \<open>The structure \<open>add_xfer\<close> creates.\<close>

definition new_xfer :: "byte \<Rightarrow> resrc_xfer_file \<Rightarrow> pid_t \<Rightarrow> fd \<Rightarrow> fd \<Rightarrow> size_t \<Rightarrow> resrc_xfer" where
  "new_xfer c file pid stfd dfd tx =
     \<lparr>dest_fd = dfd, xtag = XFER_RESRC_TAG, stat_fd = stfd, cmd = c, txnid = tx, xfile = file,
      fio_ctx = 0, nbytes_left = xf_size file, client_pid = pid, xdefer = NONE\<rparr>"

lemma new_xfer_simps [simp]:
  "txnid (new_xfer c f pid stfd dfd tx) = tx" "xdefer (new_xfer c f pid stfd dfd tx) = NONE"
  "nbytes_left (new_xfer c f pid stfd dfd tx) = xf_size f" "xfile (new_xfer c f pid stfd dfd tx) = f"
  "client_pid (new_xfer c f pid stfd dfd tx) = pid" "stat_fd (new_xfer c f pid stfd dfd tx) = stfd"
  "dest_fd (new_xfer c f pid stfd dfd tx) = dfd" "cmd (new_xfer c f pid stfd dfd tx) = c"
  "xtag (new_xfer c f pid stfd dfd tx) = XFER_RESRC_TAG"
  by (simp_all add: new_xfer_def)

lemma srv_commute [simp]:
  "(v :: server)\<lparr>next_txnid := n, xfers := t\<rparr> = v\<lparr>xfers := t, next_txnid := n\<rparr>"
  by simp

text \<open>A request fits the descriptors it comes with.\<close>

definition fds_fit :: "prot_request \<Rightarrow> fd \<Rightarrow> fd \<Rightarrow> bool" where
  "fds_fit req stfd dfd \<longleftrightarrow> rq_cmd req \<in> {PROT_CMD_READ, PROT_CMD_SEND, PROT_CMD_FILE_OPEN} \<and>
     (rq_cmd req = PROT_CMD_READ \<longrightarrow> dfd = stfd) \<and> (rq_cmd req = PROT_CMD_FILE_OPEN \<longrightarrow> dfd = -1)"

text \<open>Nothing but the counter of transaction ids has changed.\<close>

definition unchanged :: "'m sproc_scheme \<Rightarrow> 'm sproc_scheme \<Rightarrow> bool" where
  "unchanged s t \<longleftrightarrow> heap t = heap s \<and> (srv t = srv s \<or> srv t = (srv s)\<lparr>next_txnid := next_txnid (srv s) + 1\<rparr>)"

lemma unchanged_inv: "unchanged s t \<Longrightarrow> server_inv s \<Longrightarrow> server_inv t"
  by (auto simp: unchanged_def server_inv_def)

text \<open>A transfer has been stored at \<open>p\<close>.\<close>

definition stored ::
  "byte \<Rightarrow> resrc_xfer_file \<Rightarrow> pid_t \<Rightarrow> fd \<Rightarrow> fd \<Rightarrow> 'm sproc_scheme \<Rightarrow> addr \<Rightarrow> 'm sproc_scheme \<Rightarrow> bool" where
  "stored c f pid stfd dfd s p t \<longleftrightarrow>
     heap s p = None \<and> p \<noteq> 0 \<and>
     heap t = (heap s)(p \<mapsto> RXfer (new_xfer c f pid stfd dfd (next_txnid (srv s)))) \<and>
     (\<exists>t'. srv t = (srv s)\<lparr>xfers := t', next_txnid := next_txnid (srv s) + 1\<rparr> \<and>
        xfer_table_find t' (next_txnid (srv s)) = Some (Some p))"

lemma store_xfer_post:
  assumes "server_inv s" and wf: "resrc_wf (RXfer (new_xfer c f pid stfd dfd (next_txnid (srv s))))"
  shows "wp E (store_xfer os c f pid stfd dfd info) (\<lambda>r t. server_inv t \<and>
      (case r of None \<Rightarrow> unchanged s t
       | Some (p, i) \<Rightarrow> i = info \<and> stored c f pid stfd dfd s p t)) s"
proof -
  let ?x = "new_xfer c f pid stfd dfd (next_txnid (srv s))"
  let ?p = "malloc_addr os SIZEOF_XFER s"
  have inv: "sinv {} (heap s) (srv s)" using assms(1) by (simp add: server_inv_def)
  show ?thesis
  proof (cases "malloc_ok os SIZEOF_XFER s")
    case False
    then show ?thesis
      using assms(1) by (simp add: store_xfer_def wp_simps Let_def unchanged_def server_inv_def)
  next
    case True
    from malloc_okD [OF this] have new: "heap s ?p = None" "?p \<noteq> 0" by auto
    show ?thesis
    proof (cases "xfer_table_find (xfers (srv s)) (txnid ?x) = Some None")
      case free: True
      have "xdefer ?x = NONE" by (simp add: new_xfer_def)
      then obtain t' where "xfer_table_insert (resrc_xfer_txnid ((heap s)(?p \<mapsto> RXfer ?x))) (xfers (srv s)) ?p = Some (True, t')"
          "sinv {} ((heap s)(?p \<mapsto> RXfer ?x)) ((srv s)\<lparr>xfers := t'\<rparr>)" "xfer_table_find t' (txnid ?x) = Some (Some ?p)"
        using insert_new_xfer [OF inv new wf _ free] by blast
      then show ?thesis
        using True new by (auto simp: store_xfer_def wp_simps Let_def new_xfer_def [symmetric] server_inv_def stored_def)
    next
      case taken: False
      from insert_taken_xfer [OF inv new(1) this] show ?thesis
        using True new assms(1)
        by (simp add: store_xfer_def wp_simps Let_def unchanged_def server_inv_def wp_delete_file_fd new_xfer_def
            fun_upd_idem)
    qed
  qed
qed

text \<open>What a successful \<open>add_xfer\<close> leaves: the size is the length asked for, or what the file holds
  beyond the offset.\<close>

definition added ::
  "prot_request \<Rightarrow> pid_t \<Rightarrow> fd \<Rightarrow> fd \<Rightarrow> 'm sproc_scheme \<Rightarrow> addr \<Rightarrow> fio_stat \<Rightarrow> 'm sproc_scheme \<Rightarrow> bool" where
  "added req pid stfd dfd s p info t \<longleftrightarrow>
     (\<exists>f. stored (rq_cmd req) f pid stfd dfd s p t \<and> fs_size info = xf_size f \<and>
        (rq_len req \<noteq> 0 \<longrightarrow> xf_size f = rq_len req))"

definition add_post ::
  "prot_request \<Rightarrow> pid_t \<Rightarrow> fd \<Rightarrow> fd \<Rightarrow> 'm sproc_scheme \<Rightarrow> (addr \<times> fio_stat) option \<Rightarrow> 'm sproc_scheme \<Rightarrow> bool" where
  "add_post req pid stfd dfd s r t \<longleftrightarrow> server_inv t \<and>
     (case r of None \<Rightarrow> unchanged s t | Some (p, info) \<Rightarrow> added req pid stfd dfd s p info t)"

lemma unchanged_cong: "heap u = heap s \<Longrightarrow> srv u = srv s \<Longrightarrow> unchanged u = unchanged s"
  by (simp add: unchanged_def fun_eq_iff)

lemma stored_cong: "heap u = heap s \<Longrightarrow> srv u = srv s \<Longrightarrow> stored c f pid a b u = stored c f pid a b s"
  by (simp add: stored_def fun_eq_iff)

lemma add_xfer_post:
  assumes "server_inv s" and "fds_fit req stfd dfd"
  shows "wp E (add_xfer os req pid stfd dfd) (add_post req pid stfd dfd s) s"
proof -
  have cmd: "rq_cmd req = PROT_CMD_READ \<or> rq_cmd req = PROT_CMD_SEND \<or> rq_cmd req = PROT_CMD_FILE_OPEN"
    using assms(2) by (auto simp: fds_fit_def)
  have store: "wp E (store_xfer os (rq_cmd req) f pid stfd dfd info) (add_post req pid stfd dfd s) u"
    if u: "heap u = heap s" "srv u = srv s" and f: "fs_size info = xf_size f" "rq_len req \<noteq> 0 \<longrightarrow> xf_size f = rq_len req"
    for u f info
  proof (rule wp_mono [OF store_xfer_post])
    show "server_inv u" using assms(1) u by (simp add: server_inv_def)
    show "resrc_wf (RXfer (new_xfer (rq_cmd req) f pid stfd dfd (next_txnid (srv u))))"
      using assms(2) by (auto simp: fds_fit_def)
    fix r t assume "server_inv t \<and> (case r of None \<Rightarrow> unchanged u t
       | Some (p, i) \<Rightarrow> i = info \<and> stored (rq_cmd req) f pid stfd dfd u p t)"
    then show "add_post req pid stfd dfd s r t"
      unfolding add_post_def added_def unchanged_cong [OF u] stored_cong [OF u] using f
      by (auto split: option.splits)
  qed
  have fail: "add_post req pid stfd dfd s None u" if "heap u = heap s" "srv u = srv s" for u
    using assms(1) that by (simp add: add_post_def unchanged_def server_inv_def)
  show ?thesis
    unfolding add_xfer_def wp_seqP wp_assertP if_P [OF cmd]
    by (auto simp: wp_simps Let_def word_greater_zero_iff split: option.splits
        intro!: file_open_read_frame store fail)
qed

text \<open>The calls of \<open>add_xfer\<close>: a failure has closed whatever it opened, a success keeps the file open
  and the range asked for lies inside the file.\<close>

definition leak_free :: "byte list \<Rightarrow> history \<Rightarrow> bool" where
  "leak_free name h \<longleftrightarrow>
     (\<forall>fd. fd \<noteq> -1 \<longrightarrow> (SysOpen name, fd) \<in> set h \<longrightarrow> SysClose fd \<in> set (map fst h))"

definition range_ok :: "prot_request \<Rightarrow> size_t \<Rightarrow> size_t \<Rightarrow> bool" where
  "range_ok req fsize nbytes \<longleftrightarrow>
     (if rq_len req = 0 then nbytes = fsize - rq_offset req else nbytes = rq_len req) \<and>
     (unat (rq_offset req) + unat (rq_len req) < 2 ^ 64 \<longrightarrow>
        unat (rq_offset req) + unat nbytes \<le> unat fsize)"

definition add_calls ::
  "os \<Rightarrow> prot_request \<Rightarrow> 'm sproc_scheme \<Rightarrow> (addr \<times> fio_stat) option \<Rightarrow> 'm sproc_scheme \<Rightarrow> bool" where
  "add_calls os req s r t \<longleftrightarrow> (\<exists>h. trace t = trace s @ h \<and>
     (let name = cstr (case rq_filename req of None \<Rightarrow> [] | Some m \<Rightarrow> m)
      in case r of None \<Rightarrow> leak_free name h
         | Some (p, info) \<Rightarrow> \<exists>fd x. heap t p = Some (RXfer x) \<and> xf_fd (xfile x) = fd \<and> fd \<noteq> -1 \<and>
             hd h = (SysOpen name, fd) \<and> SysClose fd \<notin> set (map fst h) \<and>
             range_ok req (st_size (os_stat os (trace s @ [hd h]) fd)) (nbytes_left x)))"

definition store_calls ::
  "byte \<Rightarrow> resrc_xfer_file \<Rightarrow> pid_t \<Rightarrow> fd \<Rightarrow> fd \<Rightarrow> 'm sproc_scheme \<Rightarrow> (addr \<times> fio_stat) option \<Rightarrow> 'm sproc_scheme \<Rightarrow> bool" where
  "store_calls c f pid stfd dfd s r t \<longleftrightarrow>
     (\<exists>h. trace t = trace s @ h \<and> (\<forall>nm fd. (SysOpen nm, fd) \<notin> set h) \<and>
        (case r of None \<Rightarrow> SysClose (xf_fd f) \<in> set (map fst h)
         | Some (p, i) \<Rightarrow> (\<forall>fd. SysClose fd \<notin> set (map fst h)) \<and>
             heap t p = Some (RXfer (new_xfer c f pid stfd dfd (next_txnid (srv s))))))"

lemma store_xfer_calls:
  assumes "server_inv s"
  shows "wp E (store_xfer os c f pid stfd dfd info) (store_calls c f pid stfd dfd s) s"
proof -
  let ?x = "new_xfer c f pid stfd dfd (next_txnid (srv s))"
  let ?p = "malloc_addr os SIZEOF_XFER s"
  have inv: "sinv {} (heap s) (srv s)" using assms by (simp add: server_inv_def)
  show ?thesis
  proof (cases "malloc_ok os SIZEOF_XFER s")
    case False
    then show ?thesis by (simp add: store_xfer_def wp_simps Let_def store_calls_def)
  next
    case True
    from malloc_okD [OF this] have new: "heap s ?p = None" "?p \<noteq> 0" by auto
    then have "table_inv (resrc_xfer_txnid ((heap s)(?p \<mapsto> RXfer ?x))) (xfers (srv s))"
      using tables_new(1) [OF inv] by blast
    then obtain b t' where "xfer_table_insert (resrc_xfer_txnid ((heap s)(?p \<mapsto> RXfer ?x))) (xfers (srv s)) ?p = Some (b, t')"
      by (meson insert_free_slot tbl.insert_taken)
    then show ?thesis
      using True new
      by (cases b) (simp_all add: store_xfer_def wp_simps Let_def new_xfer_def wp_delete_file_fd store_calls_def)
  qed
qed

lemma range_ok_nbytes:
  assumes "\<not> fsize < rq_offset req + rq_len req"
  shows "range_ok req fsize (if 0 < rq_len req then rq_len req else fsize - rq_offset req)"
proof (cases "rq_len req = 0")
  case True
  with assms have "unat (fsize - rq_offset req) = unat fsize - unat (rq_offset req)" "unat (rq_offset req) \<le> unat fsize"
    by (auto simp: not_less word_le_nat_alt unat_sub)
  with True show ?thesis by (simp add: range_ok_def)
next
  case False
  then have "(if 0 < rq_len req then rq_len req else fsize - rq_offset req) = rq_len req"
    by (simp add: word_greater_zero_iff)
  moreover have "unat (rq_offset req + rq_len req) = unat (rq_offset req) + unat (rq_len req)"
    if "unat (rq_offset req) + unat (rq_len req) < 2 ^ 64"
    using that by (simp add: unat_word_ariths)
  ultimately show ?thesis
    using assms False by (auto simp: range_ok_def not_less word_le_nat_alt)
qed

lemma open_kept_once:
  assumes "open_kept name off len fd h" and "(SysOpen nm, fd') \<in> set h"
  shows "fd' = fd"
proof (cases h)
  case (Cons e g)
  then have "SysOpen nm \<notin> set (map fst g)" using assms(1) by (simp add: open_kept_def)
  then have "(SysOpen nm, fd') \<notin> set g" by force
  with assms Cons show ?thesis by (auto simp: open_kept_def)
qed (use assms in simp)

lemma add_xfer_calls:
  assumes "server_inv s" and "fds_fit req stfd dfd"
  shows "wp E (add_xfer os req pid stfd dfd) (add_calls os req s) s"
proof -
  let ?name = "case rq_filename req of None \<Rightarrow> [] | Some m \<Rightarrow> m"
  have cmd: "rq_cmd req = PROT_CMD_READ \<or> rq_cmd req = PROT_CMD_SEND \<or> rq_cmd req = PROT_CMD_FILE_OPEN"
    using assms(2) by (auto simp: fds_fit_def)
  have full: "add_calls os req s None (s\<lparr>errno := EMFILE\<rparr>)"
    by (simp add: add_calls_def leak_free_def)
  have failed: "add_calls os req s None t" if "open_outcome os ?name off len s None t" for t off len
  proof -
    from that obtain h where h: "trace t = trace s @ h" "open_closed (cstr ?name) h"
      using open_refused_closed by (auto simp: open_outcome_def)
    have "leak_free (cstr ?name) h"
      using h(2) by (force simp: open_closed_def leak_free_def)
    with h(1) show ?thesis by (simp add: add_calls_def)
  qed
  have refused: "add_calls os req s None u"
    if "trace u = trace s @ h @ g" "open_kept (cstr ?name) off len fd h" "SysClose fd \<in> set (map fst g)"
      "\<forall>nm fd. (SysOpen nm, fd) \<notin> set g" for u h fd g off len
  proof -
    have "leak_free (cstr ?name) (h @ g)"
      using open_kept_once [OF that(2)] that(3,4) unfolding leak_free_def by auto
    with that(1) show ?thesis by (simp add: add_calls_def)
  qed
  have store: "wp E (store_xfer os (rq_cmd req) \<lparr>xf_size = n, xf_fd = fd, xf_blksize = b\<rparr> pid stfd dfd info) (add_calls os req s) u"
    if u: "trace u = trace s @ h" "heap u = heap s" "srv u = srv s" and h: "open_kept (cstr ?name) off len fd h"
      and n: "range_ok req (st_size (os_stat os (trace s @ [hd h]) fd)) n" for u h fd n b info off len
  proof (rule wp_mono [OF store_xfer_calls])
    show "server_inv u" using assms(1) u by (simp add: server_inv_def)
    let ?f = "\<lparr>xf_size = n, xf_fd = fd, xf_blksize = b\<rparr>"
    fix r t assume "store_calls (rq_cmd req) ?f pid stfd dfd u r t"
    then obtain g where g: "trace t = trace s @ h @ g" "\<forall>nm fd. (SysOpen nm, fd) \<notin> set g"
      "case r of None \<Rightarrow> SysClose (xf_fd ?f) \<in> set (map fst g)
       | Some (p, i) \<Rightarrow> (\<forall>fd. SysClose fd \<notin> set (map fst g)) \<and>
           heap t p = Some (RXfer (new_xfer (rq_cmd req) ?f pid stfd dfd (next_txnid (srv u))))"
      unfolding store_calls_def using u(1) by auto
    show "add_calls os req s r t"
    proof (cases r)
      case None
      with g refused [OF g(1) h] show ?thesis by simp
    next
      case (Some pi)
      with g h n show ?thesis
        unfolding add_calls_def Let_def
        by (intro exI [of _ "h @ g"]) (auto simp: open_kept_def split: prod.splits)
    qed
  qed
  define name where "name = ?name"
  note refused = refused [folded name_def] and store = store [folded name_def] and failed = failed [folded name_def]
  have closed: "add_calls os req s None ((call_state os (SysClose fd) t)\<lparr>errno := e\<rparr>)"
    if "open_outcome os name (rq_offset req) (rq_len req) s (Some (fd, st)) t" for fd st t e
    using that by (auto simp: open_outcome_def intro!: refused)
  have kept: "wp E (store_xfer os (rq_cmd req) \<lparr>xf_size = n, xf_fd = fd, xf_blksize = b\<rparr> pid stfd dfd info) (add_calls os req s) t"
    if "open_outcome os name (rq_offset req) (rq_len req) s (Some (fd, st)) t" "heap t = heap s" "srv t = srv s"
      "\<not> fs_size st < rq_offset req + rq_len req"
      "n = (if 0 < rq_len req then rq_len req else fs_size st - rq_offset req)" for fd st t n b info
    using that range_ok_nbytes [OF that(4)] by (auto simp: open_outcome_def intro!: store)
  have opened: "wp E (file_open_read os name (rq_offset req) (rq_len req))
      (\<lambda>r t. open_outcome os name (rq_offset req) (rq_len req) s r t \<and> heap t = heap s \<and> srv t = srv s) s"
    by (intro wp_conj file_open_read_outcome file_open_read_frame) simp_all
  show ?thesis
    unfolding add_xfer_def wp_seqP wp_assertP if_P [OF cmd] name_def [symmetric]
    by (auto simp: wp_simps full Let_def split: option.splits
        intro!: wp_mono [OF opened] closed kept elim: failed)
qed

section \<open>Opening a file\<close>

lemma sinv_upd_timer:
  assumes "sinv Q h v" and "h p = Some (RTimer x)" and "tm_tag x' = tm_tag x" and "tm_txnid x' = tm_txnid x"
  shows "sinv Q (h(p \<mapsto> RTimer x')) v"
proof -
  have addrs: "xfer_addrs (h(p \<mapsto> RTimer x')) = xfer_addrs h" "timer_addrs (h(p \<mapsto> RTimer x')) = timer_addrs h"
    using assms(2) by (auto simp: xfer_addrs_def timer_addrs_def)
  have hash: "resrc_xfer_txnid (h(p \<mapsto> RTimer x')) = resrc_xfer_txnid h"
    "resrc_timer_txnid (h(p \<mapsto> RTimer x')) = resrc_timer_txnid h"
    using assms(2,4) by (auto simp: resrc_xfer_txnid_def resrc_timer_txnid_def fun_eq_iff)
  have "heap_wf (h(p \<mapsto> RTimer x'))"
    using assms(1,3) sinv_heap [OF assms(1,2)] by (simp add: sinv_def heap_wf_upd)
  with assms show ?thesis
    unfolding sinv_defs addrs hash by (auto split: if_splits)
qed

text \<open>The first error exit: the transfer is deleted again.\<close>

lemma open_fail1:
  assumes "server_inv s" and "heap s p = Some (RXfer x)" and "xdefer x = NONE"
    and "\<And>t. server_inv t \<Longrightarrow> heap t = (heap s)(p := None) \<Longrightarrow> Q None t"
  shows "wp E (seqP (PRESERVE_ERRNO (delete_unregistered_xfer os p)) (ret None)) Q s"
proof -
  have inv: "sinv {} (heap s) (srv s)" using assms(1) by (simp add: server_inv_def)
  have out: "p \<notin> set (deferred_list (srv s))" using sinv_flag [OF inv assms(2)] assms(3) by simp
  show ?thesis
    using assms(4) sinv_deleted [OF inv assms(2) out]
    by (simp add: wp_simps wp_delete_unregistered [OF inv assms(2) out] server_inv_def)
qed

text \<open>The second: the timer, which is in no table, is deleted before.\<close>

lemma open_fail2:
  assumes "heap s tp = Some (RTimer tm)" and "resrc_wf (RTimer tm)" and "tp \<noteq> 0" and "sinv {} ((heap s)(tp := None)) (srv s)"
    and "heap s p = Some (RXfer x)" and "xdefer x = NONE"
    and "\<And>t. server_inv t \<Longrightarrow> heap t = (heap s)(tp := None, p := None) \<Longrightarrow> Q None t"
  shows "wp E (seqP (PRESERVE_ERRNO (timer_delete os tp))
     (seqP (PRESERVE_ERRNO (delete_unregistered_xfer os p)) (ret None))) Q s"
proof -
  let ?u = "(call_state os (SysClose (tm_ident tm)) s)\<lparr>errno := errno s, heap := (heap s)(tp := None)\<rparr>"
  have "tp \<noteq> p" using assms(1,5) by auto
  moreover have "wp E (seqP (PRESERVE_ERRNO (timer_delete os tp)) m) Q s = wp E m Q ?u" for m
    using assms(1-3) by (simp add: wp_seqP wp_PRESERVE_ERRNO wp_timer_delete)
  ultimately show ?thesis
    using assms(4-7) by (simp only:) (rule open_fail1 [where x = x]; simp add: server_inv_def)
qed

lemma wp_syspoll_timer:
  assumes "heap s tp = Some (RTimer tm)"
    and "\<And>ok u i. srv u = srv s \<Longrightarrow> heap u = (heap s)(tp \<mapsto> RTimer (tm\<lparr>tm_ident := i\<rparr>)) \<Longrightarrow> Q ok u"
  shows "wp E (syspoll_timer os pl tp millis) Q (s :: 'm sproc_scheme)"
proof -
  have same: "Q ok u" if "srv u = srv s" "heap u = heap s" for ok u
    using assms(2) [of u "tm_ident tm" ok] that assms(1) by (simp add: fun_upd_idem)
  have upd: "Q ok u" if "srv u = srv s" "heap u = (heap s)(tp \<mapsto> RTimer (tm\<lparr>tm_ident := i\<rparr>))" for ok u i
    using assms(2) that .
  show ?thesis
    using assms(1) by (auto simp: syspoll_timer_def wp_simps Let_def intro: same upd)
qed

definition new_timer :: "int \<Rightarrow> size_t \<Rightarrow> addr \<Rightarrow> resrc_timer" where
  "new_timer i tx p = \<lparr>tm_ident = i, tm_tag = TIMER_RESRC_TAG, tm_txnid = tx, tm_xfer_addr = p\<rparr>"

definition timer_post ::
  "addr \<Rightarrow> resrc_xfer \<Rightarrow> fio_stat \<Rightarrow> 'm sproc_scheme \<Rightarrow> (addr \<times> fio_stat) option \<Rightarrow> 'm sproc_scheme \<Rightarrow> bool" where
  "timer_post p x info s r t \<longleftrightarrow> server_inv t \<and>
     (case r of None \<Rightarrow> heap t = (heap s)(p := None)
      | Some (tp, i) \<Rightarrow> i = info \<and> heap s tp = None \<and>
          (\<exists>id. heap t = (heap s)(tp \<mapsto> RTimer (new_timer id (txnid x) p))))"

text \<open>The third error exit: the timer is taken out of its table first.\<close>

lemma open_fail3:
  assumes "server_inv s" and "heap s tp = Some (RTimer tm)" and "heap s p = Some (RXfer x)" and "xdefer x = NONE"
    and "\<And>t. server_inv t \<Longrightarrow> heap t = (heap s)(tp := None, p := None) \<Longrightarrow> Q None t"
  shows "wp E (bindP (get_timer tp) (\<lambda>tm. seqP (PRESERVE_ERRNO (erase_timer (tm_txnid tm)))
     (seqP (PRESERVE_ERRNO (timer_delete os tp))
     (seqP (PRESERVE_ERRNO (delete_unregistered_xfer os p)) (ret None))))) Q s"
proof -
  have inv: "sinv {} (heap s) (srv s)" using assms(1) by (simp add: server_inv_def)
  obtain t' where t': "xfer_table_erase (xfer_timers (srv s)) (tm_txnid tm) = Some t'"
    "sinv {} ((heap s)(tp := None)) ((srv s)\<lparr>xfer_timers := t'\<rparr>)"
    using erase_timer_table [OF inv assms(2)] by blast
  have "wp E (bindP (get_timer tp) (\<lambda>tm. seqP (PRESERVE_ERRNO (erase_timer (tm_txnid tm))) m)) Q s =
      wp E m Q (s\<lparr>srv := (srv s)\<lparr>xfer_timers := t'\<rparr>\<rparr>)" for m
    using assms(2) t'(1) by (simp add: wp_simps)
  then show ?thesis
    using assms(2-5) t'(2) sinv_heap [OF inv assms(2)]
    by (simp only:) (rule open_fail2 [where x = x and tm = tm]; simp)
qed

lemma open_timer_post:
  assumes "server_inv s" and "heap s p = Some (RXfer x)" and "xdefer x = NONE"
  shows "wp E (open_timer os p x info) (timer_post p x info s) s"
proof (cases "malloc_ok os SIZEOF_TIMER s")
  case False
  then show ?thesis
    unfolding open_timer_def Let_def wp_bindP wp_malloc_obj
    using assms by (simp, intro open_fail1 [where x = x]) (auto simp: timer_post_def server_inv_def)
next
  case True
  let ?tp = "malloc_addr os SIZEOF_TIMER s"
  let ?tm = "new_timer (-1) (txnid x) p"
  let ?h = "(heap s)(?tp \<mapsto> RTimer ?tm)"
  let ?s = "(call_state os (SysMalloc SIZEOF_TIMER) s)\<lparr>heap := ?h\<rparr>"
  from malloc_okD [OF True] have new: "heap s ?tp = None" "?tp \<noteq> 0" by auto
  then have np: "p \<noteq> ?tp" using assms(2) by auto
  have inv: "sinv {} (heap s) (srv s)" using assms(1) by (simp add: server_inv_def)
  have wf: "resrc_wf (RTimer ?tm)" by (simp add: new_timer_def)
  have none: "timer_post p x info s None t" if "server_inv t" "heap t = ?h(?tp := None, p := None)" for t
    using that new(1) by (simp add: timer_post_def fun_upd_idem)
  note unfold = open_timer_def Let_def wp_bindP [of E] wp_malloc_obj wp_insert_timer wp_if wp_getP wp_ret
  show ?thesis
  proof (cases "xfer_table_find (xfer_timers (srv s)) (tm_txnid ?tm) = Some None")
    case False
    have gone: "sinv {} (?h(?tp := None)) (srv s)" using inv new(1) by (simp add: fun_upd_idem)
    show ?thesis
      unfolding unfold
      using True new insert_taken_timer [OF inv new(1) False]
      by (simp add: new_timer_def [symmetric])
        (rule open_fail2 [where tm = ?tm and x = x], use wf new np assms(2,3) gone none in simp_all)
  next
    case free: True
    then obtain t' where t': "xfer_table_insert (resrc_timer_txnid ?h) (xfer_timers (srv s)) ?tp = Some (True, t')"
      "sinv {} ?h ((srv s)\<lparr>xfer_timers := t'\<rparr>)"
      using insert_new_timer [OF inv new wf] by blast
    have after: "(\<not> ok \<longrightarrow> wp E (get_timer ?tp) (\<lambda>tm. wp E (seqP (PRESERVE_ERRNO (erase_timer (tm_txnid tm)))
         (seqP (PRESERVE_ERRNO (timer_delete os ?tp))
         (seqP (PRESERVE_ERRNO (delete_unregistered_xfer os p)) (ret None)))) (timer_post p x info s)) u) \<and>
        (ok \<longrightarrow> timer_post p x info s (Some (?tp, info)) u)"
      if u: "srv u = (srv s)\<lparr>xfer_timers := t'\<rparr>" "heap u = (heap s)(?tp \<mapsto> RTimer (?tm\<lparr>tm_ident := i\<rparr>))" for ok u i
    proof -
      have "server_inv u"
        using sinv_upd_timer [OF t'(2), of ?tp ?tm "?tm\<lparr>tm_ident := i\<rparr>"] u by (simp add: server_inv_def)
      moreover have "?tm\<lparr>tm_ident := i\<rparr> = new_timer i (txnid x) p" by (simp add: new_timer_def)
      ultimately show ?thesis
        using u np new assms(2,3)
        by (auto simp: timer_post_def fun_upd_idem intro!: open_fail3 [unfolded wp_bindP, where x = x])
    qed
    show ?thesis
      unfolding unfold
      using True new t'(1)
      by (simp add: new_timer_def [symmetric])
        (rule wp_syspoll_timer [where tm = ?tm], simp, simp add: unfold after)
  qed
qed

definition open_post ::
  "prot_request \<Rightarrow> pid_t \<Rightarrow> fd \<Rightarrow> 'm sproc_scheme \<Rightarrow> (addr \<times> fio_stat) option \<Rightarrow> 'm sproc_scheme \<Rightarrow> bool" where
  "open_post req pid stfd s r t \<longleftrightarrow> server_inv t \<and>
     (case r of None \<Rightarrow> heap t = heap s
      | Some (tp, info) \<Rightarrow> \<exists>p f id. heap s p = None \<and> heap s tp = None \<and> p \<noteq> tp \<and>
          heap t = (heap s)(p \<mapsto> RXfer (new_xfer (rq_cmd req) f pid stfd (-1) (next_txnid (srv s))),
                            tp \<mapsto> RTimer (new_timer id (next_txnid (srv s)) p)) \<and>
          fs_size info = xf_size f \<and> (rq_len req \<noteq> 0 \<longrightarrow> xf_size f = rq_len req))"

lemma add_open_file_post:
  assumes "server_inv s" and "rq_cmd req = PROT_CMD_FILE_OPEN"
  shows "wp E (add_open_file os req pid stfd) (open_post req pid stfd s) s"
  unfolding add_open_file_def
proof (rule wp_seq_rule [OF add_xfer_post [OF assms(1), of req stfd "-1"]])
  show "fds_fit req stfd (- 1)" using assms(2) by (simp add: fds_fit_def cmd_defs)
  fix r t assume add: "add_post req pid stfd (-1) s r t"
  show "wp E (case r of None \<Rightarrow> ret None | Some (p, info) \<Rightarrow> bindP (get_xfer p) (\<lambda>x. open_timer os p x info))
     (open_post req pid stfd s) t"
  proof (cases r)
    case None
    with add show ?thesis by (simp add: wp_simps add_post_def open_post_def unchanged_def)
  next
    case (Some pi)
    obtain p info where pi: "pi = (p, info)" by (cases pi)
    let ?x = "\<lambda>f. new_xfer (rq_cmd req) f pid stfd (-1) (next_txnid (srv s))"
    from add Some pi obtain f where t: "server_inv t" "heap s p = None" "p \<noteq> 0" "heap t = (heap s)(p \<mapsto> RXfer (?x f))"
      "fs_size info = xf_size f" "rq_len req \<noteq> 0 \<longrightarrow> xf_size f = rq_len req"
      by (auto simp: add_post_def added_def stored_def)
    have "wp E (open_timer os p (?x f) info) (open_post req pid stfd s) t"
    proof (rule wp_mono [OF open_timer_post])
      show "server_inv t" "heap t p = Some (RXfer (?x f))" "xdefer (?x f) = NONE" using t by simp_all
      fix r' u assume post: "timer_post p (?x f) info t r' u"
      show "open_post req pid stfd s r' u"
      proof (cases r')
        case None
        with post t show ?thesis by (simp add: timer_post_def open_post_def fun_upd_idem)
      next
        case (Some ti)
        with post t obtain tp id where "ti = (tp, info)" "heap t tp = None" "server_inv u"
          "heap u = (heap t)(tp \<mapsto> RTimer (new_timer id (next_txnid (srv s)) p))"
          by (auto simp: timer_post_def split: prod.splits)
        then show ?thesis
          using Some t by (auto simp: open_post_def split: if_splits intro!: exI [of _ p] exI [of _ f] exI [of _ id])
      qed
    qed
    then show ?thesis using Some pi t by (simp add: wp_simps)
  qed
qed

section \<open>Requests\<close>

text \<open>A request to send an open file that names a transfer in the deferred list.\<close>

definition reopens_ready :: "'m sproc_scheme \<Rightarrow> byte list \<Rightarrow> bool" where
  "reopens_ready s buf \<longleftrightarrow> sfd_get_cmd buf = PROT_CMD_SEND_OPEN \<and>
     (case prot_unmarshal_send_open buf of None \<Rightarrow> False
      | Some pdu \<Rightarrow> (case xfer_table_find (xfers (srv s)) (so_txnid pdu) of
          Some (Some p) \<Rightarrow> (case heap s p of Some (RXfer x) \<Rightarrow> xdefer x = READY | _ \<Rightarrow> False)
        | _ \<Rightarrow> False))"

lemma wp_get_open_file:
  assumes "server_inv s" and "Q 0 s"
    and "\<And>p x. p \<noteq> 0 \<Longrightarrow> heap s p = Some (RXfer x) \<Longrightarrow> xfer_table_find (xfers (srv s)) tx = Some (Some p) \<Longrightarrow>
      indexof (xfers (srv s)) (txnid x) = indexof (xfers (srv s)) tx \<Longrightarrow>
      client_pid x = US_INVALID_PID \<or> client_pid x = pid \<Longrightarrow> Q p s"
  shows "wp E (get_open_file pid tx) Q s"
proof -
  have inv: "sinv {} (heap s) (srv s)" using assms(1) by (simp add: server_inv_def)
  show ?thesis
    by (rule sinv_find [OF inv, of tx])
      (use assms(2,3) in \<open>auto simp: get_open_file_def wp_simps\<close>)
qed

text \<open>The invariant holds and only the resource at \<open>p\<close> may have changed; no transfer of another
  client has changed.\<close>

definition touches_only :: "addr \<Rightarrow> 'm sproc_scheme \<Rightarrow> 'm sproc_scheme \<Rightarrow> bool" where
  "touches_only p s t \<longleftrightarrow> server_inv t \<and> (\<forall>q. q \<noteq> p \<longrightarrow> heap t q = heap s q)"

definition isolated :: "pid_t \<Rightarrow> 'm sproc_scheme \<Rightarrow> 'm sproc_scheme \<Rightarrow> bool" where
  "isolated pid s t \<longleftrightarrow> server_inv t \<and>
     (\<forall>q x. heap s q = Some (RXfer x) \<longrightarrow> client_pid x \<noteq> US_INVALID_PID \<longrightarrow> client_pid x \<noteq> pid \<longrightarrow>
        heap t q = Some (RXfer x))"

text \<open>A request for a file spares every transfer there is.\<close>

definition spared :: "'m sproc_scheme \<Rightarrow> 'm sproc_scheme \<Rightarrow> bool" where
  "spared s t \<longleftrightarrow> server_inv t \<and> (\<forall>q x. heap s q = Some (RXfer x) \<longrightarrow> heap t q = Some (RXfer x))"

lemma spared_same: "server_inv s \<Longrightarrow> heap t = heap s \<Longrightarrow> srv t = srv s \<Longrightarrow> spared s t"
  by (simp add: spared_def server_inv_def)

lemma spared_isolated: "spared s t \<Longrightarrow> isolated pid s t"
  by (simp add: spared_def isolated_def)

lemma touches_isolated:
  "touches_only p s t \<Longrightarrow> heap s p = Some (RXfer x) \<Longrightarrow> client_pid x = US_INVALID_PID \<or> client_pid x = pid \<Longrightarrow>
   isolated pid s t"
  unfolding touches_only_def isolated_def by (metis option.inject resrc.inject(1))

lemma isolated_same: "server_inv s \<Longrightarrow> heap t = heap s \<Longrightarrow> srv t = srv s \<Longrightarrow> isolated pid s t"
  by (simp add: isolated_def server_inv_def)

lemma cancel_inv:
  assumes "server_inv s" and "heap s p = Some (RXfer x)"
  shows "wp tolerated (defer_xfer p CANCEL) (\<lambda>_. touches_only p s) s"
proof (cases "xdefer x = CANCEL")
  case True
  then have "(heap s)(p \<mapsto> RXfer (x\<lparr>xdefer := CANCEL\<rparr>)) = heap s"
    using assms(2) by (cases x) (auto simp: fun_eq_iff)
  then show ?thesis using True assms by (simp add: defer_xfer_def wp_simps server_inv_def touches_only_def)
next
  case False
  with assms show ?thesis by (simp add: wp_defer_CANCEL touches_only_def defer_state_inv)
qed

lemma delete_unregistered_inv:
  assumes "server_inv s" and "heap s p = Some (RXfer x)" and "xdefer x = NONE"
  shows "wp E (delete_unregistered_xfer os p) (\<lambda>_. touches_only p s) s"
proof -
  have inv: "sinv {} (heap s) (srv s)" using assms(1) by (simp add: server_inv_def)
  have out: "p \<notin> set (deferred_list (srv s))" using sinv_flag [OF inv assms(2)] assms(3) by simp
  show ?thesis
    using sinv_deleted [OF inv assms(2) out]
    by (simp add: wp_delete_unregistered [OF inv assms(2) out] server_inv_def touches_only_def)
qed

lemma unmarshal_request_cmd:
  "prot_unmarshal_request buf sz = Inr pdu \<Longrightarrow> rq_cmd pdu = sfd_get_cmd buf"
  by (auto simp: prot_unmarshal_request_def sfd_get_cmd_def Let_def split: if_splits)

lemma request_file_open_inv:
  assumes "server_inv s" and "sfd_get_cmd buf = PROT_CMD_FILE_OPEN"
  shows "wp tolerated (request_file_open os buf sz pid fds) (\<lambda>_. spared s) s"
proof (cases "prot_unmarshal_request buf sz")
  case (Inl e)
  then show ?thesis
    using assms(1) by (auto simp: request_file_open_def wp_simps intro: spared_same split: option.splits)
next
  case (Inr pdu)
  then have "rq_cmd pdu = PROT_CMD_FILE_OPEN" using unmarshal_request_cmd assms(2) by simp
  note post = add_open_file_post [OF assms(1) this]
  show ?thesis
    unfolding request_file_open_def Inr sum.case
    by (rule wp_seq_rule [OF post])
      (auto simp: wp_simps open_post_def server_inv_def spared_def split: option.splits intro!: send_frame)
qed

lemma request_cancel_inv:
  assumes "server_inv s"
  shows "wp tolerated (request_cancel buf pid) (\<lambda>_. isolated pid s) s"
  using assms
  by (auto simp: request_cancel_def wp_simps split: option.splits
      intro!: wp_get_open_file wp_mono [OF cancel_inv] intro: touches_isolated isolated_same)

lemma request_send_open_inv:
  assumes "server_inv s" and "sfd_get_cmd buf = PROT_CMD_SEND_OPEN" and "\<not> reopens_ready s buf"
  shows "wp tolerated (request_send_open os buf pid fds) (\<lambda>_. isolated pid s) s"
proof (cases "prot_unmarshal_send_open buf")
  case None
  then show ?thesis using assms(1) by (simp add: request_send_open_def wp_simps isolated_same)
next
  case (Some pdu)
  show ?thesis
    unfolding request_send_open_def Some option.case wp_bindP
  proof (rule wp_get_open_file [OF assms(1)], goal_cases)
    case 1
    then show ?case using assms(1) by (simp add: wp_simps isolated_same)
  next
    case (2 p x)
    show ?case
    proof (cases "xdefer x = CANCEL")
      case True
      with 2 assms(1) show ?thesis by (simp add: wp_simps isolated_same)
    next
      case False
      let ?x = "x\<lparr>cmd := PROT_CMD_SEND, dest_fd := fds ! 0\<rparr>"
      have none: "xdefer x = NONE"
        using False 2 assms(2,3) Some by (cases "xdefer x") (auto simp: reopens_ready_def)
      have inv: "sinv {} (heap s) (srv s)" using assms(1) by (simp add: server_inv_def)
      have "resrc_wf (RXfer ?x)" using sinv_heap [OF inv 2(2)] by (auto simp: cmd_defs)
      then have "sinv {} ((heap s)(p \<mapsto> RXfer ?x)) (srv s)"
        by (intro sinv_upd_xfer [OF inv 2(2)]) simp_all
      then have upd: "server_inv u \<and> (touches_only p u t \<longrightarrow> isolated pid s t)" and "isolated pid s u"
        if "heap u = (heap s)(p \<mapsto> RXfer ?x)" "srv u = srv s" for t u
        using that touches_isolated [OF _ 2(2,5), of t] touches_isolated [OF _ 2(2,5), of u]
        by (auto simp: server_inv_def touches_only_def)
      then show ?thesis
        using 2 False none
        by (auto simp: wp_simps register_xfer_def Let_def
            intro!: send_frame wp_mono [OF delete_unregistered_inv [where x = ?x]])
    qed
  qed
qed

text \<open>A \<open>SEND_OPEN\<close> for a transfer in the deferred list does nothing undefined itself.\<close>

lemma live_erase:
  assumes "sinv {} (heap s) (srv s)" and "heap s p = Some (RXfer x)"
  obtains t' where "xfer_table_erase (xfers (srv s)) (txnid x) = Some t'"
proof -
  have "xfer_table_find (xfers (srv s)) (txnid x) = Some (Some p)"
    using tbl.find_item [OF sinv_tables(1) [OF assms(1)], of p] sinv_tables(2) [OF assms(1)] assms(2)
    by (simp add: resrc_xfer_txnid_def)
  from erase_slot [OF sinv_tables(1) [OF assms(1)] this] that show ?thesis by auto
qed

lemma request_send_open_defined:
  assumes "server_inv s"
  shows "wp tolerated (request_send_open os buf pid fds) (\<lambda>_ _. True) s"
proof (cases "prot_unmarshal_send_open buf")
  case None
  then show ?thesis by (simp add: request_send_open_def wp_simps)
next
  case (Some pdu)
  have inv: "sinv {} (heap s) (srv s)" using assms(1) by (simp add: server_inv_def)
  show ?thesis
    unfolding request_send_open_def Some option.case wp_bindP
  proof (rule wp_get_open_file [OF assms(1)], goal_cases)
    case 1
    then show ?case by (simp add: wp_simps)
  next
    case (2 p x)
    obtain t' where "xfer_table_erase (xfers (srv s)) (txnid x) = Some t'" using live_erase [OF inv 2(2)] .
    with 2 sinv_heap [OF inv 2(2)] show ?case
      by (auto simp: wp_simps register_xfer_def Let_def delete_unregistered_xfer_def wp_delete_file_fd intro!: send_frame)
  qed
qed

lemma request_transfer_inv:
  assumes "server_inv s" and "sfd_get_cmd buf = PROT_CMD_READ \<or> sfd_get_cmd buf = PROT_CMD_SEND"
  shows "wp tolerated (request_transfer os buf sz pid fds) (\<lambda>_. spared s) s"
proof (cases "prot_unmarshal_request buf sz")
  case (Inl e)
  then show ?thesis
    using assms(1) by (auto simp: request_transfer_def wp_simps intro: spared_same split: option.splits)
next
  case (Inr pdu)
  let ?d = "if rq_cmd pdu = PROT_CMD_SEND then fds ! 1 else fds ! 0"
  have "fds_fit pdu (fds ! 0) ?d"
    using unmarshal_request_cmd [OF Inr] assms(2) by (auto simp: fds_fit_def cmd_defs)
  note post = add_xfer_post [OF assms(1) this]
  show ?thesis
    unfolding request_transfer_def Inr sum.case
  proof (rule wp_seq_rule [OF post])
    fix r t assume post: "add_post pdu pid (fds ! 0) ?d s r t"
    let ?rest = "case r of None \<Rightarrow> bindP (getP errno) (\<lambda>e. seqP (send_req_err os (fds ! 0) e) (ret False))
        | Some (p, finfo) \<Rightarrow> bindP (register_xfer os p) (\<lambda>ok. bindP (get_xfer p) (\<lambda>x.
            if \<not> ok then bindP (getP errno) (\<lambda>e. seqP (send_req_err os (stat_fd x) e)
                (seqP (delete_unregistered_xfer os p) (ret False)))
            else seqP (send_file_info os (stat_fd x) (txnid x) finfo) (ret True)))"
    show "wp tolerated ?rest (\<lambda>_. spared s) t"
    proof (cases r)
      case None
      with post show ?thesis
        by (auto simp: wp_simps add_post_def unchanged_def spared_def server_inv_def intro!: send_frame)
    next
      case (Some pi)
      obtain p info where pi: "pi = (p, info)" by (cases pi)
      with post Some obtain f where f: "stored (rq_cmd pdu) f pid (fds ! 0) ?d s p t" "server_inv t"
        by (auto simp: add_post_def added_def)
      define x where "x = new_xfer (rq_cmd pdu) f pid (fds ! 0) ?d (next_txnid (srv s))"
      have x: "heap t = (heap s)(p \<mapsto> RXfer x)" "heap s p = None" "xdefer x = NONE" "server_inv t"
        using f by (auto simp: stored_def x_def)
      have new: "spared s u" if "touches_only p v u" "heap v = heap t" for u v
        using that x unfolding touches_only_def spared_def by (metis fun_upd_other option.distinct(1))
      have "spared s u" "server_inv u" if "heap u = heap t" "srv u = srv t" for u
        using that x new [of u u] by (auto simp: touches_only_def server_inv_def)
      with x show ?thesis
        unfolding Some pi
        by (auto simp: wp_simps register_xfer_def Let_def
            intro!: send_frame wp_mono [OF delete_unregistered_inv [where x = x]] intro: new)
    qed
  qed
qed

lemma process_request_inv:
  assumes "server_inv s" and "\<not> reopens_ready s buf"
  shows "wp tolerated (process_request os buf sz pid fds) (\<lambda>_. isolated pid s) s"
  using assms
  by (auto simp: process_request_def wp_simps intro: isolated_same request_send_open_inv request_cancel_inv
      wp_mono [OF request_file_open_inv spared_isolated] wp_mono [OF request_transfer_inv spared_isolated])

lemma process_request_defined:
  assumes "server_inv s"
  shows "wp tolerated (process_request os buf sz pid fds) (\<lambda>_ _. True) s"
  using assms
  by (auto simp: process_request_def wp_simps intro: request_send_open_defined wp_mono [OF request_cancel_inv]
      wp_mono [OF request_file_open_inv] wp_mono [OF request_transfer_inv])

lemma process_request_spares:
  assumes "server_inv s" and "sfd_get_cmd buf \<notin> {PROT_CMD_SEND_OPEN, PROT_CMD_CANCEL}"
  shows "wp tolerated (process_request os buf sz pid fds) (\<lambda>_. spared s) s"
  using assms
  by (auto simp: process_request_def wp_simps intro: spared_same request_file_open_inv request_transfer_inv)

section \<open>Properties\<close>

text \<open>C8: Handling any request keeps the server's state consistent and isolates its clients. Whatever
  bytes a client sends and however the kernel answers, \<open>process_request\<close> does nothing undefined and
  the invariant holds afterwards, and no transfer that belongs to a client with another process id
  has been changed, cancelled or freed. The one request excepted is a \<open>SEND_OPEN\<close> that names a
  transfer in the deferred list.\<close>

theorem process_request_isolation:
  assumes "server_inv s" and "\<not> reopens_ready s buf"
  shows "wp tolerated (process_request os buf sz pid fds) (\<lambda>_ t. server_inv t \<and>
      (\<forall>q x. heap s q = Some (RXfer x) \<and> client_pid x \<noteq> US_INVALID_PID \<and> client_pid x \<noteq> pid \<longrightarrow>
         heap t q = Some (RXfer x))) s"
  using process_request_inv [OF assms] by (rule wp_mono) (auto simp: isolated_def)

theorem process_request_isolation_witness:
  "wp tolerated (process_request quiet_os (cancel_bytes (prot_marshal_cancel 1)) 16 7 [4, 5])
     (\<lambda>_ t. server_inv t \<and> heap t 16 = Some (RXfer (example_xfer NONE))) (example_state NONE)"
  by (rule wp_mono [OF process_request_isolation [OF example_inv]])
    (auto simp: reopens_ready_def cancel_bytes_def prot_marshal_cancel_def hdr_read_defs cmd_defs
      example_defs US_INVALID_PID_def)

text \<open>C12: Adding a transfer either succeeds completely or leaves nothing behind. On failure every
  resource is as it was, no memory stays allocated and every descriptor that was opened has been
  closed. On success there is exactly one new resource, a transfer with the next transaction id,
  the client's process id and descriptors and an open file; it is found in the table under its id;
  the size it reports to the client is the number of bytes it will transfer; and that range lies
  inside the file as the kernel reported it, provided the end of the range fits in 64 bits.\<close>

theorem add_xfer_all_or_nothing:
  assumes "server_inv s" and "fds_fit req stfd dfd"
  shows "wp never (add_xfer os req pid stfd dfd) (\<lambda>r t. server_inv t \<and> (\<exists>h. trace t = trace s @ h \<and>
      (let name = cstr (case rq_filename req of None \<Rightarrow> [] | Some m \<Rightarrow> m)
       in case r of
          None \<Rightarrow> heap t = heap s \<and> leak_free name h
        | Some (p, info) \<Rightarrow> \<exists>x. heap s p = None \<and> heap t = (heap s)(p \<mapsto> RXfer x) \<and>
            cmd x = rq_cmd req \<and> txnid x = next_txnid (srv s) \<and> client_pid x = pid \<and>
            stat_fd x = stfd \<and> dest_fd x = dfd \<and> xdefer x = NONE \<and>
            xfer_table_find (xfers (srv t)) (txnid x) = Some (Some p) \<and>
            next_txnid (srv t) = next_txnid (srv s) + 1 \<and>
            hd h = (SysOpen name, xf_fd (xfile x)) \<and> SysClose (xf_fd (xfile x)) \<notin> set (map fst h) \<and>
            nbytes_left x = xf_size (xfile x) \<and> fs_size info = nbytes_left x \<and>
            range_ok req (st_size (os_stat os (trace s @ [hd h]) (xf_fd (xfile x)))) (nbytes_left x)))) s"
proof (rule wp_mono [OF wp_conj [OF add_xfer_post [OF assms] add_xfer_calls [OF assms]]], elim conjE, goal_cases)
  case (1 r t)
  show ?case
  proof (cases r)
    case None
    with 1 show ?thesis by (auto simp: add_post_def unchanged_def add_calls_def)
  next
    case (Some pi)
    obtain p info where pi: "pi = (p, info)" by (cases pi)
    from 1(1) Some pi obtain f where f: "stored (rq_cmd req) f pid stfd dfd s p t" "fs_size info = xf_size f" "server_inv t"
      by (auto simp: add_post_def added_def)
    from 1(2) Some pi obtain h x where h: "trace t = trace s @ h" "heap t p = Some (RXfer x)"
        "hd h = (SysOpen (cstr (case rq_filename req of None \<Rightarrow> [] | Some m \<Rightarrow> m)), xf_fd (xfile x))"
        "SysClose (xf_fd (xfile x)) \<notin> set (map fst h)"
        "range_ok req (st_size (os_stat os (trace s @ [hd h]) (xf_fd (xfile x)))) (nbytes_left x)"
      by (auto simp: add_calls_def Let_def)
    have x: "x = new_xfer (rq_cmd req) f pid stfd dfd (next_txnid (srv s))"
      using f(1) h(2) by (simp add: stored_def)
    show ?thesis
      unfolding Some pi Let_def option.case prod.case
      using f h x by (intro conjI exI [of _ h] exI [of _ x]) (auto simp: stored_def)
  qed
qed

definition example_request :: prot_request where
  "example_request = \<lparr>rq_cmd = PROT_CMD_SEND, rq_stat = 0, rq_offset = 2, rq_len = 5,
     rq_filename = Some [102, 0], rq_filename_len = 1\<rparr>"

theorem add_xfer_all_or_nothing_witness:
  "wp never (add_xfer quiet_os example_request 7 4 5) (\<lambda>r t. server_inv t \<and>
      (case r of None \<Rightarrow> heap t = heap (example_state NONE)
       | Some (p, info) \<Rightarrow> \<exists>x. heap t = (heap (example_state NONE))(p \<mapsto> RXfer x) \<and> txnid x = 2 \<and> dest_fd x = 5))
     (example_state NONE)"
proof (rule wp_mono [OF add_xfer_all_or_nothing [OF example_inv]], goal_cases)
  case 1
  show ?case by (simp add: fds_fit_def example_request_def cmd_defs)
next
  case (2 r t)
  then show ?case by (auto simp: Let_def example_defs split: option.splits)
qed

text \<open>C13: Opening a file for later either creates a transfer and its timer or nothing: on failure, at
  whatever step, the resources are exactly what they were; on success there are two new ones, a
  transfer without a destination and a timer that knows its address and transaction id, and both are
  in their tables.\<close>

theorem add_open_file_all_or_nothing:
  assumes "server_inv s" and "rq_cmd req = PROT_CMD_FILE_OPEN"
  shows "wp never (add_open_file os req pid stfd) (\<lambda>r t. server_inv t \<and>
      (case r of
         None \<Rightarrow> heap t = heap s
       | Some (tp, info) \<Rightarrow> \<exists>p x tm. heap s p = None \<and> heap s tp = None \<and> p \<noteq> tp \<and>
           heap t = (heap s)(p \<mapsto> RXfer x, tp \<mapsto> RTimer tm) \<and> txnid x = next_txnid (srv s) \<and>
           tm_txnid tm = txnid x \<and> tm_xfer_addr tm = p \<and> dest_fd x = -1 \<and> stat_fd x = stfd \<and>
           nbytes_left x = xf_size (xfile x) \<and> fs_size info = xf_size (xfile x) \<and> client_pid x = pid \<and>
           xfer_table_find (xfers (srv t)) (txnid x) = Some (Some p) \<and>
           xfer_table_find (xfer_timers (srv t)) (txnid x) = Some (Some tp))) s"
proof (rule wp_mono [OF add_open_file_post [OF assms]])
  fix r t assume post: "open_post req pid stfd s r t"
  then have inv: "sinv {} (heap t) (srv t)" by (simp add: open_post_def server_inv_def)
  have find: "xfer_table_find (xfers (srv t)) (txnid x) = Some (Some p)" if "heap t p = Some (RXfer x)" for p x
    using tbl.find_item [OF sinv_tables(1) [OF inv], of p] sinv_tables(2) [OF inv] that
    by (simp add: resrc_xfer_txnid_def)
  have tfind: "xfer_table_find (xfer_timers (srv t)) (tm_txnid x) = Some (Some p)" if "heap t p = Some (RTimer x)" for p x
    using tbl.find_item [OF sinv_tables(3) [OF inv], of p] sinv_tables(4) [OF inv] that
    by (simp add: resrc_timer_txnid_def)
  show "server_inv t \<and>
      (case r of
         None \<Rightarrow> heap t = heap s
       | Some (tp, info) \<Rightarrow> \<exists>p x tm. heap s p = None \<and> heap s tp = None \<and> p \<noteq> tp \<and>
           heap t = (heap s)(p \<mapsto> RXfer x, tp \<mapsto> RTimer tm) \<and> txnid x = next_txnid (srv s) \<and>
           tm_txnid tm = txnid x \<and> tm_xfer_addr tm = p \<and> dest_fd x = -1 \<and> stat_fd x = stfd \<and>
           nbytes_left x = xf_size (xfile x) \<and> fs_size info = xf_size (xfile x) \<and> client_pid x = pid \<and>
           xfer_table_find (xfers (srv t)) (txnid x) = Some (Some p) \<and>
           xfer_table_find (xfer_timers (srv t)) (txnid x) = Some (Some tp))"
  proof (cases r)
    case None
    with post show ?thesis by (simp add: open_post_def)
  next
    case (Some ti)
    obtain tp info where ti: "ti = (tp, info)" by (cases ti)
    with post Some obtain p f id where t: "server_inv t" "heap s p = None" "heap s tp = None" "p \<noteq> tp"
        "heap t = (heap s)(p \<mapsto> RXfer (new_xfer (rq_cmd req) f pid stfd (-1) (next_txnid (srv s))),
           tp \<mapsto> RTimer (new_timer id (next_txnid (srv s)) p))" "fs_size info = xf_size f"
      by (auto simp: open_post_def)
    define x where "x = new_xfer (rq_cmd req) f pid stfd (-1) (next_txnid (srv s))"
    define tm where "tm = new_timer id (next_txnid (srv s)) p"
    have "heap t p = Some (RXfer x)" "heap t tp = Some (RTimer tm)" using t by (simp_all add: x_def tm_def)
    from find [OF this(1)] tfind [OF this(2)] t show ?thesis
      unfolding Some ti option.case prod.case
      by (intro conjI exI [of _ p] exI [of _ x] exI [of _ tm]) (simp_all add: x_def tm_def new_timer_def)
  qed
qed

theorem add_open_file_all_or_nothing_witness:
  "wp never (add_open_file quiet_os (example_request\<lparr>rq_cmd := PROT_CMD_FILE_OPEN\<rparr>) 7 4) (\<lambda>r t. server_inv t \<and>
      (r = None \<longrightarrow> heap t = heap (example_state NONE))) (example_state NONE)"
  by (rule wp_mono [OF add_open_file_all_or_nothing [OF example_inv]]) auto

text \<open>When the slot of the next transaction id is taken by an older transfer, storing a new
  transfer fails although there may be room in the table; the memory and the file are released, but
  \<open>errno\<close> is left as it was, so the error the client is told is whatever an earlier call left there.\<close>

theorem slot_collision_stale_errno:
  assumes "server_inv s" and "malloc_ok os SIZEOF_XFER s" and "fst (sys os (trace s) (SysMalloc SIZEOF_XFER)) \<noteq> -1"
    and "xfer_table_find (xfers (srv s)) (next_txnid (srv s)) = Some (Some q)"
  shows "wp never (store_xfer os c f pid stfd dfd info) (\<lambda>r t. r = None \<and> errno t = errno s \<and>
      heap t = heap s \<and> SysClose (xf_fd f) \<in> set (calls_since s t)) s"
proof -
  let ?x = "new_xfer c f pid stfd dfd (next_txnid (srv s))"
  have inv: "sinv {} (heap s) (srv s)" using assms(1) by (simp add: server_inv_def)
  from malloc_okD [OF assms(2)] have new: "heap s (malloc_addr os SIZEOF_XFER s) = None" "malloc_addr os SIZEOF_XFER s \<noteq> 0"
    by auto
  have "xfer_table_find (xfers (srv s)) (txnid ?x) \<noteq> Some None" using assms(4) by simp
  from insert_taken_xfer [OF inv new(1) this] show ?thesis
    using assms(2,3) new
    by (simp add: store_xfer_def wp_simps Let_def wp_delete_file_fd new_xfer_def fun_upd_idem errno_call_state
        calls_since_def)
qed

definition collision_os :: os where
  "collision_os = quiet_os\<lparr>sys := (\<lambda>h c. (case c of SysMalloc n \<Rightarrow> 32 | _ \<Rightarrow> 0, EAGAIN))\<rparr>"

definition collision_state :: sproc where
  "collision_state = (example_state NONE)\<lparr>srv := (example_server NONE)\<lparr>next_txnid := 5\<rparr>\<rparr>"

lemma collision_inv: "server_inv collision_state"
  using example_inv [of NONE] by (simp add: collision_state_def server_inv_def example_state_def)

theorem slot_collision_stale_errno_witness:
  "wp never (store_xfer collision_os PROT_CMD_SEND \<lparr>xf_size = 10, xf_fd = 11, xf_blksize = 512\<rparr> 7 4 5
       \<lparr>fs_size = 10, fs_atime = 0, fs_mtime = 0, fs_ctime = 0, fs_blksize = 512\<rparr>)
     (\<lambda>r t. r = None \<and> errno t = 0) collision_state"
  by (rule wp_mono [OF slot_collision_stale_errno [OF collision_inv, where q = 16]])
    (simp_all add: collision_state_def collision_os_def malloc_ok_def example_defs xfer_table_find_def indexof_def Let_def)

end
