(* ===== verification/Sfd_Frame.thy ===== *)
theory Sfd_Frame
  imports Sfd_Server
begin

text \<open>
  What no function of the server touches. \<open>quiet_frame\<close> is the interface of a predicate that system calls other
  than those that move data, \<open>errno\<close>, the heap and the server's tables do not affect, so that it may depend on the
  data moved and on the capacity of a pipe; everything but
  \<open>transfer_file\<close> keeps it. \<open>server_frame\<close> is that of a predicate that no system call affects; every handler of
  \<open>impl/server.c\<close> keeps such a predicate. \<open>process_frame\<close> is that of a predicate that does not depend on the server's state at
  all; the whole of \<open>srv_run\<close> keeps it.
\<close>

fun moves :: "syscall \<Rightarrow> bool" where
  "moves (SysSplice a b n) \<longleftrightarrow> True"
| "moves (SysSendfile a b n) \<longleftrightarrow> True"
| "moves _ \<longleftrightarrow> False"

locale quiet_frame =
  fixes P :: "'m sproc_scheme \<Rightarrow> bool"
  assumes call: "\<not> moves c \<Longrightarrow> P s \<Longrightarrow> P (call_state os c s)"
    and errno: "P s \<Longrightarrow> P (s\<lparr>errno := e\<rparr>)"
    and heap: "P s \<Longrightarrow> P (s\<lparr>heap := h\<rparr>)"
    and tables: "P s \<Longrightarrow> poller v = poller (srv s) \<Longrightarrow> P (s\<lparr>srv := v\<rparr>)"
begin

lemma frame_basic [stable_intros]:
  "stable P (set_errno e)" "\<not> moves c \<Longrightarrow> stable P (syscall os c)" "stable P (close_fd os fd)"
  "stable P (modP (\<lambda>s. s\<lparr>heap := f s\<rparr>))"
  by (simp_all add: stable_def wp_simps call errno heap)

lemma frame_PRESERVE_ERRNO [stable_intros]: "stable P m \<Longrightarrow> stable P (PRESERVE_ERRNO m)"
  unfolding PRESERVE_ERRNO_def by (intro stable_intros)

lemma frame_mod_srv [stable_intros]: "(\<And>v. poller (f v) = poller v) \<Longrightarrow> stable P (mod_srv f)"
  by (simp add: stable_def mod_srv_def wp_simps tables)

lemma frame_heap [stable_intros]:
  "stable P (get_xfer p)" "stable P (upd_xfer p f)" "stable P (get_timer p)"
  "stable P (upd_timer p g)" "stable P (get_resp p)" "stable P (get_tag p)"
  "stable P (free_obj p)" "stable P (malloc_obj os n obj)"
  by (auto simp: stable_def wp_simps Let_def call errno heap split: option.splits resrc.splits)

lemma frame_tables [stable_intros]:
  "stable P (find_xfer tx)" "stable P (insert_xfer p)" "stable P (erase_xfer tx)"
  "stable P (insert_timer p)" "stable P (erase_timer tx)"
  unfolding find_xfer_def insert_xfer_def erase_xfer_def insert_timer_def erase_timer_def by (intro stable_intros; simp)+

lemma frame_send [stable_intros]:
  "stable P (send_pdu os fd pdu)" "stable P (send_file_info os fd tx info)"
  "stable P (send_xfer_stat os fd n)" "stable P (send_req_err os fd e)" "stable P (send_xfer_err os fd e)"
  unfolding send_defs send_pdu_def by (intro stable_intros; simp)+

lemma frame_resources [stable_intros]:
  "stable P (is_xfer p)" "stable P (is_response p)" "stable P (is_timer p)"
  "stable P (xfer_new os c f k pid a b tx)" "stable P (timer_delete os p)"
  "stable P (delete_xfer_and_close_file_fd os p)" "stable P (delete_xfer_and_close_all_fds os p)"
  unfolding is_resrc_defs xfer_new_def timer_delete_def delete_xfer_and_close_file_fd_def delete_xfer_and_close_all_fds_def
    xfer_delete_def fio_ctx_delete_def
  by (intro stable_intros; simp)+

lemma frame_registration [stable_intros]:
  "stable P (register_xfer os p)" "stable P (deregister_xfer os p)"
  "stable P (syspoll_register os pl i ud ev)" "stable P (syspoll_timer os pl p n)"
  unfolding register_xfer_def deregister_xfer_def syspoll_register_def syspoll_deregister_def syspoll_timer_def
  by (intro stable_intros; simp)+

lemma frame_deferral [stable_intros]:
  "stable P (defer_xfer p how)" "stable P (delete_registered_xfer os p)" "stable P (delete_unregistered_xfer os p)"
  unfolding defer_xfer_def push_deferred_def delete_registered_xfer_def delete_unregistered_xfer_def
  by (cases how; simp; intro stable_intros; simp) (intro stable_intros; simp)+

lemma frame_requests [stable_intros]:
  "stable P (file_open_read os name off len)" "stable P (add_xfer os req pid a b)"
  "stable P (add_open_file os req pid a)" "stable P (get_open_file pid tx)" "stable P (close_fds os fds n)"
  unfolding file_open_read_def stat_file_def lock_file_def add_xfer_def store_xfer_def add_open_file_def open_timer_def
    get_open_file_def close_fds_def
  by (intro stable_intros; simp)+

lemma frame_process_request [stable_intros]: "stable P (process_request os buf n pid fds)"
  unfolding process_request_def request_file_open_def request_send_open_def request_cancel_def request_transfer_def
  by (intro stable_intros)

lemma frame_datagram: "stable P (handle_datagram os n rc)"
  unfolding handle_datagram_def by (intro stable_intros)

lemma frame_receive [stable_intros]: "stable P (us_recv os fd rc)"
proof -
  have "stable P (cmsg_loop cs st)" for cs st
    by (induction cs arbitrary: st) (auto intro!: stable_intros split: cmsg.split)
  then show ?thesis
    unfolding us_recv_def us_get_fds_and_creds_def set_nonblock_def by (intro stable_intros; simp)
qed

lemma frame_quiet_events [stable_intros]: "stable P (timer_event os p)" "stable P (response_event os err p)"
  unfolding timer_event_def response_event_def by (intro stable_intros)+

end

locale server_frame = quiet_frame +
  assumes any_call: "P s \<Longrightarrow> P (call_state os c s)"
    and pipe_c: "P s \<Longrightarrow> P (s\<lparr>pipe_c := k\<rparr>)"
begin

lemma frame_any_call [stable_intros]: "stable P (syscall os c)" "stable P (modP (\<lambda>s. s\<lparr>pipe_c := g s\<rparr>))"
  by (simp_all add: stable_def wp_simps any_call pipe_c)

lemma frame_capacity [stable_intros]:
  "stable P (fill_pipe fuel os fd n)" "stable P (pipe_capacity os)"
proof -
  show fill: "stable P (fill_pipe fuel os fd n)" for fuel fd n
    by (induction fuel) (subst fill_pipe.simps; intro stable_intros; simp)+
  show "stable P (pipe_capacity os)"
    unfolding pipe_capacity_def sfd_pipe_def by (intro stable_intros fill; simp)
qed

lemma frame_transfer_file [stable_intros]: "stable P (transfer_file os p)"
proof -
  have ends: "stable P (transfer_failed os p e)" "stable P (transfer_finished os p)"
    "stable P (transfer_blocked os p n)" for e n
    unfolding transfer_failed_def transfer_finished_def transfer_blocked_def has_stat_channel_def send_terminal_resp_def new_resrc_resp_def
    by (intro stable_intros)+
  have round: "stable P (transfer_round os p n)" for n
    unfolding transfer_round_def read_write_size_def move_data_def file_splice_def file_sendfile_def
    by (intro stable_intros ends)
  have "stable P (transfer_loop fuel os p n)" for fuel n
    by (induction fuel arbitrary: n) (subst transfer_loop.simps; intro stable_intros round; simp)+
  then show ?thesis unfolding transfer_file_def by (intro stable_intros)
qed

lemma frame_events [stable_intros]: "stable P (xfer_event os err p)"
  unfolding xfer_event_def by (intro stable_intros)

lemma frame_reqfd [stable_intros]: "stable P (handle_reqfd fuel os ev rc)"
proof -
  have "stable P (reqfd_loop fuel os rc)" for rc
    by (induction fuel arbitrary: rc) (subst reqfd_loop.simps; intro stable_intros frame_datagram; simp)+
  then show ?thesis unfolding handle_reqfd_def by (intro stable_intros)
qed

lemma frame_get [stable_intros]: "stable P (udata_ident ud)" "stable P (syspoll_get os i)"
proof -
  show ident: "stable P (udata_ident ud)" for ud
    unfolding udata_ident_def by (cases ud) (auto intro!: stable_intros)
  show "stable P (syspoll_get os i)"
    unfolding syspoll_get_def recvd_term_signal_def by (intro stable_intros ident)
qed

lemma frame_process_event [stable_intros]: "stable P (process_event fuel os i rc)"
proof -
  have "stable P (case ud of URes p \<Rightarrow> f p | _ \<Rightarrow> undefP e)" if "\<And>p. stable P (f p)"
    for ud e and f :: "addr \<Rightarrow> ('a sproc_scheme, bool \<times> received) prog"
    using that by (cases ud) (auto intro: stable_intros)
  note cases = this
  show ?thesis unfolding process_event_def by (intro stable_intros cases)
qed

lemma frame_process_events [stable_intros]: "stable P (process_events fuel os n rc)"
proof -
  have "stable P (events_loop is fuel os rc)" for "is"
    by (induction "is" arbitrary: rc) (auto intro!: stable_intros)
  then show ?thesis unfolding process_events_def .
qed

end

text \<open>Predicates that do not depend on the server's state: everything keeps them.\<close>

locale process_frame = server_frame +
  assumes any_srv: "P s \<Longrightarrow> P (s\<lparr>srv := v\<rparr>)"
begin

lemma frame_srv [stable_intros]: "stable P (mod_srv f)" "stable P (modP (\<lambda>s. s\<lparr>srv := g s\<rparr>))"
  by (simp_all add: stable_def mod_srv_def wp_simps any_srv)

lemma frame_poll [stable_intros]: "stable P (syspoll_epoll os tmo)"
  unfolding syspoll_epoll_def by (intro stable_intros)

lemma frame_process_deferred [stable_intros]: "stable P (process_deferred os)"
proof -
  have "stable P (deferred_loop fuel os i)" for fuel i
  proof (induction fuel arbitrary: i)
    case (Suc fuel)
    have "stable P (case d of CANCEL \<Rightarrow> m1 | READY \<Rightarrow> m2 | NONE \<Rightarrow> m3)"
      if "stable P m1" "stable P m2" "stable P m3" for d and m1 m2 m3 :: "('a sproc_scheme, unit) prog"
      using that by (cases d) auto
    note cases = this
    show ?case
      by (subst deferred_loop.simps) (unfold undefer_xfer_def, intro stable_intros cases Suc; simp add: Suc)
  qed (subst deferred_loop.simps; simp add: stable_basic)
  then show ?thesis unfolding process_deferred_def by (intro stable_intros)
qed

lemma frame_loop [stable_intros]: "stable P (srv_loop fuel os rc)"
proof -
  have "stable P (srv_turn n os rc)" for n rc
    unfolding srv_turn_def syspoll_wait_def syspoll_poll_def by (intro stable_intros)
  note turn = this
  show ?thesis
    by (induction fuel arbitrary: rc) (subst srv_loop.simps; intro stable_intros turn; simp)+
qed

lemma frame_delete [stable_intros]: "stable P (srv_delete os pl rfd xf tm)"
proof -
  have "stable P (destruct_elems del es)" if "\<And>e. stable P (del e)" for del :: "addr \<Rightarrow> ('a sproc_scheme, unit) prog" and es
    using that by (induction es) (auto intro!: stable_intros)
  note destruct = this
  show ?thesis
    unfolding srv_delete_def syspoll_delete_def xfer_table_delete_def xfer_table_destruct_def
    by (intro stable_intros destruct)
qed

lemma frame_run [stable_intros]: "stable P (srv_run fuel os junk rfd maxfds tmo)"
  unfolding srv_run_def srv_new_def table_alloc_def syspoll_new_def syspoll_delete_def by (intro stable_intros)

end

end
