(* ===== verification/Sfd_Accounting.thy ===== *)
theory Sfd_Accounting
  imports Sfd_Transfer Sfd_Frame
begin

text \<open>
  The accounting of a transfer: for a kernel that keeps its documented promises, \<open>transfer_file\<close> of
  \<open>impl/server.c\<close> returns, moves at most the capacity of a pipe in one turn, and the count of bytes
  left and the messages on the status channel agree with the bytes the system calls moved.
\<close>

section \<open>Accounting\<close>

text \<open>The bytes a call moved from the file to the destination.\<close>

fun moved_by :: "syscall \<times> int \<Rightarrow> nat" where
  "moved_by (SysSplice a b n, r) = nat r"
| "moved_by (SysSendfile a b n, r) = nat r"
| "moved_by _ = 0"

definition moved :: "history \<Rightarrow> nat" where
  "moved h = sum_list (map moved_by h)"

lemma moved_simps [simp]: "moved [] = 0" "moved (c # h) = moved_by c + moved h" "moved (g @ h) = moved g + moved h"
  by (simp_all add: moved_def)

lemma moved_by_call [simp]: "moved_by (move_call x w, r) = nat r"
  by (simp add: move_call_def)

text \<open>The bytes a call moved from the file of a transfer to its destination, and histories in which nothing else
  has been moved.\<close>

fun sent_by :: "resrc_xfer \<Rightarrow> syscall \<times> int \<Rightarrow> nat" where
  "sent_by x (SysSplice a b n, r) = (if a = xf_fd (xfile x) \<and> b = dest_fd x then nat r else 0)"
| "sent_by x (SysSendfile a b n, r) = (if a = dest_fd x \<and> b = xf_fd (xfile x) then nat r else 0)"
| "sent_by x _ = 0"

definition sent :: "resrc_xfer \<Rightarrow> history \<Rightarrow> nat" where
  "sent x h = sum_list (map (sent_by x) h)"

definition own :: "resrc_xfer \<Rightarrow> history \<Rightarrow> bool" where
  "own x h \<longleftrightarrow> (\<forall>c\<in>set h. moves (fst c) \<longrightarrow> (\<exists>w. fst c = move_call x w))"

definition quiet :: "history \<Rightarrow> bool" where
  "quiet h \<longleftrightarrow> (\<forall>c\<in>set h. \<not> moves (fst c))"

lemma moves_call [simp]: "moves (move_call x w)"
  by (simp add: move_call_def)

lemma sent_simps [simp]: "sent x [] = 0" "sent x (c # h) = sent_by x c + sent x h" "sent x (g @ h) = sent x g + sent x h"
  by (simp_all add: sent_def)

lemma own_simps [simp]: "own x []" "own x (c # h) \<longleftrightarrow> (moves (fst c) \<longrightarrow> (\<exists>w. fst c = move_call x w)) \<and> own x h"
  "own x (g @ h) \<longleftrightarrow> own x g \<and> own x h"
  by (auto simp: own_def)

lemma quiet_simps [simp]: "quiet []" "quiet (c # h) \<longleftrightarrow> \<not> moves (fst c) \<and> quiet h" "quiet (g @ h) \<longleftrightarrow> quiet g \<and> quiet h"
  by (auto simp: quiet_def)

lemma not_moves [simp]: "\<not> moves (fst c) \<Longrightarrow> moved_by c = 0" "\<not> moves (fst c) \<Longrightarrow> sent_by x c = 0"
  by (cases c; cases "fst c"; simp)+

lemma own_quiet: "quiet h \<Longrightarrow> own x h"
  by (auto simp: own_def quiet_def)

lemma quiet_moved: "quiet h \<Longrightarrow> moved h = 0" "quiet h \<Longrightarrow> sent x h = 0"
  by (induction h) auto

lemma sent_own: "own x h \<Longrightarrow> sent x h = moved h"
proof (induction h)
  case (Cons c h)
  have "sent_by x c = moved_by c"
    using Cons.prems by (cases c; cases "moves (fst c)") (auto simp: move_call_def)
  with Cons show ?case by simp
qed simp

text \<open>The calls that move data for another transfer, with another file or another destination, do not count.\<close>

definition apart :: "resrc_xfer \<Rightarrow> resrc_xfer \<Rightarrow> bool" where
  "apart x y \<longleftrightarrow> xf_fd (xfile y) \<noteq> xf_fd (xfile x) \<or> dest_fd y \<noteq> dest_fd x"

lemma apart_call: "apart x y \<Longrightarrow> move_call y v \<noteq> move_call x w"
  by (auto simp: apart_def move_call_def split: if_splits)

lemma sent_other: "own y h \<Longrightarrow> apart x y \<Longrightarrow> sent x h = 0"
proof (induction h)
  case (Cons c h)
  have "sent_by x c = 0"
    using Cons.prems by (cases c; cases "moves (fst c)") (auto simp: move_call_def apart_def)
  with Cons show ?case by simp
qed simp

text \<open>The last attempt to move data of a transfer has failed.\<close>

definition stopped :: "resrc_xfer \<Rightarrow> history \<Rightarrow> bool" where
  "stopped x h \<longleftrightarrow> (\<exists>g w g'. h = g @ (move_call x w, -1) # g' \<and> (\<forall>c\<in>set g'. \<forall>v. fst c \<noteq> move_call x v))"

lemma stopped_before: "stopped x h \<Longrightarrow> stopped x (g @ h)"
  unfolding stopped_def by (metis append.assoc)

lemma stopped_after: "stopped x h \<Longrightarrow> (\<forall>c\<in>set g. \<forall>v. fst c \<noteq> move_call x v) \<Longrightarrow> stopped x (h @ g)"
  unfolding stopped_def by fastforce

lemma quiet_others: "quiet h \<Longrightarrow> \<forall>c\<in>set h. \<forall>v. fst c \<noteq> move_call x v"
  using moves_call unfolding quiet_def by metis

lemma own_others: "own y h \<Longrightarrow> apart x y \<Longrightarrow> \<forall>c\<in>set h. \<forall>v. fst c \<noteq> move_call x v"
  unfolding own_def by (metis apart_call moves_call)

lemma stopped_now: "quiet h \<Longrightarrow> stopped x ((move_call x w, -1) # h)"
  unfolding stopped_def using quiet_others by (metis append_Nil)

text \<open>The kernel moves at least one byte and at most as many as asked for, or fails (\<open>splice(2)\<close>,
  \<open>sendfile(2)\<close>; the end of the file is not reached while the transfer has bytes left, which is what
  the lock on the file is for).\<close>

definition moves_data :: "os \<Rightarrow> bool" where
  "moves_data os \<longleftrightarrow> (\<forall>h x w. 0 < w \<longrightarrow>
     (let r = fst (sys os h (move_call x w)) in r = -1 \<or> (0 < r \<and> r \<le> uint w)))"

definition null_resp :: "failure \<Rightarrow> bool" where
  "null_resp e \<longleftrightarrow> e = Undefined ''syspoll_register(NULL)''"

lemma null_resp_simps [simp]: "null_resp (Undefined ''syspoll_register(NULL)'')"
  by (simp add: null_resp_def)

lemma write_size_bounds:
  assumes "unat tot < unat cap" and "0 < nbytes_left x" and "0 < xf_blksize (xfile x)"
  shows "0 < write_size x cap tot" "unat (write_size x cap tot) \<le> unat (nbytes_left x)"
    "unat (write_size x cap tot) \<le> unat cap - unat tot"
proof -
  have sub: "unat (cap - tot) = unat cap - unat tot"
    using assms(1) by (simp add: unat_sub_if')
  have "unat (xf_blksize (xfile x)) < 2 ^ 64"
    using unsigned_less [of "xf_blksize (xfile x)", where 'a = nat] by simp
  then have "0 < (ucast (xf_blksize (xfile x)) :: size_t)"
    using assms(3) by (simp add: word_less_nat_alt unat_gt_0 unsigned_ucast_eq take_bit_nat_eq_self)
  moreover have "0 < cap - tot" using sub assms(1) by (simp add: word_less_nat_alt)
  ultimately show "0 < write_size x cap tot"
    using assms(2) by (simp add: write_size_def SFD_MIN_def)
  show "unat (write_size x cap tot) \<le> unat (nbytes_left x)"
    "unat (write_size x cap tot) \<le> unat cap - unat tot"
    using sub by (auto simp: write_size_def SFD_MIN_def word_less_nat_alt)
qed

lemma word_count:
  fixes a b :: size_t
  assumes "0 < n" and "n \<le> uint w" and "unat (w :: size_t) \<le> unat a"
  shows "unat (a - word_of_int n) = unat a - nat n" "nat n \<le> unat a"
proof -
  have w: "uint w = int (unat w)" by simp
  then show le: "nat n \<le> unat a" using assms by linarith
  have "unat (word_of_int n :: size_t) = nat n"
  proof -
    have "n < 2 ^ 64" using assms(2) uint_lt2p [of w] by simp
    then show ?thesis using assms(1) by (simp add: unat_eq_nat_uint uint_word_of_int)
  qed
  then show "unat (a - word_of_int n) = unat a - nat n" using le by (simp add: unat_sub_if')
qed

lemma word_total:
  fixes a cap :: size_t
  assumes "0 < n" and "unat a + nat n \<le> unat cap"
  shows "unat (a + word_of_int n) = unat a + nat n"
proof -
  have cap: "unat cap < 2 ^ 64" using unsigned_less [of cap, where 'a = nat] by simp
  have n: "word_of_int n = (of_nat (nat n) :: size_t)" using assms(1) by simp
  have "unat a + nat n < 2 ^ 64" using cap assms(2) by linarith
  then have "unat (of_nat (unat a + nat n) :: size_t) = unat a + nat n"
    by (simp only: unat_of_nat) simp
  then show ?thesis by (simp add: n)
qed

section \<open>The calls of the parts\<close>

definition made :: "syscall \<Rightarrow> history \<Rightarrow> bool" where
  "made c h \<longleftrightarrow> c \<in> set (map fst h)"

lemma made_simps [simp]: "\<not> made c []" "made c (e # h) \<longleftrightarrow> c = fst e \<or> made c h" "made c (g @ h) \<longleftrightarrow> made c g \<or> made c h"
  by (auto simp: made_def)

text \<open>The messages written, in order. A transfer with a status channel of its own sends its messages
  there; one without sends none.\<close>

fun is_write :: "syscall \<Rightarrow> bool" where
  "is_write (SysWrite fd bs) \<longleftrightarrow> True"
| "is_write _ \<longleftrightarrow> False"

definition messages :: "history \<Rightarrow> syscall list" where
  "messages h = filter is_write (map fst h)"

definition told :: "resrc_xfer \<Rightarrow> syscall \<Rightarrow> syscall list" where
  "told x m = (if stat_fd x \<noteq> dest_fd x then [m] else [])"

lemma messages_simps [simp]: "messages [] = []" "messages (c # h) = (if is_write (fst c) then [fst c] else []) @ messages h"
  "messages (g @ h) = messages g @ messages h"
  by (simp_all add: messages_def)

lemma move_no_write [simp]: "\<not> is_write (move_call x w)"
  by (simp add: move_call_def)

lemma told_made: "messages h = told x m \<Longrightarrow> stat_fd x \<noteq> dest_fd x \<Longrightarrow> made m h"
  using filter_is_subset [of is_write "map fst h"] by (auto simp: messages_def told_def made_def)

text \<open>The calls made since \<open>s\<close> moved no data, left the transfer alone and satisfy \<open>P\<close>.\<close>

definition quiet_calls :: "addr \<Rightarrow> 'm sproc_scheme \<Rightarrow> (history \<Rightarrow> bool) \<Rightarrow> 'm sproc_scheme \<Rightarrow> bool" where
  "quiet_calls p s P t \<longleftrightarrow>
     (\<exists>h. trace t = trace s @ h \<and> quiet h \<and> heap t p = heap s p \<and> pipe_c t = pipe_c s \<and> P h)"

lemma send_terminal_resp_calls:
  assumes "pipe_atomic os" and "heap s p = Some (RXfer x)" and "length pdu \<le> 16"
  shows "wp null_resp (send_terminal_resp os p pdu)
    (\<lambda>_. quiet_calls p s (\<lambda>h. messages h = [SysWrite (stat_fd x) pdu])) s"
proof -
  have "length pdu \<le> PIPE_BUF" using assms(3) by (simp add: PIPE_BUF_def)
  note atomic = wp_send_pdu_atomic [OF assms(1) this]
  show ?thesis
    using assms(2,3)
    by (auto simp: send_terminal_resp_def wp_simps atomic new_resrc_resp_def Let_def quiet_calls_def
        fun_upd_idem dest!: malloc_okD)
qed


lemma xfer_wf_chan:
  "server_inv s \<Longrightarrow> heap s p = Some (RXfer x) \<Longrightarrow> cmd x \<in> {PROT_CMD_READ, PROT_CMD_SEND} \<Longrightarrow>
   stat_fd x = dest_fd x \<or> cmd x = PROT_CMD_SEND"
  using sinv_heap [of "{}" "heap s" "srv s" p] by (auto simp: server_inv_def)

definition completion :: "resrc_xfer \<Rightarrow> syscall" where
  "completion x = SysWrite (stat_fd x) (xfer_stat_bytes (prot_marshal_xfer_stat PROT_XFER_COMPLETE))"

definition progress :: "resrc_xfer \<Rightarrow> nat \<Rightarrow> syscall" where
  "progress x n = SysWrite (stat_fd x) (xfer_stat_bytes (prot_marshal_xfer_stat (of_nat n)))"

definition failure :: "resrc_xfer \<Rightarrow> errno_t \<Rightarrow> syscall" where
  "failure x e = SysWrite (stat_fd x) (hdr_bytes \<lparr>hdr_cmd = SFD_XFER_STAT, hdr_stat = word_of_int e\<rparr>)"

lemma told_same: "same_xfer x y \<Longrightarrow> told y m = told x m" "same_xfer x y \<Longrightarrow> failure y = failure x"
  "same_xfer x y \<Longrightarrow> completion y = completion x" "same_xfer x y \<Longrightarrow> progress y = progress x"
  by (auto simp: told_def failure_def completion_def progress_def fun_eq_iff dest!: same_xferD)

lemma transfer_failed_calls:
  assumes "pipe_atomic os" and "heap s p = Some (RXfer x)" and "stat_fd x = dest_fd x \<or> cmd x = PROT_CMD_SEND"
  shows "wp null_resp (transfer_failed os p e) (\<lambda>b t. \<not> b \<and> quiet_calls p s (\<lambda>h. messages h = told x (failure x e)) t) s"
  using assms(2,3)
  by (auto simp: transfer_failed_def has_stat_channel_def wp_simps quiet_calls_def failure_def told_def
      intro!: wp_mono [OF send_terminal_resp_calls [OF assms(1,2)]])

lemma transfer_finished_calls:
  assumes "pipe_atomic os" and "heap s p = Some (RXfer x)" and "stat_fd x = dest_fd x \<or> cmd x = PROT_CMD_SEND"
  shows "wp null_resp (transfer_finished os p)
    (\<lambda>b t. \<not> b \<and> quiet_calls p s (\<lambda>h. messages h = told x (completion x)) t) s"
  using assms(2,3)
  by (auto simp: transfer_finished_def has_stat_channel_def wp_simps quiet_calls_def completion_def told_def
      intro!: wp_mono [OF send_terminal_resp_calls [OF assms(1,2)]])

lemma transfer_blocked_calls:
  assumes "pipe_atomic os" and "heap s p = Some (RXfer x)" and "stat_fd x = dest_fd x \<or> cmd x = PROT_CMD_SEND"
  shows "wp null_resp (transfer_blocked os p tot) (\<lambda>b t.
      if b then quiet_calls p (s\<lparr>heap := (heap s)(p \<mapsto> RXfer (x\<lparr>xdefer := NONE\<rparr>))\<rparr>)
        (\<lambda>h. messages h = told x (progress x (unat tot))) t
      else quiet_calls p s (\<lambda>h. messages h = told x (progress x (unat tot))) t) s"
proof -
  have neg: "fst (sys os h (SysWrite fd (xfer_stat_bytes q))) \<noteq> 16 \<Longrightarrow>
      fst (sys os h (SysWrite fd (xfer_stat_bytes q))) = -1" for h fd q
  proof -
    assume "fst (sys os h (SysWrite fd (xfer_stat_bytes q))) \<noteq> 16"
    moreover have "length (xfer_stat_bytes q) \<le> PIPE_BUF" by (simp add: PIPE_BUF_def)
    then have "fst (sys os h (SysWrite fd (xfer_stat_bytes q))) \<in> {-1, int (length (xfer_stat_bytes q))}"
      using assms(1) unfolding pipe_atomic_def by blast
    ultimately show "fst (sys os h (SysWrite fd (xfer_stat_bytes q))) = -1" by simp
  qed
  then show ?thesis
    using assms(2,3)
    by (auto simp: transfer_blocked_def has_stat_channel_def wp_simps wp_send [OF assms(1)] quiet_calls_def
        progress_def told_def Let_def neg)
qed


section \<open>One turn of a transfer\<close>

text \<open>The result says why the turn ended: \<open>n\<close> bytes were moved in it.\<close>

definition verdict :: "resrc_xfer \<Rightarrow> resrc_xfer \<Rightarrow> size_t \<Rightarrow> nat \<Rightarrow> bool \<Rightarrow> history \<Rightarrow> bool" where
  "verdict x x' cap n b h \<longleftrightarrow>
     (if b then nbytes_left x' \<noteq> 0 \<and>
           (xdefer x' = NONE \<and> stopped x h \<and> messages h = told x (progress x n) \<or>
            xdefer x' = READY \<and> n = unat cap \<and> messages h = [])
      else nbytes_left x' = 0 \<and> messages h = told x (completion x) \<or>
           nbytes_left x' \<noteq> 0 \<and> stopped x h \<and> (\<exists>m \<in> insert (progress x n) (range (failure x)). messages h = told x m))"

definition accounted ::
  "addr \<Rightarrow> resrc_xfer \<Rightarrow> nat \<Rightarrow> 'm sproc_scheme \<Rightarrow> bool \<Rightarrow> 'm sproc_scheme \<Rightarrow> bool" where
  "accounted p x tot s b t \<longleftrightarrow>
     (\<exists>h x'. trace t = trace s @ h \<and> heap t p = Some (RXfer x') \<and> same_xfer x x' \<and> pipe_c t = pipe_c s \<and>
        unat (nbytes_left x) = unat (nbytes_left x') + moved h \<and> tot + moved h \<le> unat (pipe_c s) \<and>
        own x h \<and> verdict x x' (pipe_c s) (tot + moved h) b h)"

lemma accountedI:
  assumes "quiet_calls p u P t" and "trace u = trace s @ g" and "heap u p = Some (RXfer x1)"
    and "same_xfer x x1" and "pipe_c u = pipe_c s" and "unat (nbytes_left x) = unat (nbytes_left x1) + moved g"
    and "tot + moved g \<le> unat (pipe_c s)" and "own x g" and "\<And>h. P h \<Longrightarrow> quiet h \<Longrightarrow> verdict x x1 (pipe_c s) (tot + moved g) b (g @ h)"
  shows "accounted p x tot s b t"
proof -
  from assms(1) obtain h where "trace t = trace u @ h" "quiet h" "heap t p = heap u p" "pipe_c t = pipe_c u" "P h"
    by (auto simp: quiet_calls_def)
  with assms(2-) show ?thesis
    unfolding accounted_def by (intro exI [of _ "g @ h"] exI [of _ x1]) (simp add: own_quiet quiet_moved)
qed

lemma accounted_trans:
  assumes "accounted p x1 n1 s1 b t" and "trace s1 = trace s @ g" and "pipe_c s1 = pipe_c s"
    and "same_xfer x x1" and "unat (nbytes_left x) = unat (nbytes_left x1) + moved g" and "n1 = n + moved g" and "own x g"
    and "messages g = []"
  shows "accounted p x n s b t"
proof -
  from assms(1) obtain h x' where h: "trace t = trace s1 @ h" "heap t p = Some (RXfer x')" "same_xfer x1 x'"
      "pipe_c t = pipe_c s1" "unat (nbytes_left x1) = unat (nbytes_left x') + moved h"
      "n1 + moved h \<le> unat (pipe_c s1)" "verdict x1 x' (pipe_c s1) (n1 + moved h) b h" "own x1 h"
    by (auto simp: accounted_def)
  have "move_call x1 = move_call x" using same_xferD [OF assms(4)] by (simp add: move_call_def fun_eq_iff)
  then have "own x h" "stopped x1 = stopped x" using h(8) by (simp_all add: own_def stopped_def fun_eq_iff)
  moreover have "verdict x x' (pipe_c s) (n + moved (g @ h)) b (g @ h)"
    using h(7) told_same [OF assms(4)] assms(3,6,8) \<open>stopped x1 = stopped x\<close>
    by (auto simp: verdict_def add.assoc stopped_before split: if_splits)
  ultimately show ?thesis
    using h assms unfolding accounted_def
    by (intro exI [of _ "g @ h"] exI [of _ x']) (auto intro: same_xfer_trans)
qed


definition round_accounted ::
  "addr \<Rightarrow> resrc_xfer \<Rightarrow> size_t \<Rightarrow> 'm sproc_scheme \<Rightarrow> bool + size_t \<Rightarrow> 'm sproc_scheme \<Rightarrow> bool" where
  "round_accounted p x tot s r t \<longleftrightarrow>
     (case r of Inl b \<Rightarrow> accounted p x (unat tot) s b t
      | Inr tot' \<Rightarrow> \<exists>x1 g. heap t = (heap s)(p \<mapsto> RXfer x1) \<and> srv t = srv s \<and> trace t = trace s @ g \<and>
          pipe_c t = pipe_c s \<and> x1 = x\<lparr>nbytes_left := nbytes_left x1\<rparr> \<and>
          unat (nbytes_left x) = unat (nbytes_left x1) + moved g \<and> unat tot' = unat tot + moved g \<and>
          0 < moved g \<and> own x g \<and> messages g = [] \<and> unat tot' < unat (pipe_c s) \<and> nbytes_left x1 \<noteq> 0)"

lemma round_accounted_Inl [simp]:
  "(\<lambda>b. round_accounted p x tot s (Inl b)) = accounted p x (unat tot) s"
  "round_accounted p x tot s (Inl b) t = accounted p x (unat tot) s b t"
  by (simp_all add: round_accounted_def fun_eq_iff)

text \<open>The situation in which a round runs.\<close>

definition can_move :: "os \<Rightarrow> addr \<Rightarrow> resrc_xfer \<Rightarrow> 'm sproc_scheme \<Rightarrow> bool" where
  "can_move os p x s \<longleftrightarrow> pipe_atomic os \<and> moves_data os \<and> server_inv s \<and> heap s p = Some (RXfer x) \<and>
     xdefer x \<noteq> CANCEL \<and> cmd x \<in> {PROT_CMD_READ, PROT_CMD_SEND} \<and> pipe_c s \<noteq> 0 \<and>
     0 < nbytes_left x \<and> 0 < xf_blksize (xfile x)"

lemma round_stopped:
  assumes "can_move os p x s" and "unat tot < unat (pipe_c s)" and "trace u = trace s @ [(move_call x w, -1)]"
    and "heap u = heap s" and "pipe_c u = pipe_c s"
  shows "wp null_resp (transfer_failed os p e) (accounted p x (unat tot) s) u"
    and "wp null_resp (transfer_blocked os p tot) (accounted p x (unat tot) s) u"
proof -
  have x: "pipe_atomic os" "heap u p = Some (RXfer x)" "stat_fd x = dest_fd x \<or> cmd x = PROT_CMD_SEND"
    "nbytes_left x \<noteq> 0" "heap s p = Some (RXfer x)"
    using assms(1,4) xfer_wf_chan [of s p x] by (auto simp: can_move_def)
  show "wp null_resp (transfer_failed os p e) (accounted p x (unat tot) s) u"
    by (rule wp_mono [OF transfer_failed_calls [OF x(1-3)]])
      (auto intro!: accountedI [of p u _ _ s _ x] simp: assms x verdict_def less_imp_le stopped_now)
  show "wp null_resp (transfer_blocked os p tot) (accounted p x (unat tot) s) u"
    by (rule wp_mono [OF transfer_blocked_calls [OF x(1-3)]])
      (auto intro!: accountedI simp: assms x verdict_def less_imp_le stopped_now split: if_splits)
qed


lemma round_moved:
  assumes "can_move os p x s" and "0 < n" and "n \<le> uint w" and "unat w \<le> unat (nbytes_left x)"
    and "unat tot + nat n \<le> unat (pipe_c s)"
    and "trace u = trace s @ [(move_call x w, n)]" and "srv u = srv s" and "pipe_c u = pipe_c s"
    and "heap u = (heap s)(p \<mapsto> RXfer (x\<lparr>nbytes_left := nbytes_left x - word_of_int n\<rparr>))"
  shows "nbytes_left x = word_of_int n \<Longrightarrow> wp null_resp (transfer_finished os p) (accounted p x (unat tot) s) u"
    and "nbytes_left x \<noteq> word_of_int n \<Longrightarrow> pipe_c s \<le> tot + word_of_int n \<Longrightarrow> xdefer x = READY \<Longrightarrow>
      accounted p x (unat tot) s True u"
    and "nbytes_left x \<noteq> word_of_int n \<Longrightarrow> pipe_c s \<le> tot + word_of_int n \<Longrightarrow> xdefer x = NONE \<Longrightarrow>
      wp null_resp (defer_xfer p READY) (\<lambda>_. accounted p x (unat tot) s True) u"
    and "nbytes_left x \<noteq> word_of_int n \<Longrightarrow> \<not> pipe_c s \<le> tot + word_of_int n \<Longrightarrow>
      round_accounted p x tot s (Inr (tot + word_of_int n)) u"
proof -
  let ?x = "x\<lparr>nbytes_left := nbytes_left x - word_of_int n\<rparr>"
  have s: "pipe_atomic os" "heap s p = Some (RXfer x)" "stat_fd x = dest_fd x \<or> cmd x = PROT_CMD_SEND"
    "sinv {} (heap s) (srv s)"
    using assms(1) xfer_wf_chan [of s p x] by (auto simp: can_move_def server_inv_def)
  have xu: "heap u p = Some (RXfer ?x)" using assms(9) by simp
  have left: "unat (nbytes_left x) = unat (nbytes_left ?x) + nat n"
    using word_count [OF assms(2-4)] by simp
  have tot: "unat (tot + word_of_int n) = unat tot + nat n" by (rule word_total [OF assms(2,5)])
  have full: "unat tot + nat n = unat (pipe_c s)" if "pipe_c s \<le> tot + word_of_int n"
    using that tot assms(5) by (simp add: word_le_nat_alt)
  note acc = accountedI [of p u _ _ s "[(move_call x w, n)]" ?x x, OF _ assms(6) xu]
  show "wp null_resp (transfer_finished os p) (accounted p x (unat tot) s) u" if "nbytes_left x = word_of_int n"
    by (rule wp_mono [OF transfer_finished_calls [OF s(1) xu]])
      (use s(3) that assms(5,8) left in \<open>auto intro!: acc simp: verdict_def completion_def told_def\<close>)
  have nz: "nbytes_left ?x \<noteq> 0" if "nbytes_left x \<noteq> word_of_int n" using that by simp
  have refl: "quiet_calls p u (\<lambda>h. h = []) u" by (simp add: quiet_calls_def)
  show "accounted p x (unat tot) s True u"
    if "nbytes_left x \<noteq> word_of_int n" "pipe_c s \<le> tot + word_of_int n" "xdefer x = READY"
    by (rule acc [OF refl]) (use that assms(5,8) left full in \<open>auto simp: verdict_def\<close>)
  show "round_accounted p x tot s (Inr (tot + word_of_int n)) u"
    if "nbytes_left x \<noteq> word_of_int n" "\<not> pipe_c s \<le> tot + word_of_int n"
    unfolding round_accounted_def sum.case
    by (rule exI [of _ ?x], rule exI [of _ "[(move_call x w, n)]"])
      (use that assms left tot in \<open>auto simp: word_le_nat_alt\<close>)
  show "wp null_resp (defer_xfer p READY) (\<lambda>_. accounted p x (unat tot) s True) u"
    if h: "nbytes_left x \<noteq> word_of_int n" "pipe_c s \<le> tot + word_of_int n" "xdefer x = NONE"
  proof -
    have invu: "sinv {} (heap u) (srv u)"
      using upd_xfer_sinv [OF s(4,2), of ?x] assms(7,9) by simp
    have out: "p \<notin> set (deferred_list (srv u))" using sinv_flag [OF invu xu] h(3) by simp
    let ?t = "defer_state p ?x READY u"
    have "accounted p x (unat tot) s True ?t"
      by (rule accountedI [of p ?t "\<lambda>h. h = []" ?t s "[(move_call x w, n)]" "?x\<lparr>xdefer := READY\<rparr>" x])
        (use h assms(5,6,8) left full in \<open>auto simp: verdict_def quiet_calls_def same_xfer_def\<close>)
    then show ?thesis by (subst wp_defer_READY [OF invu xu _ out]) (simp_all add: h(3))
  qed
qed

lemma transfer_round_accounted:
  assumes "can_move os p x s" and "unat tot < unat (pipe_c s)"
  shows "wp null_resp (transfer_round os p tot) (round_accounted p x tot s) s"
proof -
  let ?w = "write_size x (pipe_c s) tot"
  let ?n = "fst (sys os (trace s) (move_call x ?w))"
  have x: "heap s p = Some (RXfer x)" "xdefer x \<noteq> CANCEL" "pipe_c s \<noteq> 0" "nbytes_left x \<noteq> 0"
    "0 < xf_blksize (xfile x)" "moves_data os"
    using assms(1) by (auto simp: can_move_def)
  have "0 < nbytes_left x" using x(4) word_greater_zero_iff by blast
  note w = write_size_bounds [OF assms(2) this x(5)]
  have n: "?n = -1 \<or> 0 < ?n \<and> ?n \<le> uint ?w"
    using x(6) w(1) unfolding moves_data_def Let_def by blast
  have "nat ?n \<le> unat ?w" if "?n \<le> uint ?w" using that by (simp add: nat_le_iff)
  then have tot: "unat tot + nat ?n \<le> unat (pipe_c s)" if "?n \<le> uint ?w"
    using that w(3) assms(2) by fastforce
  have ready: "xdefer x = NONE \<or> xdefer x = READY" using x(2) by (cases "xdefer x") auto
  show ?thesis
  proof (cases "?n = -1")
    case True
    then show ?thesis
      using x w(1) round_stopped [OF assms, of "call_state os (move_call x ?w) s" ?w]
      by (simp add: transfer_round_def wp_simps Let_def read_write_size_known)
  next
    case False
    with n have pos: "0 < ?n" "?n \<le> uint ?w" by auto
    show ?thesis
      using x w(1) False pos(1) ready tot [OF pos(2)]
        round_moved [OF assms(1) pos w(2), of tot "(call_state os (move_call x ?w) s)\<lparr>heap := (heap s)(p \<mapsto>
          RXfer (x\<lparr>nbytes_left := nbytes_left x - word_of_int ?n\<rparr>))\<rparr>"]
      by (auto simp: transfer_round_def wp_simps Let_def read_write_size_known pipe_capacity_known)
  qed
qed


lemma can_move_next:
  assumes "can_move os p x s" and "heap t = (heap s)(p \<mapsto> RXfer x1)" and "srv t = srv s" and "pipe_c t = pipe_c s"
    and "x1 = x\<lparr>nbytes_left := nbytes_left x1\<rparr>" and "nbytes_left x1 \<noteq> 0"
  shows "can_move os p x1 t"
proof -
  have eq: "xdefer x1 = xdefer x" "cmd x1 = cmd x" "xfile x1 = xfile x" "same_xfer x x1"
    using assms(5) by (cases x; cases x1; simp add: same_xfer_def)+
  have s: "sinv {} (heap s) (srv s)" "heap s p = Some (RXfer x)"
    using assms(1) by (auto simp: can_move_def server_inv_def)
  have "0 < nbytes_left x1" using assms(6) word_greater_zero_iff by blast
  then show ?thesis
    using assms(1-4) eq upd_xfer_sinv [OF s eq(4)] by (auto simp: can_move_def server_inv_def)
qed

lemma transfer_loop_accounted:
  assumes "can_move os p x s" and "unat tot < unat (pipe_c s)" and "unat (pipe_c s) \<le> n + unat tot"
  shows "wp null_resp (transfer_loop n os p tot) (accounted p x (unat tot) s) s"
  using assms
proof (induction n arbitrary: s x tot)
  case 0
  then show ?case by simp
next
  case (Suc n)
  have "wp null_resp (transfer_loop n os p tot') (accounted p x (unat tot) s) t"
    if "round_accounted p x tot s (Inr tot') t" for tot' t
  proof -
    from that obtain x1 g where t: "heap t = (heap s)(p \<mapsto> RXfer x1)" "srv t = srv s" "trace t = trace s @ g"
        "pipe_c t = pipe_c s" "x1 = x\<lparr>nbytes_left := nbytes_left x1\<rparr>"
        "unat (nbytes_left x) = unat (nbytes_left x1) + moved g" "unat tot' = unat tot + moved g"
        "0 < moved g" "unat tot' < unat (pipe_c s)" "nbytes_left x1 \<noteq> 0" "own x g" "messages g = []"
      by (auto simp: round_accounted_def)
    have same: "same_xfer x x1" using t(5) by (cases x; cases x1; simp add: same_xfer_def)
    have "wp null_resp (transfer_loop n os p tot') (accounted p x1 (unat tot') t) t"
      using can_move_next [OF Suc.prems(1) t(1,2,4,5,10)] t(4,7-9) Suc.prems(3) by (intro Suc.IH) auto
    then show ?thesis
      by (rule wp_mono) (rule accounted_trans [OF _ t(3,4) same t(6,7,11,12)])
  qed
  then show ?case
    by (subst transfer_loop.simps)
      (auto simp: wp_simps split: sum.splits intro!: wp_mono [OF transfer_round_accounted [OF Suc.prems(1,2)]])
qed

lemma transfer_file_accounted:
  assumes "can_move os p x s"
  shows "wp null_resp (transfer_file os p) (accounted p x 0 s) s"
proof -
  have "unat (pipe_c s) < 2 ^ 64" using unsigned_less [of "pipe_c s", where 'a = nat] by simp
  moreover have "0 < unat (pipe_c s)" using assms by (simp add: can_move_def unat_gt_0)
  ultimately show ?thesis
    using transfer_loop_accounted [OF assms, of 0 XFER_FUEL] assms
    by (auto simp: transfer_file_def wp_simps can_move_def XFER_FUEL_def)
qed

section \<open>Properties\<close>


definition moving_os :: os where
  "moving_os = quiet_os\<lparr>sys := (\<lambda>h c. (case c of SysWrite fd bs \<Rightarrow> int (length bs)
     | SysSplice a b n \<Rightarrow> uint n | SysSendfile a b n \<Rightarrow> uint n | _ \<Rightarrow> 0, EAGAIN))\<rparr>"

lemma moving_os_ok: "pipe_atomic moving_os" "moves_data moving_os"
  by (auto simp: moving_os_def pipe_atomic_def moves_data_def move_call_def word_less_def)


end
