(* ===== verification/Sfd_Deferred.thy ===== *)
theory Sfd_Deferred
  imports Sfd_Accounting "HOL-Library.Sublist"
begin

text \<open>
  Processing the deferred transfers at the end of a turn of the main loop: \<open>process_deferred\<close> of
  \<open>impl/server.c\<close>. What it needs of \<open>transfer_file\<close> is the locale \<open>deferred_transfers\<close>: the loop is
  verified once inside it, and the locale is interpreted twice on the model, for every behaviour of
  the kernel (memory safety) and for a kernel that keeps its promises (the loop returns).
\<close>

section \<open>The interface of transfer\_file\<close>

text \<open>\<open>J\<close> is what a transfer needs beyond the invariant of the server and what the round has achieved, as a predicate on
  the transfers that have had their turn in this round, the calls made,
  the heap and the measured capacity of a pipe; \<open>E\<close> are the failures that are acceptable.\<close>

locale deferred_transfers =
  fixes os :: os
    and E :: "failure \<Rightarrow> bool"
    and J :: "addr set \<Rightarrow> history \<Rightarrow> heap_t \<Rightarrow> size_t \<Rightarrow> bool"
  assumes transfer: "server_inv (s :: sproc) \<Longrightarrow> J D (trace s) (heap s) (pipe_c s) \<Longrightarrow>
      heap s p = Some (RXfer x) \<Longrightarrow> xdefer x = READY \<Longrightarrow> p \<notin> D \<Longrightarrow>
      wp E (transfer_file os p) (\<lambda>r t. transfer_post p x s r t \<and>
        J (insert p D) (trace t) (if r then heap t else (heap t)(p := None)) (pipe_c t)) s"
    and J_free: "J D g h c \<Longrightarrow> h p = Some (RXfer x) \<Longrightarrow> xdefer x = CANCEL \<Longrightarrow> J (insert p D) g (h(p := None)) c"
    and J_quiet: "J D g h c \<Longrightarrow> quiet g' \<Longrightarrow> J D (g @ g') h c"

section \<open>Removing an entry\<close>

lemma take_removed:
  assumes "i < ndeferred_xfers v" and "ndeferred_xfers v \<le> length (deferred_xfers v)"
  shows "take i (deferred_list (removed i v)) = take i (deferred_list v)"
proof -
  have "i < length (deferred_list v)" using assms by (simp add: deferred_list_def)
  then show ?thesis
    by (auto simp: deferred_list_removed [OF assms] butlast_conv_take min_def)
qed

lemma drop_removed:
  assumes "sinv Q h v" and "i < ndeferred_xfers v" and "h (deferred_xfers v ! i) = Some (RXfer x)"
  shows "set (drop i (deferred_list (removed i v))) = set (drop i (deferred_list v)) - {deferred_xfers v ! i}"
proof -
  have drop: "set (drop i xs) = set xs - set (take i xs)" if "distinct xs" for xs :: "addr list"
    using that set_take_disj_set_drop_if_distinct [of xs i i] set_append [of "take i xs" "drop i xs"] by auto
  have "distinct (deferred_list (removed i v))" using sinv_array(3) [OF sinv_remove(1) [OF assms]] .
  then show ?thesis
    using drop sinv_remove(2) [OF assms] take_removed [OF assms(2) sinv_array(1) [OF assms(1)]] sinv_array(3) [OF assms(1)] by auto
qed

lemma undefer_step:
  assumes "sinv {p} (heap s) (srv s)" and "i < ndeferred_xfers (srv s)" and "deferred_xfers (srv s) ! i = p"
    and "heap s p = Some (RXfer x)"
    and "\<And>t. server_inv t \<Longrightarrow> heap t = (heap s)(p \<mapsto> RXfer (x\<lparr>xdefer := NONE\<rparr>)) \<Longrightarrow> srv t = removed i (srv s) \<Longrightarrow>
      pipe_c t = pipe_c s \<Longrightarrow> trace t = trace s \<Longrightarrow> wp E (K i) Q t"
  shows "wp E (bindP (undefer_xfer i) K) Q s"
  using sinv_remove(1) [OF assms(1,2), of x] sinv_array(1) [OF assms(1)] assms(2-5)
  by (simp add: wp_simps wp_undefer_xfer server_inv_def)

text \<open>The calls that release a transfer move no data.\<close>

lemma release_quiet: "\<exists>g. trace (calls_state os (SysEpollDel ep fd # all_fd_closes x) s) = trace s @ g \<and> quiet g"
proof -
  have "\<forall>c\<in>set (SysEpollDel ep fd # all_fd_closes x). \<not> moves c" by (auto simp: all_fd_closes_def)
  moreover obtain g where "trace (calls_state os (SysEpollDel ep fd # all_fd_closes x) s) = trace s @ g"
    "map fst g = SysEpollDel ep fd # all_fd_closes x"
    using trace_calls_state by blast
  ultimately show ?thesis unfolding quiet_def by (metis image_eqI list.set_map)
qed

lemma delete_step:
  assumes "sinv {p} (heap s) (srv s)" and "i < ndeferred_xfers (srv s)" and "deferred_xfers (srv s) ! i = p"
    and "heap s p = Some (RXfer x)"
    and "\<And>t. server_inv t \<Longrightarrow> heap t = (heap s)(p := None) \<Longrightarrow> ndeferred_xfers (srv t) = ndeferred_xfers (srv s) - 1 \<Longrightarrow>
      deferred_list (srv t) = deferred_list (removed i (srv s)) \<Longrightarrow>
      pipe_c t = pipe_c s \<Longrightarrow> (\<exists>g. trace t = trace s @ g \<and> quiet g) \<Longrightarrow> wp E (K i) Q t"
  shows "wp E (bindP (undefer_xfer i) (\<lambda>i. seqP (delete_registered_xfer os p) (K i))) Q s"
proof (rule undefer_step [OF assms(1-4)])
  fix t :: "'a sproc_scheme"
  assume t: "server_inv t" "heap t = (heap s)(p \<mapsto> RXfer (x\<lparr>xdefer := NONE\<rparr>))" "srv t = removed i (srv s)"
    "pipe_c t = pipe_c s" "trace t = trace s"
  let ?x = "x\<lparr>xdefer := NONE\<rparr>"
  have inv: "sinv {} (heap t) (srv t)" using t(1) by (simp add: server_inv_def)
  have xt: "heap t p = Some (RXfer ?x)" using t(2) by simp
  have out: "p \<notin> set (deferred_list (srv t))" using sinv_flag [OF inv xt] by simp
  have tr: "trace (deleted_state p ?x t) = trace s" using t(5) by (simp add: deleted_state_def)
  show "wp E (seqP (delete_registered_xfer os p) (K i)) Q t"
    unfolding wp_seqP wp_delete_registered [OF inv xt out]
    using sinv_deleted [OF inv xt out] t(2-4) release_quiet [of os _ _ ?x "deleted_state p ?x t"] tr
    by (intro assms(5)) (auto simp: server_inv_def)
qed

section \<open>The loop\<close>

text \<open>No transfer has appeared or been cancelled since \<open>s\<close>, the entries before index \<open>i\<close> are waiting for their
  next share, and \<open>D\<close> are the transfers listed at \<open>s\<close> that have had their turn.\<close>

definition progress_since :: "addr set \<Rightarrow> 'm sproc_scheme \<Rightarrow> nat \<Rightarrow> 'm sproc_scheme \<Rightarrow> bool" where
  "progress_since D s i t \<longleftrightarrow>
     (\<forall>q y. heap t q = Some (RXfer y) \<longrightarrow> (\<exists>x. heap s q = Some (RXfer x) \<and> (xdefer x = CANCEL \<longleftrightarrow> xdefer y = CANCEL))) \<and>
     (\<forall>q\<in>set (take i (deferred_list (srv t))). \<exists>y. heap t q = Some (RXfer y) \<and> xdefer y = READY) \<and>
     set (deferred_list (srv s)) \<subseteq> D \<union> set (drop i (deferred_list (srv t))) \<and> D \<inter> set (drop i (deferred_list (srv t))) = {}"

lemma progress_sinceI:
  assumes "progress_since D s i t" and "others_kept p (heap t) (heap v)" and "heap t p = Some (RXfer x)"
    and "\<And>y. heap v p = Some (RXfer y) \<Longrightarrow> xdefer y \<noteq> CANCEL \<and> xdefer x \<noteq> CANCEL"
    and "set (take j (deferred_list (srv v))) \<subseteq> insert p (set (take i (deferred_list (srv t))))"
    and "p \<in> set (take j (deferred_list (srv v))) \<Longrightarrow> \<exists>y. heap v p = Some (RXfer y) \<and> xdefer y = READY"
    and "set (drop j (deferred_list (srv v))) = set (drop i (deferred_list (srv t))) - {p}"
  shows "progress_since (insert p D) s j v"
  unfolding progress_since_def
proof (intro conjI allI impI ballI)
  fix q y assume y: "heap v q = Some (RXfer y)"
  show "\<exists>x. heap s q = Some (RXfer x) \<and> (xdefer x = CANCEL \<longleftrightarrow> xdefer y = CANCEL)"
  proof (cases "q = p")
    case True
    with y assms(1,3,4) show ?thesis unfolding progress_since_def by metis
  next
    case False
    then have "heap t q = Some (RXfer y)" using assms(2) y unfolding others_kept_def by force
    with assms(1) show ?thesis unfolding progress_since_def by blast
  qed
next
  fix q assume q: "q \<in> set (take j (deferred_list (srv v)))"
  show "\<exists>y. heap v q = Some (RXfer y) \<and> xdefer y = READY"
  proof (cases "q = p")
    case True
    with q assms(6) show ?thesis by simp
  next
    case False
    with q assms(5) have "q \<in> set (take i (deferred_list (srv t)))" by blast
    with assms(1) obtain y where "heap t q = Some (RXfer y)" "xdefer y = READY" unfolding progress_since_def by blast
    with False assms(2) show ?thesis unfolding others_kept_def by (metis option.distinct(1))
  qed
qed (use assms(1,7) in \<open>auto simp: progress_since_def\<close>)

context deferred_transfers
begin

lemma loop:
  assumes "server_inv t" and "J D (trace t) (heap t) (pipe_c t)" and "progress_since D s i t"
    and "ndeferred_xfers (srv t) < fuel + i" and "i \<le> ndeferred_xfers (srv t)"
  shows "wp E (deferred_loop fuel os i) (\<lambda>_ u. server_inv u \<and> (\<exists>D. J D (trace u) (heap u) (pipe_c u) \<and>
     progress_since D s (ndeferred_xfers (srv u)) u)) (t :: sproc)"
  using assms
proof (induction fuel arbitrary: i t D)
  case 0
  then show ?case by simp
next
  case (Suc fuel)
  let ?R = "\<lambda>_ u. server_inv u \<and> (\<exists>D. J D (trace u) (heap u) (pipe_c u) \<and> progress_since D s (ndeferred_xfers (srv u)) u)"
  have inv: "sinv {} (heap t) (srv t)" using Suc.prems(1) by (simp add: server_inv_def)
  show ?case
  proof (cases "i < ndeferred_xfers (srv t)")
    case False
    then have "i = ndeferred_xfers (srv t)" using Suc.prems(5) by simp
    with Suc.prems show ?thesis by (subst deferred_loop.simps) (auto simp: wp_simps)
  next
    case listed: True
    note True = listed
    define p where "p = deferred_xfers (srv t) ! i"
    have p: "p \<in> set (deferred_list (srv t))" "deferred_list (srv t) ! i = p"
      using True sinv_array(1) [OF inv] by (auto simp: p_def deferred_list_def in_set_conv_nth)
    from sinv_flagged [OF inv p(1)] obtain x where x: "heap t p = Some (RXfer x)" "xdefer x \<noteq> NONE" by blast
    have tag: "xtag x = XFER_RESRC_TAG" using sinv_heap [OF inv x(1)] by simp
    have len: "i < length (deferred_xfers (srv t))" using True sinv_array(1) [OF inv] by simp
    have before: "p \<notin> set (take i (deferred_list (srv t)))"
      using p(2) sinv_array(3,5) [OF inv] True by (auto simp: in_set_conv_nth nth_eq_iff_index_eq)
    have this_one: "drop i (deferred_list (srv t)) = p # drop (i + 1) (deferred_list (srv t))"
      using p(2) True sinv_array(5) [OF inv] Cons_nth_drop_Suc [of i "deferred_list (srv t)"] by simp
    then have fresh: "p \<notin> D" using Suc.prems(3) by (auto simp: progress_since_def)
    have removed: "progress_since (insert p D) s i v"
      if "deferred_list (srv v) = deferred_list (removed i (srv t))" "others_kept p (heap t) (heap v)"
        "\<And>y. heap v p = Some (RXfer y) \<Longrightarrow> xdefer y \<noteq> CANCEL \<and> xdefer x \<noteq> CANCEL" for v :: sproc
    proof (rule progress_sinceI [OF Suc.prems(3) that(2) x(1) that(3)])
      have "take i (deferred_list (srv v)) = take i (deferred_list (srv t))"
        using that(1) take_removed [OF listed sinv_array(1) [OF inv]] by simp
      then show "set (take i (deferred_list (srv v))) \<subseteq> insert p (set (take i (deferred_list (srv t))))"
        "p \<in> set (take i (deferred_list (srv v))) \<Longrightarrow> \<exists>y. heap v p = Some (RXfer y) \<and> xdefer y = READY"
        using before by auto
      show "set (drop i (deferred_list (srv v))) = set (drop i (deferred_list (srv t))) - {p}"
        using drop_removed [OF inv listed] x(1) that(1) by (simp add: p_def)
    qed
    have deleted: "wp E (bindP (undefer_xfer i) (\<lambda>i. seqP (delete_registered_xfer os p) (deferred_loop fuel os i))) ?R u"
      if "sinv {p} (heap u) (srv u)" "srv u = srv t" "heap u p = Some (RXfer x')" "J (insert p D) (trace u) ((heap u)(p := None)) (pipe_c u)"
        "others_kept p (heap t) (heap u)" for u :: sproc and x'
    proof (rule delete_step [OF that(1) _ _ that(3)])
      show "i < ndeferred_xfers (srv u)" "deferred_xfers (srv u) ! i = p"
        using True that(2) by (simp_all add: p_def)
      fix v :: sproc
      assume v: "server_inv v" "heap v = (heap u)(p := None)" "ndeferred_xfers (srv v) = ndeferred_xfers (srv u) - 1"
        "deferred_list (srv v) = deferred_list (removed i (srv u))" "pipe_c v = pipe_c u"
        "\<exists>g. trace v = trace u @ g \<and> quiet g"
      have "others_kept p (heap t) (heap v)" using that(5) v(2) by (auto simp: others_kept_def)
      then have "progress_since (insert p D) s i v" using v(2,4) that(2) by (intro removed) auto
      moreover have "J (insert p D) (trace v) (heap v) (pipe_c v)" unfolding v(2,5) using v(6) J_quiet [OF that(4)] by auto
      ultimately show "wp E (deferred_loop fuel os i) ?R v"
        using v(1,3) that(2) Suc.prems(4) True by (intro Suc.IH) simp_all
    qed
    have moved: "wp E (bindP (get_xfer p) (\<lambda>x. if xdefer x = NONE then bindP (undefer_xfer i) (\<lambda>i. deferred_loop fuel os i)
        else deferred_loop fuel os (i + 1))) ?R u"
      if rdy: "xdefer x = READY" and post: "transfer_post p x t True u" and Ju: "J (insert p D) (trace u) (heap u) (pipe_c u)"
      for u :: sproc
    proof -
      from post obtain x' where x': "heap u p = Some (RXfer x')" "same_xfer x x'" "others_kept p (heap t) (heap u)"
          "sinv {p} (heap u) (srv u)" "srv u = srv t" "xdefer x' = NONE \<or> xdefer x' = READY"
        by (auto simp: transfer_post_def rdy)
      show ?thesis
      proof (cases "xdefer x' = NONE")
        case True
        have "wp E (bindP (undefer_xfer i) (\<lambda>i. deferred_loop fuel os i)) ?R u"
        proof (rule undefer_step [OF x'(4) _ _ x'(1)])
          show "i < ndeferred_xfers (srv u)" "deferred_xfers (srv u) ! i = p"
            using listed x'(5) by (simp_all add: p_def)
          fix v :: sproc
          assume v: "server_inv v" "heap v = (heap u)(p \<mapsto> RXfer (x'\<lparr>xdefer := NONE\<rparr>))" "srv v = removed i (srv u)"
            "pipe_c v = pipe_c u" "trace v = trace u"
          have "x'\<lparr>xdefer := NONE\<rparr> = x'" using True by (cases x') simp
          then have heap: "heap v = heap u" using v(2) x'(1) by (simp add: fun_upd_idem)
          then have "progress_since (insert p D) s i v" using v(3) x'(1,3,5) True rdy by (intro removed) auto
          moreover have "J (insert p D) (trace v) (heap v) (pipe_c v)" unfolding v(4,5) heap by (rule Ju)
          ultimately show "wp E (deferred_loop fuel os i) ?R v"
            using v(1,3) x'(5) Suc.prems(4) listed by (intro Suc.IH) simp_all
        qed
        with True x'(1) show ?thesis by (simp add: wp_simps)
      next
        case False
        then have ready: "xdefer x' = READY" using x'(6) by simp
        have "server_inv u"
          using transfer_post_inv [OF post Suc.prems(1) x(1) x'(1)] False rdy by simp
        moreover have "take (i + 1) (deferred_list (srv t)) = take i (deferred_list (srv t)) @ [p]"
          using p(2) True sinv_array(5) [OF inv] by (simp add: take_Suc_conv_app_nth)
        moreover have "p \<notin> set (drop (i + 1) (deferred_list (srv t)))"
          using distinct_drop [OF sinv_array(3) [OF inv], of i] unfolding this_one by simp
        ultimately have "progress_since (insert p D) s (i + 1) u" "server_inv u"
          using x' ready rdy this_one by (auto intro!: progress_sinceI [OF Suc.prems(3) x'(3) x(1)])
        then have "wp E (deferred_loop fuel os (i + 1)) ?R u"
          using Ju x'(5) Suc.prems(4) True by (intro Suc.IH) auto
        with False x'(1) show ?thesis by (simp add: wp_simps)
      qed
    qed
    show ?thesis
    proof (cases "xdefer x")
      case CANCEL
      have "sinv {p} (heap t) (srv t)" using inv by (rule sinv_mono) simp
      from deleted [OF this refl x(1)] J_free [OF Suc.prems(2) x(1) CANCEL] CANCEL True len x(1) tag show ?thesis
        by (subst deferred_loop.simps) (simp add: wp_getP wp_bindP wp_seqP wp_assertP wp_is_resrc wp_get_xfer p_def [symmetric] Let_def wp_if)
    next
      case READY
      let ?gone = "bindP (undefer_xfer i) (\<lambda>i. seqP (delete_registered_xfer os p) (deferred_loop fuel os i))"
      let ?more = "bindP (get_xfer p) (\<lambda>x. if xdefer x = NONE then bindP (undefer_xfer i) (\<lambda>i. deferred_loop fuel os i)
         else deferred_loop fuel os (i + 1))"
      have "wp E (deferred_loop (Suc fuel) os i) ?R t =
          wp E (bindP (transfer_file os p) (\<lambda>r. if \<not> r then ?gone else ?more)) ?R t"
        using True len x(1) tag READY
        by (subst deferred_loop.simps, unfold diff_Suc_1) (simp add: wp_simps p_def [symmetric] Let_def)
      moreover have "wp E (bindP (transfer_file os p) (\<lambda>r. if \<not> r then ?gone else ?more)) ?R t"
      proof (rule wp_seq_rule [OF transfer [OF Suc.prems(1,2) x(1) READY fresh]])
        fix r and u :: sproc assume post: "transfer_post p x t r u \<and>
          J (insert p D) (trace u) (if r then heap u else (heap u)(p := None)) (pipe_c u)"
        then obtain x' where "heap u p = Some (RXfer x')" "others_kept p (heap t) (heap u)" "sinv {p} (heap u) (srv u)"
            "\<not> r \<longrightarrow> srv u = srv t"
          by (auto simp: transfer_post_def)
        with post moved [OF READY, of u] deleted [of u x'] show "wp E (if \<not> r then ?gone else ?more) ?R u"
          by (cases r) simp_all
      qed
      ultimately show ?thesis by simp
    qed (use x in simp)
  qed
qed

text \<open>Every transfer that was listed has had its turn.\<close>

lemma all_served:
  assumes "server_inv s" and "J {} (trace s) (heap s) (pipe_c s)"
  shows "wp E (process_deferred os) (\<lambda>_ t. server_inv t \<and> (\<exists>D. set (deferred_list (srv s)) \<subseteq> D \<and>
     J D (trace t) (heap t) (pipe_c t) \<and> progress_since D s (ndeferred_xfers (srv t)) t)) (s :: sproc)"
proof -
  have "set (deferred_list (srv s)) \<subseteq> D" if "progress_since D s (ndeferred_xfers (srv t)) t" for D and t :: sproc
    using that by (auto simp: progress_since_def deferred_list_def)
  moreover have "wp E (process_deferred os) (\<lambda>_ t. server_inv t \<and> (\<exists>D.
     J D (trace t) (heap t) (pipe_c t) \<and> progress_since D s (ndeferred_xfers (srv t)) t)) s"
    unfolding process_deferred_def wp_bindP wp_getP
    using assms by (intro loop [of s "{}"]) (simp_all add: progress_since_def)
  ultimately show ?thesis by (elim wp_mono) blast
qed

end

section \<open>The two instances\<close>

interpretation any_kernel: deferred_transfers os tolerated "\<lambda>_ _ _ _. True" for os
  by unfold_locales (auto intro!: wp_mono [OF transfer_file_post])

text \<open>Every deferred transfer has bytes left to move and a block size, and the capacity of a pipe is
  known.\<close>

definition ready_ok :: "resrc_xfer \<Rightarrow> bool" where
  "ready_ok x \<longleftrightarrow> cmd x \<in> {PROT_CMD_READ, PROT_CMD_SEND} \<and> 0 < nbytes_left x \<and> 0 < xf_blksize (xfile x)"

definition movable :: "heap_t \<Rightarrow> size_t \<Rightarrow> bool" where
  "movable h c \<longleftrightarrow> c \<noteq> 0 \<and> (\<forall>p x. h p = Some (RXfer x) \<longrightarrow> xdefer x = READY \<longrightarrow> ready_ok x)"

text \<open>A transfer \<open>x\<close> has had one turn, as \<open>verdict\<close> describes it: of the calls \<open>g\<close>, those of the turn moved its bytes,
  and \<open>r\<close> is what is at its address afterwards. It is there with the rest of its bytes, waiting for its destination or for
  its next share; or it is gone, complete or given up.\<close>

definition turn_of :: "resrc_xfer \<Rightarrow> size_t \<Rightarrow> history \<Rightarrow> resrc option \<Rightarrow> bool" where
  "turn_of x cap g r \<longleftrightarrow> (\<exists>h. subseq h g \<and> own x h \<and> (case r of
     Some (RXfer x') \<Rightarrow> same_xfer x x' \<and> unat (nbytes_left x) = unat (nbytes_left x') + moved h \<and> verdict x x' cap (moved h) True h
   | _ \<Rightarrow> (\<exists>x'. unat (nbytes_left x) = unat (nbytes_left x') + moved h \<and> verdict x x' cap (moved h) False h)))"

text \<open>The address is as it was, or a response has been put where nothing was.\<close>

definition entry_kept :: "resrc option \<Rightarrow> resrc option \<Rightarrow> bool" where
  "entry_kept r r' \<longleftrightarrow> r' = r \<or> r = None \<and> (\<exists>z. r' = Some (RResp z))"

lemma entry_kept_simps [simp]: "entry_kept r r" "entry_kept (Some z) r' \<longleftrightarrow> r' = Some z"
  by (auto simp: entry_kept_def)

lemma entry_kept_trans: "entry_kept r r' \<Longrightarrow> entry_kept r' r'' \<Longrightarrow> entry_kept r r''"
  by (auto simp: entry_kept_def)

lemma others_entries: "others_kept p h h' \<longleftrightarrow> (\<forall>q. q \<noteq> p \<longrightarrow> entry_kept (h q) (h' q))"
  by (auto simp: others_kept_def entry_kept_def)

lemma turn_of_kept: "turn_of x cap g r \<Longrightarrow> entry_kept r r' \<Longrightarrow> turn_of x cap (g @ g') r'"
  unfolding turn_of_def entry_kept_def using subseq_rev_drop_many by (auto split: option.splits) blast+

lemma turn_not_cancelled: "turn_of y cap g (Some (RXfer x)) \<Longrightarrow> xdefer x \<noteq> CANCEL"
  by (auto simp: turn_of_def verdict_def)

abbreviation listed_in :: "heap_t \<Rightarrow> addr \<Rightarrow> bool" where
  "listed_in h q \<equiv> \<exists>x. h q = Some (RXfer x) \<and> xdefer x \<noteq> NONE"

text \<open>The state of a round that began with the calls \<open>g0\<close> and the heap \<open>h0\<close>: those in \<open>D\<close> have had one turn, the other
  deferred transfers are as they were, and what was not deferred is untouched.\<close>

definition round_since :: "history \<Rightarrow> heap_t \<Rightarrow> size_t \<Rightarrow> addr set \<Rightarrow> history \<Rightarrow> heap_t \<Rightarrow> size_t \<Rightarrow> bool" where
  "round_since g0 h0 cap D g h c \<longleftrightarrow> c = cap \<and> movable h c \<and>
     (\<exists>g'. g = g0 @ g' \<and> (\<forall>q x. h0 q = Some (RXfer x) \<and> xdefer x = READY \<longrightarrow>
        (if q \<in> D then turn_of x cap g' (h q) else h q = Some (RXfer x)))) \<and>
     (\<forall>q y. h q = Some (RXfer y) \<and> xdefer y = READY \<longrightarrow> (\<exists>x. h0 q = Some (RXfer x) \<and> xdefer x = READY)) \<and>
     (\<forall>q. \<not> listed_in h0 q \<longrightarrow> entry_kept (h0 q) (h q))"

lemma movable_can_move:
  "\<lbrakk>pipe_atomic os; moves_data os; server_inv s; movable (heap s) (pipe_c s); heap s p = Some (RXfer x); xdefer x = READY\<rbrakk>
   \<Longrightarrow> can_move os p x s"
  by (auto simp: can_move_def movable_def ready_ok_def)

lemma movable_kept:
  assumes "movable h c" and "others_kept p h h'" and "\<And>x. h' p = Some (RXfer x) \<Longrightarrow> xdefer x = READY \<Longrightarrow> ready_ok x"
  shows "movable h' c"
  unfolding movable_def
proof (intro conjI allI impI)
  fix q x assume q: "h' q = Some (RXfer x)" "xdefer x = READY"
  show "ready_ok x"
  proof (cases "q = p")
    case False
    then have "h q = Some (RXfer x)" using assms(2) q(1) unfolding others_kept_def by force
    with assms(1) q(2) show ?thesis by (simp add: movable_def)
  qed (use assms(3) q in simp)
qed (use assms(1) in \<open>simp add: movable_def\<close>)

lemma round_step:
  assumes "round_since g0 h0 cap D g h c" and "h p = Some (RXfer x)" and "xdefer x = READY" and "p \<notin> D"
    and "others_kept p h h'" and "turn_of x cap g1 (h' p)" and "\<And>y. h' p = Some (RXfer y) \<Longrightarrow> xdefer y = READY \<Longrightarrow> ready_ok y"
  shows "round_since g0 h0 cap (insert p D) (g @ g1) h' c"
proof -
  have keep: "entry_kept (h q) (h' q)" if "q \<noteq> p" for q using assms(5) that by (simp add: others_entries)
  obtain g' where g': "g = g0 @ g'" and
    fate: "\<And>q x. h0 q = Some (RXfer x) \<Longrightarrow> xdefer x = READY \<Longrightarrow> if q \<in> D then turn_of x cap g' (h q) else h q = Some (RXfer x)"
    using assms(1) unfolding round_since_def by blast
  obtain x0 where x0: "h0 p = Some (RXfer x0)" "xdefer x0 = READY" using assms(1-3) unfolding round_since_def by blast
  then have "x0 = x" using fate [OF x0] assms(2,4) by simp
  have turn: "turn_of x cap (g' @ g1) (h' p)"
    using assms(6) subseq_drop_many unfolding turn_of_def by blast
  have "if q \<in> insert p D then turn_of y cap (g' @ g1) (h' q) else h' q = Some (RXfer y)"
    if q: "h0 q = Some (RXfer y)" "xdefer y = READY" for q y
  proof (cases "q = p")
    case True
    with q x0 \<open>x0 = x\<close> turn show ?thesis by simp
  next
    case False
    with fate [OF q] keep [OF False] turn_of_kept [of y cap g' "h q" "h' q" g1] show ?thesis by (auto split: if_splits)
  qed
  moreover have "\<exists>x. h0 q = Some (RXfer x) \<and> xdefer x = READY" if "h' q = Some (RXfer y)" "xdefer y = READY" for q y
  proof (cases "q = p")
    case False
    then have "h q = Some (RXfer y)" using keep [OF False] that(1) by (auto simp: entry_kept_def)
    with assms(1) that(2) show ?thesis unfolding round_since_def by blast
  qed (use x0 in auto)
  moreover have "entry_kept (h0 q) (h' q)" if "\<not> listed_in h0 q" for q
  proof -
    have "q \<noteq> p" using that x0 by force
    moreover have "entry_kept (h0 q) (h q)" using assms(1) that unfolding round_since_def by blast
    ultimately show ?thesis using entry_kept_trans keep by blast
  qed
  moreover have "movable h' c" using assms(1,5,7) movable_kept unfolding round_since_def by blast
  moreover have "c = cap" using assms(1) by (simp add: round_since_def)
  ultimately show ?thesis unfolding round_since_def g' by auto
qed

lemma transfer_in_round:
  assumes "pipe_atomic os" and "moves_data os" and "server_inv s" and J: "round_since g0 h0 cap D (trace s) (heap s) (pipe_c s)"
    and "heap s p = Some (RXfer x)" and "xdefer x = READY" and "p \<notin> D"
  shows "wp null_resp (transfer_file os p) (\<lambda>r t. transfer_post p x s r t \<and>
     round_since g0 h0 cap (insert p D) (trace t) (if r then heap t else (heap t)(p := None)) (pipe_c t)) (s :: sproc)"
proof (rule wp_mono [OF wp_conj_strong [OF transfer_file_post transfer_file_accounted]])
  have mov: "movable (heap s) (pipe_c s)" "pipe_c s = cap" using J unfolding round_since_def by blast+
  then show "can_move os p x s" using assms by (auto intro: movable_can_move)
  show "server_inv s" "heap s p = Some (RXfer x)" "xdefer x \<noteq> CANCEL" using assms by auto
  fix r and t :: sproc assume post: "transfer_post p x s r t \<and> accounted p x 0 s r t"
  then obtain x' h where x': "trace t = trace s @ h" "heap t p = Some (RXfer x')" "same_xfer x x'" "others_kept p (heap s) (heap t)"
      "pipe_c t = pipe_c s" "unat (nbytes_left x) = unat (nbytes_left x') + moved h" "own x h"
      "verdict x x' cap (moved h) r h"
    unfolding transfer_post_def accounted_def mov(2) by auto
  let ?h = "if r then heap t else (heap t)(p := None)"
  have "ready_ok x" using mov(1) assms(5,6) by (simp add: movable_def)
  then have "ready_ok x'" if r
    using x'(8) that same_xferD [OF x'(3)] word_greater_zero_iff by (auto simp: ready_ok_def verdict_def)
  moreover have "turn_of x cap h (?h p)" using x' unfolding turn_of_def by (intro exI [of _ h]) (cases r; auto)
  moreover have "others_kept p (heap s) ?h" using x'(4) by (simp add: others_kept_def)
  ultimately have "round_since g0 h0 cap (insert p D) (trace t) ?h (pipe_c t)"
    unfolding x'(1,5) by (intro round_step [OF J assms(5-7)]) (use x'(2) in \<open>auto split: if_splits\<close>)
  with post show "transfer_post p x s r t \<and> round_since g0 h0 cap (insert p D) (trace t) ?h (pipe_c t)" by simp
qed

lemma promising_kernel:
  assumes "pipe_atomic os" and "moves_data os"
  shows "deferred_transfers os null_resp (round_since g0 h0 cap)"
proof (unfold_locales, goal_cases)
  case (1 s D p x)
  then show ?case by (rule transfer_in_round [OF assms])
next
  case (2 D g h c p x)
  then obtain g' where g': "\<And>q y. h0 q = Some (RXfer y) \<Longrightarrow> xdefer y = READY \<Longrightarrow> if q \<in> D then turn_of y cap g' (h q) else h q = Some (RXfer y)"
    and kept: "\<And>q. \<not> listed_in h0 q \<Longrightarrow> entry_kept (h0 q) (h q)"
    unfolding round_since_def by blast
  have gone: "\<not> (h0 p = Some (RXfer y) \<and> xdefer y = READY)" for y
    using g' [of p y] 2(2,3) turn_not_cancelled by (auto split: if_splits)
  have "listed_in h0 p"
  proof (rule ccontr)
    assume none: "\<not> listed_in h0 p"
    then have "h0 p = Some (RXfer x)" using kept [OF none] 2(2) by (auto simp: entry_kept_def)
    with none 2(3) show False by simp
  qed
  with 2 gone show ?case unfolding round_since_def movable_def by (auto split: if_splits)
next
  case (3 D g h c g')
  then obtain g1 where g1: "g = g0 @ g1" "\<And>q y. h0 q = Some (RXfer y) \<Longrightarrow> xdefer y = READY \<Longrightarrow>
      if q \<in> D then turn_of y cap g1 (h q) else h q = Some (RXfer y)"
    unfolding round_since_def by blast
  then have "if q \<in> D then turn_of y cap (g1 @ g') (h q) else h q = Some (RXfer y)"
    if "h0 q = Some (RXfer y)" "xdefer y = READY" for q y
    using g1(2) [OF that] turn_of_kept [of y cap g1 "h q" "h q" g'] by auto
  with 3(1) show ?case unfolding round_since_def g1(1) append_assoc by blast
qed

text \<open>At the end of the loop no cancelled transfer is left.\<close>

lemma served:
  assumes "server_inv t" and "progress_since D s (ndeferred_xfers (srv t)) t"
  shows "(\<forall>q y. heap t q = Some (RXfer y) \<longrightarrow> (\<exists>x. heap s q = Some (RXfer x) \<and> xdefer x \<noteq> CANCEL)) \<and>
    (\<forall>q\<in>set (deferred_list (srv t)). \<exists>y. heap t q = Some (RXfer y) \<and> xdefer y = READY)"
proof -
  have inv: "sinv {} (heap t) (srv t)" using assms(1) by (simp add: server_inv_def)
  have all: "take (ndeferred_xfers (srv t)) (deferred_list (srv t)) = deferred_list (srv t)"
    by (simp add: deferred_list_def)
  then have ready: "\<forall>q\<in>set (deferred_list (srv t)). \<exists>y. heap t q = Some (RXfer y) \<and> xdefer y = READY"
    using assms(2) unfolding progress_since_def by simp
  have "\<exists>x. heap s q = Some (RXfer x) \<and> xdefer x \<noteq> CANCEL" if y: "heap t q = Some (RXfer y)" for q y
  proof -
    have "xdefer y \<noteq> CANCEL" using ready sinv_flag [OF inv y] y by force
    moreover obtain x where "heap s q = Some (RXfer x)" "xdefer x = CANCEL \<longleftrightarrow> xdefer y = CANCEL"
      using assms(2) y unfolding progress_since_def by blast
    ultimately show ?thesis by blast
  qed
  with ready show ?thesis by blast
qed

text \<open>What a round did to each transfer.\<close>

definition round_done :: "'m sproc_scheme \<Rightarrow> 'm sproc_scheme \<Rightarrow> bool" where
  "round_done s t \<longleftrightarrow> server_inv t \<and> pipe_c t = pipe_c s \<and> movable (heap t) (pipe_c t) \<and>
     (\<forall>q\<in>set (deferred_list (srv t)). \<exists>y. heap t q = Some (RXfer y) \<and> xdefer y = READY) \<and>
     (\<forall>q y. heap t q = Some (RXfer y) \<longrightarrow> (\<exists>x. heap s q = Some (RXfer x) \<and> xdefer x \<noteq> CANCEL)) \<and>
     (\<forall>q y. heap t q = Some (RXfer y) \<and> xdefer y = READY \<longrightarrow> (\<exists>x. heap s q = Some (RXfer x) \<and> xdefer x = READY)) \<and>
     (\<forall>q. \<not> listed_in (heap s) q \<longrightarrow> entry_kept (heap s q) (heap t q)) \<and>
     (\<exists>g. trace t = trace s @ g \<and>
        (\<forall>q x. heap s q = Some (RXfer x) \<and> xdefer x = READY \<longrightarrow> turn_of x (pipe_c s) g (heap t q)))"

lemma one_round:
  assumes "pipe_atomic os" and "moves_data os" and "server_inv s" and "movable (heap s) (pipe_c s)"
  shows "wp null_resp (process_deferred os) (\<lambda>_. round_done s) (s :: sproc)"
proof -
  have inv: "sinv {} (heap s) (srv s)" using assms(3) by (simp add: server_inv_def)
  have "round_since (trace s) (heap s) (pipe_c s) {} (trace s) (heap s) (pipe_c s)"
    using assms(4) by (simp add: round_since_def)
  note all = deferred_transfers.all_served [OF promising_kernel [OF assms(1,2)] assms(3) this]
  show ?thesis
  proof (rule wp_mono [OF all], elim conjE exE)
    fix D and t :: sproc
    assume t: "server_inv t" "set (deferred_list (srv s)) \<subseteq> D"
      "round_since (trace s) (heap s) (pipe_c s) D (trace t) (heap t) (pipe_c t)" "progress_since D s (ndeferred_xfers (srv t)) t"
    then obtain g where g: "trace t = trace s @ g" "\<And>q x. heap s q = Some (RXfer x) \<Longrightarrow> xdefer x = READY \<Longrightarrow>
        if q \<in> D then turn_of x (pipe_c s) g (heap t q) else heap t q = Some (RXfer x)"
      unfolding round_since_def by blast
    have "turn_of x (pipe_c s) g (heap t q)" if q: "heap s q = Some (RXfer x)" "xdefer x = READY" for q x
      using g(2) [OF q] t(2) sinv_flag [OF inv q(1)] q(2) by (auto split: if_splits)
    with g(1) have fate: "\<exists>g. trace t = trace s @ g \<and>
        (\<forall>q x. heap s q = Some (RXfer x) \<and> xdefer x = READY \<longrightarrow> turn_of x (pipe_c s) g (heap t q))" by blast
    show "round_done s t"
      unfolding round_done_def
      by (intro conjI fate) (use t(1,3) served [OF t(1,4)] in \<open>unfold round_since_def, blast+\<close>)
  qed
qed

section \<open>Turns without events\<close>

text \<open>The kernel reports no event; \<open>k\<close> turns of the main loop.\<close>

definition idle :: "os \<Rightarrow> bool" where
  "idle os \<longleftrightarrow> (\<forall>h e tmo. fst (sys os h (SysEpollWait e tmo)) = 0)"

primrec srv_turns :: "nat \<Rightarrow> nat \<Rightarrow> os \<Rightarrow> received \<Rightarrow> ('m sproc_scheme, unit) prog" where
  "srv_turns 0 fuel os rc = ret ()"
| "srv_turns (Suc k) fuel os rc =
     bindP (srv_turn fuel os rc) (\<lambda>(go_on, rc). if \<not> go_on then ret () else srv_turns k fuel os rc)"

lemma idle_turn:
  assumes "idle os" and "server_inv s"
    and "\<And>t. server_inv t \<Longrightarrow> heap t = heap s \<Longrightarrow> pipe_c t = pipe_c s \<Longrightarrow> (\<exists>g. trace t = trace s @ g) \<Longrightarrow>
      wp E (process_deferred os) (\<lambda>_. Q (True, rc)) t"
  shows "wp E (srv_turn fuel os rc) Q s"
proof -
  have "server_inv t" if "heap t = heap s" "srv t = (srv s)\<lparr>poller := pl\<rparr>" for t :: "'a sproc_scheme" and pl
    using assms(2) that by (simp add: server_inv_def sinv_defs deferred_list_def)
  then have *: "wp E (process_deferred os) (\<lambda>_. Q (True, rc)) t"
    if "heap t = heap s" "srv t = (srv s)\<lparr>poller := pl\<rparr>" "pipe_c t = pipe_c s" "\<exists>g. trace t = trace s @ g" for t :: "'a sproc_scheme" and pl
    using that by (intro assms(3)) simp_all
  show ?thesis
    using assms(1)
    by (auto simp: srv_turn_def syspoll_wait_def syspoll_poll_def syspoll_epoll_def process_events_def idle_def wp_simps
        intro!: *)
qed

text \<open>What has become of a deferred transfer when it is no longer deferred: it waits for its destination, the last call
  to move its data having failed with bytes left; or it is gone, with every byte moved and the completion message as the
  only message, or given up after the last call to move its data had failed.\<close>

definition finished :: "resrc_xfer \<Rightarrow> history \<Rightarrow> resrc option \<Rightarrow> bool" where
  "finished x g r \<longleftrightarrow> (\<exists>h. subseq h g \<and> own x h \<and> (case r of
     Some (RXfer x') \<Rightarrow> same_xfer x x' \<and> xdefer x' = NONE \<and> nbytes_left x' \<noteq> 0 \<and>
       unat (nbytes_left x) = unat (nbytes_left x') + moved h \<and> stopped x h
   | _ \<Rightarrow> unat (nbytes_left x) = moved h \<and> messages h = told x (completion x) \<or> stopped x h))"

lemma finished_kept: "finished x g r \<Longrightarrow> entry_kept r r' \<Longrightarrow> finished x (g @ g') r'"
  unfolding finished_def entry_kept_def using subseq_rev_drop_many by (auto split: option.splits) blast+

lemma turn_finished: "turn_of x cap g r \<Longrightarrow> (\<And>y. r = Some (RXfer y) \<Longrightarrow> xdefer y \<noteq> READY) \<Longrightarrow> finished x g r"
  unfolding turn_of_def finished_def verdict_def by (force split: option.splits resrc.splits)

lemma finished_before: "finished x g' r \<Longrightarrow> finished x (g @ g') r"
  unfolding finished_def using subseq_drop_many by blast

lemma turn_then:
  assumes "turn_of x cap g (Some (RXfer y))" and "xdefer y = READY" and "finished y g' r"
  shows "finished x (g @ g') r"
proof -
  obtain h where h: "subseq h g" "own x h" "same_xfer x y" "unat (nbytes_left x) = unat (nbytes_left y) + moved h" "messages h = []"
    using assms(1,2) by (auto simp: turn_of_def verdict_def)
  obtain h' where h': "subseq h' g'" "own y h'" "case r of
      Some (RXfer x') \<Rightarrow> same_xfer y x' \<and> xdefer x' = NONE \<and> nbytes_left x' \<noteq> 0 \<and>
        unat (nbytes_left y) = unat (nbytes_left x') + moved h' \<and> stopped y h'
    | _ \<Rightarrow> unat (nbytes_left y) = moved h' \<and> messages h' = told y (completion y) \<or> stopped y h'"
    using assms(3) by (auto simp: finished_def)
  have move: "move_call y = move_call x" using same_xferD [OF h(3)] by (simp add: move_call_def fun_eq_iff)
  then have eq: "stopped y = stopped x" "own y = own x" by (simp_all add: stopped_def own_def fun_eq_iff)
  have "subseq (h @ h') (g @ g')" using h(1) h'(1) by (rule list_emb_append_mono)
  moreover have "own x (h @ h')" using h(2) h'(2) eq by simp
  ultimately show ?thesis
    using h(3-5) h'(3) unfolding finished_def eq told_same [OF h(3)]
    by (intro exI [of _ "h @ h'"]) (auto simp: stopped_before intro: same_xfer_trans split: option.splits resrc.splits)
qed

text \<open>What a number of turns did to the transfers that were deferred, and that all others are untouched.\<close>

definition turns_done :: "'m sproc_scheme \<Rightarrow> 'm sproc_scheme \<Rightarrow> bool" where
  "turns_done s t \<longleftrightarrow> server_inv t \<and> deferred_list (srv t) = [] \<and>
     (\<forall>q. \<not> listed_in (heap s) q \<longrightarrow> entry_kept (heap s q) (heap t q)) \<and>
     (\<exists>g. trace t = trace s @ g \<and> (\<forall>q x. heap s q = Some (RXfer x) \<and> xdefer x = READY \<longrightarrow> finished x g (heap t q)))"

lemma round_last:
  assumes "round_done s t" and "deferred_list (srv t) = []"
  shows "turns_done s t"
proof -
  have inv: "sinv {} (heap t) (srv t)" using assms(1) by (simp add: round_done_def server_inv_def)
  have "xdefer y \<noteq> READY" if "heap t q = Some (RXfer y)" for q y using sinv_flag [OF inv that] assms(2) by auto
  then have fin: "finished x g (heap t q)" if "turn_of x cap g (heap t q)" for x cap g q using turn_finished [OF that] by blast
  obtain g where "trace t = trace s @ g" "\<And>q x. heap s q = Some (RXfer x) \<Longrightarrow> xdefer x = READY \<Longrightarrow> turn_of x (pipe_c s) g (heap t q)"
    using assms(1) unfolding round_done_def by blast
  with fin have "\<exists>g. trace t = trace s @ g \<and> (\<forall>q x. heap s q = Some (RXfer x) \<and> xdefer x = READY \<longrightarrow> finished x g (heap t q))" by blast
  with assms show ?thesis unfolding round_done_def turns_done_def by blast
qed

lemma round_then:
  assumes "round_done s t" and "turns_done t u"
  shows "turns_done s u"
proof -
  obtain g where g: "trace t = trace s @ g" "\<And>q x. heap s q = Some (RXfer x) \<Longrightarrow> xdefer x = READY \<Longrightarrow> turn_of x (pipe_c s) g (heap t q)"
    using assms(1) unfolding round_done_def by blast
  obtain g' where g': "trace u = trace t @ g'" "\<And>q x. heap t q = Some (RXfer x) \<Longrightarrow> xdefer x = READY \<Longrightarrow> finished x g' (heap u q)"
    using assms(2) unfolding turns_done_def by blast
  have kept: "\<not> listed_in (heap s) q \<Longrightarrow> entry_kept (heap s q) (heap t q)" "\<not> listed_in (heap t) q \<Longrightarrow> entry_kept (heap t q) (heap u q)" for q
    using assms unfolding round_done_def turns_done_def by blast+
  have "finished x (g @ g') (heap u q)" if q: "heap s q = Some (RXfer x)" "xdefer x = READY" for q x
  proof (cases "\<exists>y. heap t q = Some (RXfer y) \<and> xdefer y = READY")
    case True
    then show ?thesis using g(2) [OF q] g'(2) turn_then by fastforce
  next
    case False
    then have "\<not> listed_in (heap t) q" using g(2) [OF q] turn_not_cancelled by (metis deferral.exhaust)
    with False show ?thesis using finished_kept [OF turn_finished [OF g(2) [OF q]] kept(2)] by blast
  qed
  moreover have "entry_kept (heap s q) (heap u q)" if none: "\<not> listed_in (heap s) q" for q
  proof -
    have "\<not> listed_in (heap t) q" using kept(1) [OF none] none by (auto simp: entry_kept_def)
    then show ?thesis using entry_kept_trans [OF kept(1) [OF none] kept(2)] by blast
  qed
  ultimately show ?thesis using assms(2) g(1) g'(1) unfolding turns_done_def by auto
qed

text \<open>Waiting in vain changes nothing.\<close>

lemma turns_done_wait:
  "turns_done t u \<Longrightarrow> heap t = heap s \<Longrightarrow> \<exists>g. trace t = trace s @ g \<Longrightarrow> turns_done s u"
  unfolding turns_done_def using finished_before by fastforce

text \<open>None of the deferred transfers has more than \<open>n\<close> bytes left.\<close>

definition within :: "nat \<Rightarrow> heap_t \<Rightarrow> bool" where
  "within n h \<longleftrightarrow> (\<forall>p x. h p = Some (RXfer x) \<longrightarrow> xdefer x = READY \<longrightarrow> unat (nbytes_left x) \<le> n)"

lemma round_within: "round_done s t \<Longrightarrow> within n (heap s) \<Longrightarrow> within (n - unat (pipe_c s)) (heap t)"
  unfolding within_def
proof (intro allI impI)
  fix p y assume d: "round_done s t" and n: "\<forall>p x. heap s p = Some (RXfer x) \<longrightarrow> xdefer x = READY \<longrightarrow> unat (nbytes_left x) \<le> n"
    and y: "heap t p = Some (RXfer y)" "xdefer y = READY"
  then obtain x g where x: "heap s p = Some (RXfer x)" "xdefer x = READY" "turn_of x (pipe_c s) g (heap t p)"
    unfolding round_done_def by blast
  then have "unat (nbytes_left x) = unat (nbytes_left y) + unat (pipe_c s)" using y by (auto simp: turn_of_def verdict_def)
  with n x(1,2) show "unat (nbytes_left y) \<le> n - unat (pipe_c s)" by fastforce
qed

lemma nothing_left:
  assumes "round_done s t" and "within 0 (heap t)"
  shows "deferred_list (srv t) = []"
proof (cases "deferred_list (srv t)")
  case (Cons q qs)
  with assms(1) obtain y where y: "heap t q = Some (RXfer y)" "xdefer y = READY" by (auto simp: round_done_def)
  with assms have "unat (nbytes_left y) = 0" "0 < nbytes_left y"
    by (force simp: within_def round_done_def movable_def ready_ok_def)+
  then show ?thesis by (simp add: unat_eq_zero)
qed simp

lemma turns_drain:
  assumes "pipe_atomic os" and "moves_data os" and "idle os" and "server_inv s"
    and "movable (heap s) (pipe_c s)" and "within (Suc k * unat (pipe_c s)) (heap s)"
  shows "wp null_resp (srv_turns (Suc k) fuel os rc) (\<lambda>_. turns_done s) (s :: sproc)"
  using assms(4-6)
proof (induction k arbitrary: s)
  case 0
  show ?case
    unfolding srv_turns.simps wp_bindP
  proof (rule idle_turn [OF assms(3) 0(1)], goal_cases)
    case (1 t)
    then have t: "server_inv t" "heap t = heap s" "pipe_c t = pipe_c s" "\<exists>g. trace t = trace s @ g" .
    have "turns_done s u" if u: "round_done t u" for u :: sproc
    proof -
      have "within 0 (heap u)" using round_within [OF u, of "unat (pipe_c s)"] 0(3) t(2,3) by simp
      then show ?thesis using turns_done_wait [OF round_last [OF u nothing_left [OF u]] t(2,4)] by blast
    qed
    then show ?case
      using 0(2) t by (intro wp_mono [OF one_round [OF assms(1,2)]]) (simp_all add: wp_ret)
  qed
next
  case (Suc k)
  show ?case
    unfolding srv_turns.simps(2) [of "Suc k"] wp_bindP
  proof (rule idle_turn [OF assms(3) Suc.prems(1)], goal_cases)
    case (1 t)
    then have t: "server_inv t" "heap t = heap s" "pipe_c t = pipe_c s" "\<exists>g. trace t = trace s @ g" .
    have "wp null_resp (srv_turns (Suc k) fuel os rc) (\<lambda>_. turns_done s) u" if u: "round_done t u" for u :: sproc
    proof (rule wp_mono [OF Suc.IH])
      have "within (Suc (Suc k) * unat (pipe_c s) - unat (pipe_c s)) (heap u)"
        using round_within [OF u, of "Suc (Suc k) * unat (pipe_c s)"] Suc.prems(3) t(2,3) by simp
      moreover have "pipe_c u = pipe_c s" using u t(3) by (simp add: round_done_def)
      ultimately show "within (Suc k * unat (pipe_c u)) (heap u)" by simp
      show "server_inv u" "movable (heap u) (pipe_c u)" using u unfolding round_done_def by blast+
      show "turns_done s v" if "turns_done u v" for v using turns_done_wait [OF round_then [OF u that] t(2,4)] .
    qed
    then show ?case
      using Suc.prems(2) t by (intro wp_mono [OF one_round [OF assms(1,2)]]) simp_all
  qed
qed

section \<open>Properties\<close>

text \<open>Processing the deferred transfers is memory safe for every behaviour of the kernel, and it
  completes what was deferred: a transfer that was cancelled is gone, no transfer has appeared, and
  what is still in the list is waiting for its next turn. The invariant of the server holds.\<close>

theorem process_deferred_safe:
  assumes "server_inv (s :: sproc)"
  shows "wp tolerated (process_deferred os) (\<lambda>_ t. server_inv t \<and>
      (\<forall>q y. heap t q = Some (RXfer y) \<longrightarrow> (\<exists>x. heap s q = Some (RXfer x) \<and> xdefer x \<noteq> CANCEL)) \<and>
      (\<forall>q\<in>set (deferred_list (srv t)). \<exists>y. heap t q = Some (RXfer y) \<and> xdefer y = READY)) s"
  by (rule wp_mono [OF any_kernel.all_served [OF assms]]) (use served in blast)+

theorem process_deferred_safe_witness:
  "wp tolerated (process_deferred quiet_os) (\<lambda>_ t. server_inv t \<and> (\<forall>y. heap t 16 \<noteq> Some (RXfer y))) (example_state CANCEL)"
  by (rule wp_mono [OF process_deferred_safe [OF example_inv]]) (auto simp: example_defs split: if_splits)

text \<open>C9: Processing the deferred transfers ends, and every one of them is served. When the kernel keeps its promises and every
  deferred transfer has bytes left to move, the loop returns without a failed assertion. Every transfer that was cancelled
  is gone. Every transfer that was waiting for its share has had one (\<open>turn_of\<close>): among the calls made
  are the calls of its turn, which moved data from its file to its destination only, and either it is still deferred and
  exactly the capacity of a pipe has been moved; or it waits for its destination, the last call to move data having failed, with bytes left,
  all moved bytes subtracted and the progress told; or it is gone, complete and with the completion told, or given up after a failed call. What is still in the
  list is waiting for its next share and can move again, and no transfer that was not in the list is touched. (Memory
  for a message that has to be kept for later may be exhausted: the failure \<open>null_resp\<close>.)\<close>

theorem process_deferred_returns:
  assumes "pipe_atomic os" and "moves_data os" and "server_inv (s :: sproc)" and "movable (heap s) (pipe_c s)"
  shows "wp null_resp (process_deferred os) (\<lambda>_ t. server_inv t \<and> movable (heap t) (pipe_c t) \<and>
      (\<forall>q y. heap t q = Some (RXfer y) \<longrightarrow> (\<exists>x. heap s q = Some (RXfer x) \<and> xdefer x \<noteq> CANCEL)) \<and>
      (\<forall>q\<in>set (deferred_list (srv t)). \<exists>y. heap t q = Some (RXfer y) \<and> xdefer y = READY) \<and>
      (\<forall>q x. heap s q = Some (RXfer x) \<and> xdefer x = NONE \<longrightarrow> heap t q = Some (RXfer x)) \<and>
      (\<exists>g. trace t = trace s @ g \<and>
        (\<forall>q x. heap s q = Some (RXfer x) \<and> xdefer x = READY \<longrightarrow> turn_of x (pipe_c s) g (heap t q)))) s"
proof (rule wp_mono [OF one_round [OF assms]])
  fix t :: sproc assume t: "round_done s t"
  have "heap t q = Some (RXfer x)" if "heap s q = Some (RXfer x)" "xdefer x = NONE" for q x
  proof -
    have "\<not> listed_in (heap s) q" using that by simp
    then have "entry_kept (heap s q) (heap t q)" using t unfolding round_done_def by blast
    with that(1) show ?thesis by simp
  qed
  with t show "server_inv t \<and> movable (heap t) (pipe_c t) \<and>
      (\<forall>q y. heap t q = Some (RXfer y) \<longrightarrow> (\<exists>x. heap s q = Some (RXfer x) \<and> xdefer x \<noteq> CANCEL)) \<and>
      (\<forall>q\<in>set (deferred_list (srv t)). \<exists>y. heap t q = Some (RXfer y) \<and> xdefer y = READY) \<and>
      (\<forall>q x. heap s q = Some (RXfer x) \<and> xdefer x = NONE \<longrightarrow> heap t q = Some (RXfer x)) \<and>
      (\<exists>g. trace t = trace s @ g \<and>
        (\<forall>q x. heap s q = Some (RXfer x) \<and> xdefer x = READY \<longrightarrow> turn_of x (pipe_c s) g (heap t q)))"
    unfolding round_done_def by blast
qed

theorem process_deferred_returns_witness:
  "wp null_resp (process_deferred moving_os) (\<lambda>_ t. server_inv t \<and>
     turn_of (example_xfer READY) (pipe_c (example_state READY)) (trace t) (heap t 16)) (example_state READY)"
  by (rule wp_mono [OF process_deferred_returns [OF moving_os_ok example_inv]])
    (auto simp: movable_def ready_ok_def example_defs)

text \<open>C7: Deferred transfers are not starved. When the kernel keeps its promises and reports no other
  event, \<open>k\<close> turns of the main loop finish every deferred transfer that has at most \<open>k\<close>
  shares (\<open>k\<close> times the capacity of a pipe) left, however many transfers share the turns. The list of
  deferred transfers is empty afterwards, and of each transfer that was waiting for its share one of three things
  is true (\<open>finished\<close>): it is gone, all its bytes were moved from its file to its destination and the completion message is the only message of
  these turns; it is gone because the last call to move its data failed; or it is back to waiting for its
  destination, and then the last call to move its data failed, the bytes moved have been subtracted and bytes are left. A transfer that
  can still move data is never dropped from the list.\<close>

theorem deferred_drained:
  assumes "pipe_atomic os" and "moves_data os" and "idle os" and "server_inv (s :: sproc)"
    and "movable (heap s) (pipe_c s)" and "0 < k"
    and "\<forall>p x. heap s p = Some (RXfer x) \<and> xdefer x = READY \<longrightarrow> unat (nbytes_left x) \<le> k * unat (pipe_c s)"
  shows "wp null_resp (srv_turns k fuel os rc) (\<lambda>_ t. server_inv t \<and> deferred_list (srv t) = [] \<and>
    (\<exists>g. trace t = trace s @ g \<and> (\<forall>q x. heap s q = Some (RXfer x) \<and> xdefer x = READY \<longrightarrow> finished x g (heap t q)))) s"
proof -
  obtain j where k: "k = Suc j" using assms(6) by (cases k) auto
  have "within (Suc j * unat (pipe_c s)) (heap s)" using assms(7) k by (auto simp: within_def)
  from turns_drain [OF assms(1-5) this, of fuel rc] show ?thesis
    unfolding k by (rule wp_mono) (auto simp: turns_done_def)
qed

definition no_datagram :: received where
  "no_datagram = \<lparr>rc_buf = [], rc_fds = [-1, -1], rc_nfds = 0, rc_uid = 0, rc_gid = 0, rc_pid = 0\<rparr>"

lemma moving_os_idle: "idle moving_os"
  by (simp add: idle_def moving_os_def)

theorem deferred_drained_witness:
  "wp null_resp (srv_turns 10 0 moving_os no_datagram) (\<lambda>_ t. deferred_list (srv t) = [] \<and>
     finished (example_xfer READY) (trace t) (heap t 16)) (example_state READY) \<and>
   deferred_list (srv (example_state READY)) \<noteq> []"
proof
  show "wp null_resp (srv_turns 10 0 moving_os no_datagram) (\<lambda>_ t. deferred_list (srv t) = [] \<and>
     finished (example_xfer READY) (trace t) (heap t 16)) (example_state READY)"
    by (rule wp_mono [OF deferred_drained [OF moving_os_ok moving_os_idle example_inv]])
      (auto simp: movable_def ready_ok_def example_defs)
qed (simp add: example_defs deferred_list_def)

end
