(* ===== verification/Sfd_Events.thy ===== *)
theory Sfd_Events
  imports Sfd_Requests Sfd_Deferred
begin

text \<open>
  The events the main loop reacts to: a datagram on the request socket, an expired timer, a status
  channel that is writable again and a data channel that is writable or has failed, and the
  processing of deferred transfers (\<open>handle_reqfd\<close>, \<open>process_events\<close> and \<open>process_deferred\<close> of
  \<open>impl/server.c\<close>). One lemma per handler says that it keeps the invariant; the theory of the steps
  puts them together.
\<close>

section \<open>Datagrams\<close>

lemma close_fds_frame:
  fixes s :: "'m sproc_scheme"
  assumes "\<And>t. heap t = heap s \<Longrightarrow> srv t = srv s \<Longrightarrow> Q () t"
  shows "wp E (close_fds os fds n) Q s"
  by (auto simp: close_fds_def wp_simps intro!: assms)

lemma handle_datagram_inv:
  assumes "server_inv s" and "\<not> reopens_ready s (rc_buf rc)"
  shows "wp tolerated (handle_datagram os n rc) (\<lambda>_. isolated (rc_pid rc) s) s"
proof -
  have same: "isolated (rc_pid rc) s t" if "heap t = heap s" "srv t = srv s" for t
    using isolated_same [OF assms(1) that] .
  have after: "isolated pid s u" if "isolated pid s t" "heap u = heap t" "srv u = srv t" for pid t u
    using that by (simp add: isolated_def server_inv_def)
  show ?thesis
    unfolding handle_datagram_def
    by (auto simp: wp_simps intro!: send_frame close_fds_frame wp_mono [OF process_request_inv [OF assms]]
        intro: after same)
qed

lemma handle_datagram_defined:
  assumes "server_inv s"
  shows "wp tolerated (handle_datagram os n rc) (\<lambda>_ _. True) s"
  unfolding handle_datagram_def
  by (auto simp: wp_simps intro!: send_frame close_fds_frame wp_mono [OF process_request_defined [OF assms]])

lemma handle_datagram_spares:
  assumes "server_inv s" and "sfd_get_cmd (rc_buf rc) \<notin> {PROT_CMD_SEND_OPEN, PROT_CMD_CANCEL}"
  shows "wp tolerated (handle_datagram os n rc) (\<lambda>_. spared s) s"
proof -
  have after: "spared s u" if "spared s t" "heap u = heap t" "srv u = srv t" for t u
    using that by (simp add: spared_def server_inv_def)
  show ?thesis
    unfolding handle_datagram_def
    by (auto simp: wp_simps intro!: send_frame close_fds_frame wp_mono [OF process_request_spares [OF assms]]
        intro: after spared_same [OF assms(1)])
qed

section \<open>Timers\<close>

lemma timer_end:
  assumes "server_inv s" and "heap s tp = Some (RTimer tm)"
    and "\<And>t. server_inv t \<Longrightarrow> heap t = (heap s)(tp := None) \<Longrightarrow> deferred_list (srv t) = deferred_list (srv s) \<Longrightarrow>
      xfers (srv t) = xfers (srv s) \<Longrightarrow> (\<exists>r. trace t = trace s @ [(SysClose (tm_ident tm), r)]) \<Longrightarrow> Q () t"
  shows "wp E (seqP (erase_timer (tm_txnid tm)) (timer_delete os tp)) Q s"
proof -
  have inv: "sinv {} (heap s) (srv s)" using assms(1) by (simp add: server_inv_def)
  obtain t' where t': "xfer_table_erase (xfer_timers (srv s)) (tm_txnid tm) = Some t'"
    "sinv {} ((heap s)(tp := None)) ((srv s)\<lparr>xfer_timers := t'\<rparr>)"
    using erase_timer_table [OF inv assms(2)] by blast
  show ?thesis
    using t' assms(2) sinv_heap [OF inv assms(2)]
    by (auto simp: wp_simps wp_timer_delete server_inv_def intro!: assms(3))
qed

definition timer_fires :: "resrc_timer \<Rightarrow> 'm sproc_scheme \<Rightarrow> addr \<Rightarrow> resrc_xfer \<Rightarrow> bool" where
  "timer_fires tm s p x \<longleftrightarrow> p = tm_xfer_addr tm \<and> xfer_table_find (xfers (srv s)) (tm_txnid tm) = Some (Some p) \<and>
     heap s p = Some (RXfer x) \<and> nbytes_left x = xf_size (xfile x)"

text \<open>Of the transfers, none has appeared, and the changed ones have been marked as cancelled.\<close>

definition marked_only :: "'m sproc_scheme \<Rightarrow> 'm sproc_scheme \<Rightarrow> bool" where
  "marked_only s t \<longleftrightarrow> (\<forall>q y'. heap t q = Some (RXfer y') \<longrightarrow> (\<exists>y. heap s q = Some (RXfer y) \<and> y' \<in> {y, y\<lparr>xdefer := CANCEL\<rparr>}))"

lemma cancel_exact:
  assumes "server_inv s" and "heap s p = Some (RXfer x)"
  shows "wp tolerated (defer_xfer p CANCEL) (\<lambda>_ t. server_inv t \<and> heap t = (heap s)(p \<mapsto> RXfer (x\<lparr>xdefer := CANCEL\<rparr>)) \<and>
    trace t = trace s \<and> p \<in> set (deferred_list (srv t))) s"
proof (cases "xdefer x = CANCEL")
  case True
  then have "x\<lparr>xdefer := CANCEL\<rparr> = x" by (cases x) simp
  moreover have "p \<in> set (deferred_list (srv s))" using assms sinv_flag [of "{}" "heap s" "srv s" p x] True by (auto simp: server_inv_def)
  ultimately show ?thesis using True assms by (simp add: defer_xfer_def wp_simps server_inv_def fun_upd_idem)
next
  case False
  with assms defer_state_inv [OF assms, of CANCEL] show ?thesis by (simp add: wp_defer_CANCEL)
qed

definition timed_out :: "fd \<Rightarrow> syscall" where
  "timed_out fd = SysWrite fd (hdr_bytes \<lparr>hdr_cmd = SFD_XFER_STAT, hdr_stat = of_int ETIMEDOUT\<rparr>)"

text \<open>What an expired timer does: the timer goes; where it fires, the transfer is told, marked and listed.\<close>

definition expired :: "resrc_timer \<Rightarrow> addr \<Rightarrow> 'm sproc_scheme \<Rightarrow> 'm sproc_scheme \<Rightarrow> bool" where
  "expired tm tp s t \<longleftrightarrow> server_inv t \<and>
     ((\<exists>x. timer_fires tm s (tm_xfer_addr tm) x \<and>
         heap t = (heap s)(tm_xfer_addr tm \<mapsto> RXfer (x\<lparr>xdefer := CANCEL\<rparr>), tp := None) \<and>
         tm_xfer_addr tm \<in> set (deferred_list (srv t)) \<and>
         calls_since s t = [timed_out (stat_fd x), SysClose (tm_ident tm)]) \<or>
      (\<forall>x. \<not> timer_fires tm s (tm_xfer_addr tm) x) \<and> heap t = (heap s)(tp := None) \<and>
         deferred_list (srv t) = deferred_list (srv s) \<and> calls_since s t = [SysClose (tm_ident tm)])"

lemma timer_event_exact:
  fixes s :: "'a sproc_scheme"
  assumes "server_inv s" and "heap s tp = Some (RTimer tm)"
  shows "wp tolerated (timer_event os tp) (\<lambda>_. expired tm tp s) s"
proof -
  let ?rest = "seqP (erase_timer (tm_txnid tm)) (timer_delete os tp)"
  have inv: "sinv {} (heap s) (srv s)" using assms(1) by (simp add: server_inv_def)
  have spared: "wp tolerated ?rest (\<lambda>_. expired tm tp s) s" if "\<forall>x. \<not> timer_fires tm s (tm_xfer_addr tm) x"
    by (rule timer_end [OF assms]) (use that in \<open>auto simp: expired_def\<close>)
  show ?thesis
  proof (rule sinv_find [OF inv, of "tm_txnid tm"])
    assume "xfer_table_find (xfers (srv s)) (tm_txnid tm) = Some None"
    then show ?thesis using spared assms(2) by (simp add: timer_event_def wp_simps timer_fires_def)
  next
    fix p x assume p: "xfer_table_find (xfers (srv s)) (tm_txnid tm) = Some (Some p)" "heap s p = Some (RXfer x)" "p \<noteq> 0"
    show ?thesis
    proof (cases "p = tm_xfer_addr tm \<and> nbytes_left x = xf_size (xfile x)")
      case True
      then have fires: "timer_fires tm s p x" using p by (simp add: timer_fires_def)
      have "wp tolerated (defer_xfer p CANCEL) (\<lambda>_. wp tolerated ?rest (\<lambda>_. expired tm tp s)) u"
        if u: "heap u = heap s" "srv u = srv s" "\<exists>r. trace u = trace s @ [(timed_out (stat_fd x), r)]" for u
      proof (rule wp_mono [OF cancel_exact])
        show "server_inv u" "heap u p = Some (RXfer x)" using assms(1) p(2) u by (auto simp: server_inv_def)
        fix t :: "'a sproc_scheme" assume t: "server_inv t \<and> heap t = (heap u)(p \<mapsto> RXfer (x\<lparr>xdefer := CANCEL\<rparr>)) \<and> trace t = trace u \<and> p \<in> set (deferred_list (srv t))"
        have "heap t tp = Some (RTimer tm)" using t u(1) assms(2) p(2) by auto
        with t u fires True show "wp tolerated ?rest (\<lambda>_. expired tm tp s) t"
          by (intro timer_end) (auto simp: expired_def)
      qed
      then show ?thesis
        using True p assms(2) by (auto simp: timer_event_def wp_simps send_xfer_err_def wp_send_pdu timed_out_def)
    next
      case False
      then have "\<forall>x. \<not> timer_fires tm s (tm_xfer_addr tm) x" using p by (auto simp: timer_fires_def)
      with False p assms(2) spared show ?thesis by (auto simp: timer_event_def wp_simps)
    qed
  qed
qed

lemma timer_event_inv:
  assumes "server_inv s" and "heap s tp = Some (RTimer tm)"
  shows "wp tolerated (timer_event os tp) (\<lambda>_ t. server_inv t \<and> heap t tp = None \<and>
     (\<forall>q. q \<noteq> tp \<longrightarrow> heap t q \<noteq> heap s q \<longrightarrow> (\<exists>x. timer_fires tm s q x)) \<and> marked_only s t) s"
proof (rule wp_mono [OF timer_event_exact [OF assms]])
  show "server_inv t \<and> heap t tp = None \<and> (\<forall>q. q \<noteq> tp \<longrightarrow> heap t q \<noteq> heap s q \<longrightarrow> (\<exists>x. timer_fires tm s q x)) \<and> marked_only s t"
    if "expired tm tp s t" for t
    using that by (auto simp: expired_def marked_only_def timer_fires_def split: if_splits)
qed

section \<open>Responses\<close>

lemma response_event_inv:
  assumes "server_inv s" and "heap s rp = Some (RResp r)"
  shows "wp tolerated (response_event os err rp) (\<lambda>_ t. server_inv t \<and> heap t \<in> {heap s, (heap s)(rp := None)}) s"
proof -
  have inv: "sinv {} (heap s) (srv s)" using assms(1) by (simp add: server_inv_def)
  have "sinv {} ((heap s)(rp := None)) (srv s)"
    using sinv_free_resp [OF inv] not_in_addrs(5,6) [of "heap s" rp] assms(2) by blast
  then show ?thesis
    using assms by (auto simp: response_event_def wp_simps wp_send_pdu server_inv_def)
qed

section \<open>Data channels\<close>

lemma xfer_event_inv:
  assumes "server_inv s" and "heap s p = Some (RXfer x)" and "\<not> (err \<and> xdefer x = READY)"
  shows "wp tolerated (xfer_event os err p) (\<lambda>_ t. server_inv t \<and> others_kept p (heap s) (heap t)) s"
proof -
  have inv: "sinv {} (heap s) (srv s)" using assms(1) by (simp add: server_inv_def)
  have tag: "xtag x = XFER_RESRC_TAG" using sinv_heap [OF inv assms(2)] by simp
  have delete: "wp tolerated (PRESERVE_ERRNO (delete_registered_xfer os p))
      (\<lambda>_ t. server_inv t \<and> others_kept p (heap s) (heap t)) t"
    if "server_inv t" "heap t p = Some (RXfer x')" "xdefer x' = NONE" "others_kept p (heap s) (heap t)" for t x'
  proof -
    have invt: "sinv {} (heap t) (srv t)" using that(1) by (simp add: server_inv_def)
    have out: "p \<notin> set (deferred_list (srv t))" using sinv_flag [OF invt that(2)] that(3) by simp
    show ?thesis
      using sinv_deleted [OF invt that(2) out] that(4)
      by (auto simp: wp_simps wp_delete_registered [OF invt that(2) out] server_inv_def others_kept_def)
  qed
  show ?thesis
  proof (cases "xdefer x = NONE \<and> \<not> err")
    case True
    have "wp tolerated (transfer_file os p) (\<lambda>r t. if \<not> r
        then wp tolerated (PRESERVE_ERRNO (delete_registered_xfer os p)) (\<lambda>_ t. server_inv t \<and> others_kept p (heap s) (heap t)) t
        else server_inv t \<and> others_kept p (heap s) (heap t)) s"
    proof (rule wp_mono [OF transfer_file_post [OF assms(1,2)]])
      fix r t assume post: "transfer_post p x s r t"
      then obtain x' where x': "heap t p = Some (RXfer x')" "others_kept p (heap s) (heap t)" "\<not> r \<longrightarrow> xdefer x' = NONE"
        using True by (auto simp: transfer_post_def)
      have "server_inv t" using transfer_post_inv [OF post assms(1,2) x'(1)] True by simp
      with x' delete [of t x'] show "if \<not> r
        then wp tolerated (PRESERVE_ERRNO (delete_registered_xfer os p)) (\<lambda>_ t. server_inv t \<and> others_kept p (heap s) (heap t)) t
        else server_inv t \<and> others_kept p (heap s) (heap t)" by simp
    qed (use True in simp)
    then show ?thesis
      using True assms(2) tag by (simp add: xfer_event_def wp_bindP wp_seqP wp_assertP wp_is_resrc wp_get_xfer wp_if wp_whenP wp_ret)
  next
    case False
    then show ?thesis
      using assms tag delete [of s x]
      by (auto simp: xfer_event_def wp_bindP wp_seqP wp_assertP wp_is_resrc wp_get_xfer wp_if wp_whenP wp_ret)
        (cases "xdefer x"; simp)+
  qed
qed

section \<open>Properties\<close>

text \<open>C19: Only the user the server runs as may use it. A datagram whose kernel-attested user id is
  another one changes nothing in the server, whatever it contains: no file is opened, no transfer is created, cancelled or
  changed. One that came with descriptors is answered with \<open>EACCES\<close> on the first of them, and every
  descriptor is closed once; those are the only system calls made. One that came without descriptors is ignored, unless it is a \<open>CANCEL\<close>:
  then the server writes \<open>EACCES\<close> to whatever the first place of its array of descriptors holds, a descriptor the sender has not sent, and makes no other call.\<close>

theorem foreign_user_refused:
  assumes "pipe_atomic os" and "rc_uid rc \<noteq> srv_uid (srv s)" and "rc_nfds rc \<le> PROT_MAXFDS"
  shows "wp never (handle_datagram os n rc) (\<lambda>_ t. heap t = heap s \<and> srv t = srv s \<and>
    calls_since s t =
      (if rc_nfds rc = 0 \<and> sfd_get_cmd (rc_buf rc) \<noteq> PROT_CMD_CANCEL then []
       else SysWrite (rc_fds rc ! 0) (hdr_bytes \<lparr>hdr_cmd = SFD_XFER_STAT, hdr_stat = of_int EACCES\<rparr>) #
         map SysClose (take (rc_nfds rc) [rc_fds rc ! 0, rc_fds rc ! 1]))) (s :: 'm sproc_scheme)"
proof -
  have "rc_nfds rc = 0 \<or> rc_nfds rc = 1 \<or> rc_nfds rc = 2" using assms(3) by (auto simp: PROT_MAXFDS_def)
  then show ?thesis
    using assms
    by (auto simp: handle_datagram_def PROT_MAXFDS_def send_xfer_err_def wp_simps close_fds_def PIPE_BUF_def
        wp_send_pdu_atomic [OF assms(1)])
qed

theorem foreign_user_refused_witness:
  "wp never (handle_datagram quiet_os 16 (no_datagram\<lparr>rc_uid := 7, rc_nfds := 1, rc_fds := [11, -1]\<rparr>)) (\<lambda>_ t.
     heap t = heap (example_state NONE) \<and> SysClose 11 \<in> set (calls_since (example_state NONE) t)) (example_state NONE)"
  by (rule wp_mono [OF foreign_user_refused])
    (auto simp: no_datagram_def example_defs pipe_atomic_def quiet_os_def PROT_MAXFDS_def)

text \<open>C24: What an expired timer does, completely. It looks for a transfer in the slot of its transaction id; the timer
  fires if that transfer is at the address recorded when the timer was made and has all the bytes of its file left to send. Then
  the client is told \<open>ETIMEDOUT\<close> on the status channel, and exactly that transfer is marked as cancelled and listed to be deleted. In
  every other case no transfer is changed and no message sent: a transfer that has sent data is never cancelled, nor
  is one at another address. In both cases the timer is closed and freed, the invariant holds and nothing else is changed. (Slot and address are all that is
  compared: the transaction id is not, see the next lemma. An assertion stops the server where the transfer has already been cancelled and all transfers are deferred.)\<close>

theorem timeout_exact:
  assumes "server_inv s" and "heap s tp = Some (RTimer tm)"
  shows "wp tolerated (timer_event os tp) (\<lambda>_ t. server_inv t \<and>
     (case xfer_table_find (xfers (srv s)) (tm_txnid tm) of
        Some (Some p) \<Rightarrow> \<exists>x. heap s p = Some (RXfer x) \<and>
          (if p = tm_xfer_addr tm \<and> nbytes_left x = xf_size (xfile x)
           then heap t = (heap s)(p \<mapsto> RXfer (x\<lparr>xdefer := CANCEL\<rparr>), tp := None) \<and> p \<in> set (deferred_list (srv t)) \<and>
             calls_since s t = [timed_out (stat_fd x), SysClose (tm_ident tm)]
           else heap t = (heap s)(tp := None) \<and> deferred_list (srv t) = deferred_list (srv s) \<and>
             calls_since s t = [SysClose (tm_ident tm)])
      | _ \<Rightarrow> heap t = (heap s)(tp := None) \<and> deferred_list (srv t) = deferred_list (srv s) \<and>
          calls_since s t = [SysClose (tm_ident tm)])) s"
proof (rule wp_mono [OF timer_event_exact [OF assms]], rule conjI)
  fix t assume t: "expired tm tp s t"
  then show "server_inv t" by (simp add: expired_def)
  have inv: "sinv {} (heap s) (srv s)" using assms(1) by (simp add: server_inv_def)
  show "case xfer_table_find (xfers (srv s)) (tm_txnid tm) of
        Some (Some p) \<Rightarrow> \<exists>x. heap s p = Some (RXfer x) \<and>
          (if p = tm_xfer_addr tm \<and> nbytes_left x = xf_size (xfile x)
           then heap t = (heap s)(p \<mapsto> RXfer (x\<lparr>xdefer := CANCEL\<rparr>), tp := None) \<and> p \<in> set (deferred_list (srv t)) \<and>
             calls_since s t = [timed_out (stat_fd x), SysClose (tm_ident tm)]
           else heap t = (heap s)(tp := None) \<and> deferred_list (srv t) = deferred_list (srv s) \<and>
             calls_since s t = [SysClose (tm_ident tm)])
      | _ \<Rightarrow> heap t = (heap s)(tp := None) \<and> deferred_list (srv t) = deferred_list (srv s) \<and>
          calls_since s t = [SysClose (tm_ident tm)]"
    using t by (cases rule: sinv_find [OF inv, of "tm_txnid tm"]) (auto simp: expired_def timer_fires_def)
qed

definition timed_state :: sproc where
  "timed_state = (example_state NONE)\<lparr>heap := (heap (example_state NONE))(32 \<mapsto> RTimer
       \<lparr>tm_ident = 12, tm_tag = TIMER_RESRC_TAG, tm_txnid = 1, tm_xfer_addr = 48\<rparr>),
     srv := (srv (example_state NONE))\<lparr>xfer_timers := \<lparr>elems = [None, Some 32, None, None], capacity = 4, tsize = 1\<rparr>\<rparr>\<rparr>"

lemma timed_inv: "server_inv timed_state"
  using example_tables(2) [of _ 16] example_tables(2) [of _ 32]
  by (auto simp: server_inv_def sinv_defs heap_wf_def timed_state_def example_defs deferred_list_def contents_def
      xfer_addrs_def timer_addrs_def resrc_xfer_txnid_def resrc_timer_txnid_def cmd_defs split: if_splits)

theorem timeout_exact_witness:
  "wp tolerated (timer_event quiet_os 32) (\<lambda>_ t. server_inv t \<and> heap t = (heap timed_state)(32 := None)) timed_state"
  by (rule wp_mono [OF timeout_exact [OF timed_inv]])
    (auto simp: timed_state_def example_defs split: option.splits if_splits)

text \<open>A timer outlives the transfer it was made for. When a later transfer has been given the freed address and the same
  slot of the table, the old timer cancels it: here the timer of transaction 1 cancels transaction 5.\<close>

definition reused_state :: sproc where
  "reused_state = timed_state\<lparr>heap := (heap timed_state)(16 \<mapsto> RXfer ((example_xfer NONE)\<lparr>txnid := 5\<rparr>),
     32 \<mapsto> RTimer \<lparr>tm_ident = 12, tm_tag = TIMER_RESRC_TAG, tm_txnid = 1, tm_xfer_addr = 16\<rparr>)\<rparr>"

lemma timeout_hits_other:
  "server_inv reused_state \<and> wp tolerated (timer_event quiet_os 32) (\<lambda>_ t. \<exists>x. heap t 16 = Some (RXfer x) \<and> txnid x = 5 \<and> xdefer x = CANCEL) reused_state"
proof
  show inv: "server_inv reused_state"
    using example_tables(2) [of _ 16] example_tables(2) [of _ 32]
    by (auto simp: server_inv_def sinv_defs heap_wf_def reused_state_def timed_state_def example_defs deferred_list_def contents_def
        xfer_addrs_def timer_addrs_def resrc_xfer_txnid_def resrc_timer_txnid_def cmd_defs split: if_splits)
  have find: "xfer_table_find (xfers (srv reused_state)) 1 = Some (Some 16)"
    by (simp add: reused_state_def timed_state_def example_defs xfer_table_find_def indexof_def)
  show "wp tolerated (timer_event quiet_os 32) (\<lambda>_ t. \<exists>x. heap t 16 = Some (RXfer x) \<and> txnid x = 5 \<and> xdefer x = CANCEL) reused_state"
  proof (rule wp_mono [OF timer_event_exact [OF inv]])
    show "heap reused_state 32 = Some (RTimer \<lparr>tm_ident = 12, tm_tag = TIMER_RESRC_TAG, tm_txnid = 1, tm_xfer_addr = 16\<rparr>)"
      by (simp add: reused_state_def)
    show "\<exists>x. heap t 16 = Some (RXfer x) \<and> txnid x = 5 \<and> xdefer x = CANCEL"
      if "expired \<lparr>tm_ident = 12, tm_tag = TIMER_RESRC_TAG, tm_txnid = 1, tm_xfer_addr = 16\<rparr> 32 reused_state t" for t
      using that find by (auto simp: expired_def timer_fires_def) (auto simp: reused_state_def example_defs)
  qed
qed

end
