(* ===== verification/Sfd_Lifecycle.thy ===== *)
theory Sfd_Lifecycle
  imports Sfd_Deferral
begin

text \<open>
  Starting and stopping the server: \<open>srv_new\<close> and \<open>srv_delete\<close> of \<open>impl/server.c\<close>. A new server
  satisfies the invariant; deleting a server releases every transfer and timer.
\<close>

section \<open>Starting\<close>

text \<open>Memory is available, for what the two tables and the array need.\<close>

definition mallocs :: "os \<Rightarrow> bool" where
  "mallocs os \<longleftrightarrow> (\<forall>h n. 0 < fst (sys os h (SysMalloc n)))"

lemma new_table:
  assumes "unat n \<le> 2 ^ 31"
  shows "\<exists>k. k < 32 \<and> clp2 n = Some (2 ^ k) \<and> unat n \<le> 2 ^ k \<and> (1 \<le> unat n \<longrightarrow> 2 ^ k < 2 * unat n) \<and>
     xfer_table_new True True n = Some (Some \<lparr>elems = replicate (2 ^ k) None, capacity = 2 ^ k, tsize = 0\<rparr>)"
proof -
  obtain k where k: "k < 32" "clp2 n = Some (2 ^ k)" "unat n \<le> 2 ^ k" "\<forall>j < k. 2 ^ j < unat n"
    using clp2_loop_spec [of 0 n] assms by (auto simp: clp2_def)
  moreover have "2 ^ k < 2 * unat n" if "1 \<le> unat n" using that k(4) by (cases k) auto
  ultimately show ?thesis
    by (auto simp: xfer_table_new_def xfer_table_construct_def unat_pow2)
qed

text \<open>An empty table of \<open>2 ^ k\<close> slots.\<close>

definition empty_table :: "nat \<Rightarrow> addr xfer_table" where
  "empty_table k = \<lparr>elems = replicate (2 ^ k) None, capacity = 2 ^ k, tsize = 0\<rparr>"

lemma empty_table_simps [simp]:
  "elems (empty_table k) = replicate (2 ^ k) None" "capacity (empty_table k) = 2 ^ k" "tsize (empty_table k) = 0"
  by (simp_all add: empty_table_def)

lemma empty_table_inv: "k < 32 \<Longrightarrow> table_inv hash (empty_table k)" "contents (empty_table k) = {}"
proof -
  have "used (replicate m None) = {}" for m by (auto simp: used_def)
  then show "k < 32 \<Longrightarrow> table_inv hash (empty_table k)" by (auto simp: table_inv_def unat_pow2)
qed (simp add: contents_def)

lemma wp_table_alloc:
  assumes "mallocs os" and "unat n \<le> 2 ^ 31"
  obtains k where "k < 32" "unat n \<le> 2 ^ k" "1 \<le> unat n \<Longrightarrow> 2 ^ k < 2 * unat n"
    "\<And>E Q s. wp E (table_alloc os n) Q s = Q (Some (empty_table k))
       (call_state os (SysMalloc (8 * 2 ^ k)) (call_state os (SysMalloc 32) s))"
proof -
  obtain k where k: "k < 32" "clp2 n = Some (2 ^ k)" "unat n \<le> 2 ^ k" "1 \<le> unat n \<longrightarrow> 2 ^ k < 2 * unat n"
     "xfer_table_new True True n = Some (Some (empty_table k))"
    using new_table [OF assms(2)] unfolding empty_table_def by blast
  have mem: "0 < fst (sys os h (SysMalloc m))" for h m
    using assms(1) by (simp add: mallocs_def)
  show thesis
  proof (rule that [OF k(1,3)])
    show "2 ^ k < 2 * unat n" if "1 \<le> unat n" using that k(4) by blast
    show "wp E (table_alloc os n) Q s = Q (Some (empty_table k))
       (call_state os (SysMalloc (8 * 2 ^ k)) (call_state os (SysMalloc 32) s))" for E Q s
      using mem k(1,2,5) by (simp add: table_alloc_def wp_simps unat_pow2 not_le [symmetric])
  qed
qed

lemma destruct_empty: "destruct_elems del (replicate n None) = ret ()"
  by (induction n) (simp_all add: seqP_def bindP_def ret_def fun_eq_iff)

lemma delete_empty: "k < 32 \<Longrightarrow> xfer_table_delete del (empty_table k) = ret ()"
  by (simp add: xfer_table_delete_def xfer_table_destruct_def destruct_empty unat_pow2)

text \<open>The state of the poller does not matter here: creating one changes neither the heap nor the
  server.\<close>

lemma syspoll_new_frame:
  fixes s :: "'m sproc_scheme"
  assumes "0 < n" and "\<And>r t. heap t = heap s \<Longrightarrow> Q r t"
  shows "wp E (syspoll_new os n) Q s"
  using assms(1) by (auto simp: syspoll_new_def syspoll_delete_def wp_simps Let_def intro!: assms(2))

definition fresh_server :: "nat \<Rightarrow> server \<Rightarrow> bool" where
  "fresh_server k v \<longleftrightarrow> xfers v = empty_table k \<and> xfer_timers v = empty_table k \<and> ndeferred_xfers v = 0 \<and>
     2 ^ k \<le> length (deferred_xfers v) \<and> next_txnid v = 1"

lemma fresh_server_inv:
  assumes "k < 32" and "fresh_server k v"
  shows "sinv {} Map.empty v"
  using assms empty_table_inv [of k]
  by (auto simp: sinv_defs fresh_server_def heap_wf_def xfer_addrs_def timer_addrs_def deferred_list_def unat_pow2)

lemma srv_new_post:
  assumes "mallocs os" and "0 < maxfds" and "maxfds < 2 ^ 31"
  shows "wp E (srv_new os tmo rfd maxfds) (\<lambda>ok t. heap t = heap s \<and>
     (ok \<longrightarrow> (\<exists>k < 32. fresh_server k (srv t) \<and> nat maxfds \<le> 2 ^ k) \<and> reqfd (srv t) = rfd)) (s :: 'm sproc_scheme)"
proof -
  have n: "unat (word_of_int maxfds :: size_t) = nat maxfds"
  proof -
    have "maxfds < 2 ^ 64" using assms(3) by simp
    then show ?thesis using assms(2) by (simp add: unat_eq_nat_uint uint_word_of_int)
  qed
  have le: "unat (word_of_int maxfds :: size_t) \<le> 2 ^ 31" unfolding n using assms(3) by simp
  obtain k where k: "k < 32" "nat maxfds \<le> 2 ^ k" "2 ^ k < 2 * nat maxfds"
    "\<And>E Q (s :: 'm sproc_scheme). wp E (table_alloc os (word_of_int maxfds)) Q s = Q (Some (empty_table k))
       (call_state os (SysMalloc (8 * 2 ^ k)) (call_state os (SysMalloc 32) s))"
    using wp_table_alloc [OF assms(1) le] n assms(2) by (metis One_nat_def Suc_leI zero_less_nat_eq)
  have mem: "\<not> fst (sys os h (SysMalloc m)) \<le> 0" for h m
    using assms(1) by (auto simp: mallocs_def not_le)
  have len: "2 ^ k \<le> SIZEOF_XFER * nat maxfds div 8" using k(3) by (simp add: SIZEOF_XFER_def)
  show ?thesis
    using assms(2) k(1,2) len
    by (auto simp: srv_new_def wp_simps k(4) mem srv_delete_def delete_empty fresh_server_def syspoll_delete_def
        split: option.splits intro!: syspoll_new_frame)
qed

section \<open>Stopping\<close>

text \<open>No element occurs twice.\<close>

fun once :: "'e option list \<Rightarrow> bool" where
  "once [] \<longleftrightarrow> True"
| "once (x # xs) \<longleftrightarrow> (x = None \<or> x \<notin> set xs) \<and> once xs"

lemma onceI:
  "(\<And>i j. i < length xs \<Longrightarrow> j < length xs \<Longrightarrow> xs ! i = xs ! j \<Longrightarrow> xs ! i \<noteq> None \<Longrightarrow> i = j) \<Longrightarrow> once xs"
proof (induction xs)
  case (Cons x xs)
  have "i = j" if "i < length xs" "j < length xs" "xs ! i = xs ! j" "xs ! i \<noteq> None" for i j
    using Cons.prems [of "Suc i" "Suc j"] that by simp
  then have "once xs" by (rule Cons.IH)
  moreover have "x = None \<or> x \<notin> set xs"
    using Cons.prems [of 0 "Suc j" for j] by (fastforce simp: in_set_conv_nth)
  ultimately show ?case by simp
qed simp

lemma table_once:
  assumes "table_inv hash t"
  shows "once (elems t)"
proof (rule onceI)
  fix i j assume ij: "i < length (elems t)" "j < length (elems t)" "elems t ! i = elems t ! j" "elems t ! i \<noteq> None"
  then obtain e where e: "elems t ! i = Some e" "elems t ! j = Some e" by auto
  show "i = j" using table_inv_slot [OF assms ij(1) e(1)] table_inv_slot [OF assms ij(2) e(2)] by simp
qed

lemma destruct_elems_frees:
  fixes s :: "'m sproc_scheme"
  assumes del: "\<And>(s :: 'm sproc_scheme) p. kind p (heap s p) \<Longrightarrow>
      wp E (del p) (\<lambda>_ t. heap t = (heap s)(p := None) \<and> srv t = srv s) s"
    and "\<And>p. Some p \<in> set es \<Longrightarrow> kind p (heap s p)" and "once es"
  shows "wp E (destruct_elems del es)
    (\<lambda>_ t. heap t = (\<lambda>p. if Some p \<in> set es then None else heap s p) \<and> srv t = srv s) s"
  using assms(2,3)
proof (induction es arbitrary: s)
  case Nil
  then show ?case by (simp add: wp_simps)
next
  case (Cons x es)
  show ?case
  proof (cases x)
    case None
    with Cons.IH [of s] Cons.prems show ?thesis by (simp add: wp_simps)
  next
    case (Some p)
    have "wp E (destruct_elems del es)
        (\<lambda>_ u. heap u = (\<lambda>q. if Some q \<in> set (x # es) then None else heap s q) \<and> srv u = srv s) t"
      if t: "heap t = (heap s)(p := None)" "srv t = srv s" for t
    proof (rule wp_mono [OF Cons.IH])
      show "kind q (heap t q)" if "Some q \<in> set es" for q
        using Cons.prems t(1) that Some by auto
      show "once es" using Cons.prems(2) by simp
    qed (use t Some in auto)
    then show ?thesis
      using Some Cons.prems(1) [of p] by (auto simp: wp_seqP intro!: wp_mono [OF del])
  qed
qed

definition live_xfer :: "addr \<Rightarrow> resrc option \<Rightarrow> bool" where
  "live_xfer p r \<longleftrightarrow> p \<noteq> 0 \<and> (\<exists>x. r = Some (RXfer x) \<and> xtag x = XFER_RESRC_TAG)"

definition live_timer :: "addr \<Rightarrow> resrc option \<Rightarrow> bool" where
  "live_timer p r \<longleftrightarrow> p \<noteq> 0 \<and> (\<exists>x. r = Some (RTimer x) \<and> tm_tag x = TIMER_RESRC_TAG)"

lemma delete_live:
  fixes s :: "'m sproc_scheme"
  shows "live_xfer p (heap s p) \<Longrightarrow>
      wp E (delete_xfer_and_close_all_fds os p) (\<lambda>_ t. heap t = (heap s)(p := None) \<and> srv t = srv s) s"
    and "live_timer p (heap s p) \<Longrightarrow>
      wp E (timer_delete os p) (\<lambda>_ t. heap t = (heap s)(p := None) \<and> srv t = srv s) s"
  by (auto simp: live_xfer_def live_timer_def wp_delete_all_fds wp_timer_delete)

lemma table_delete_frees:
  fixes s :: "'m sproc_scheme"
  assumes "table_inv hash t" and "\<And>p. p \<in> contents t \<Longrightarrow> kind p (heap s p)"
    and "\<And>(s :: 'm sproc_scheme) p. kind p (heap s p) \<Longrightarrow>
      wp E (del p) (\<lambda>_ t. heap t = (heap s)(p := None) \<and> srv t = srv s) s"
  shows "wp E (xfer_table_delete del t)
    (\<lambda>_ u. heap u = (\<lambda>p. if p \<in> contents t then None else heap s p) \<and> srv u = srv s) s"
proof -
  have "length (elems t) = unat (capacity t)" using assms(1) by (simp add: table_inv_def)
  then show ?thesis
    using destruct_elems_frees [where kind = kind and del = del and es = "elems t" and s = s, OF assms(3) _ table_once [OF assms(1)]]
      assms(2)
    by (simp add: xfer_table_delete_def xfer_table_destruct_def contents_def)
qed

lemma srv_delete_post:
  fixes s :: "'m sproc_scheme"
  assumes "server_inv s"
  shows "wp E (srv_delete os (Some pl) rfd (Some (xfers (srv s))) (Some (xfer_timers (srv s))))
    (\<lambda>_ t. heap t = (\<lambda>p. if p \<in> xfer_addrs (heap s) \<union> timer_addrs (heap s) then None else heap s p)) s"
proof -
  have inv: "sinv {} (heap s) (srv s)" using assms by (simp add: server_inv_def)
  note tabs = sinv_tables [OF inv]
  have x: "live_xfer p (heap s p)" if "p \<in> contents (xfers (srv s))" for p
    using that tabs(2) sinv_heap [OF inv, of p] by (force simp: xfer_addrs_def live_xfer_def)
  have t: "live_timer p (heap s p)" if "p \<in> contents (xfer_timers (srv s))" for p
    using that tabs(4) sinv_heap [OF inv, of p] by (force simp: timer_addrs_def live_timer_def)
  have sep: "p \<notin> xfer_addrs (heap s)" if "p \<in> timer_addrs (heap s)" for p
    using that by (auto simp: timer_addrs_def xfer_addrs_def)
  have xs: "wp E (xfer_table_delete (delete_xfer_and_close_all_fds os) (xfers (srv s)))
      (\<lambda>_ t. heap t = (\<lambda>p. if p \<in> xfer_addrs (heap s) then None else heap s p) \<and> srv t = srv u) u"
    if "heap u = heap s" for u :: "'m sproc_scheme"
    by (rule wp_mono [OF table_delete_frees [OF tabs(1), of live_xfer u]])
      (use x that delete_live(1) tabs(2) in auto)
  have ts: "wp E (xfer_table_delete (timer_delete os) (xfer_timers (srv s)))
      (\<lambda>_ t. heap t = (\<lambda>p. if p \<in> xfer_addrs (heap s) \<union> timer_addrs (heap s) then None else heap s p)) u"
    if u: "heap u = (\<lambda>p. if p \<in> xfer_addrs (heap s) then None else heap s p)" for u :: "'m sproc_scheme"
  proof (rule wp_mono [OF table_delete_frees [OF tabs(3), of live_timer u]])
    show "live_timer p (heap u p)" if "p \<in> contents (xfer_timers (srv s))" for p
      using t [OF that] sep that u tabs(4) by simp
    show "wp E (timer_delete os p) (\<lambda>_ t. heap t = (heap v)(p := None) \<and> srv t = srv v) v"
      if "live_timer p (heap v p)" for v :: "'m sproc_scheme" and p
      using that by (rule delete_live)
  qed (use u tabs(4) in auto)
  show ?thesis
    unfolding srv_delete_def
    by (auto simp: wp_simps syspoll_delete_def intro!: wp_mono [OF xs] ts [simplified])
qed

section \<open>Properties\<close>

text \<open>A new server satisfies the invariant. When memory is available, \<open>srv_new\<close> returns, and if it
  succeeds both tables are empty and have room for the number of files asked for, no transfer is
  deferred, the array of deferred transfers has at least one place for every slot of the table, and
  the first transaction id is 1.\<close>

theorem srv_new_inv:
  assumes "mallocs os" and "0 < maxfds" and "maxfds < 2 ^ 31" and "heap s = Map.empty"
  shows "wp never (srv_new os tmo rfd maxfds) (\<lambda>ok t. ok \<longrightarrow> server_inv t \<and> reqfd (srv t) = rfd \<and>
      nat maxfds \<le> unat (capacity (xfers (srv t))) \<and> unat (capacity (xfers (srv t))) \<le> length (deferred_xfers (srv t)) \<and>
      deferred_list (srv t) = [] \<and> next_txnid (srv t) = 1) (s :: 'm sproc_scheme)"
  by (rule wp_mono [OF srv_new_post [OF assms(1-3)]])
    (use assms(4) fresh_server_inv in \<open>auto simp: server_inv_def fresh_server_def unat_pow2 deferred_list_def\<close>)

definition memory_os :: os where
  "memory_os = quiet_os\<lparr>sys := (\<lambda>h c. (case c of SysMalloc n \<Rightarrow> 32 | SysEpollCreate \<Rightarrow> 5 | _ \<Rightarrow> 0, EAGAIN))\<rparr>"

lemma memory_os_ok: "mallocs memory_os"
  by (simp add: memory_os_def mallocs_def)

theorem srv_new_inv_witness:
  "wp never (srv_new memory_os 1000 3 5) (\<lambda>ok t. ok \<longrightarrow> server_inv t \<and> reqfd (srv t) = 3)
     ((example_state NONE)\<lparr>heap := Map.empty\<rparr>)"
  by (rule wp_mono [OF srv_new_inv [OF memory_os_ok]]) simp_all

text \<open>C25: Deleting the server is memory safe and releases everything: every transfer and every timer is
  freed exactly once, and the only resources left are the stored responses, which are in no table.\<close>

theorem srv_delete_releases:
  assumes "server_inv (s :: 'm sproc_scheme)"
  shows "wp never (srv_delete os (Some (poller (srv s))) (reqfd (srv s)) (Some (xfers (srv s))) (Some (xfer_timers (srv s))))
    (\<lambda>_ t. xfer_addrs (heap t) = {} \<and> timer_addrs (heap t) = {} \<and>
       (\<forall>p r. heap s p = Some (RResp r) \<longrightarrow> heap t p = Some (RResp r))) s"
  by (rule wp_mono [OF srv_delete_post [OF assms]])
    (auto simp: xfer_addrs_def timer_addrs_def split: if_splits)

theorem srv_delete_releases_witness:
  "wp never (srv_delete quiet_os (Some (poller (srv (example_state READY)))) (reqfd (srv (example_state READY)))
      (Some (xfers (srv (example_state READY)))) (Some (xfer_timers (srv (example_state READY)))))
    (\<lambda>_ t. xfer_addrs (heap t) = {} \<and> timer_addrs (heap t) = {}) (example_state READY)"
  by (rule wp_mono [OF srv_delete_releases [OF example_inv]]) simp

end
