(* ===== verification/Sfd_Steps.thy ===== *)
theory Sfd_Steps
  imports Sfd_Events Sfd_Lifecycle
begin

text \<open>
  The server as a state machine. A step is one thing the main loop of \<open>impl/server.c\<close> does: it waits
  for events, receives a datagram, handles it, handles an expired timer, a status channel or a data
  channel, or processes the deferred transfers. \<open>run_step\<close> gives the code of each; \<open>possible\<close> is what
  the kernel guarantees of an event (it names a live resource of the right kind); \<open>hazard\<close> names the two
  situations in which the code frees a transfer that is still in the list of deferred
  transfers, from which it does not recover; \<open>enabled\<close> is an event that is possible and no hazard. The reachable states are those of a server that has just been created and their
  successors, in every order of enabled steps and for every behaviour of the kernel, which may change from
  step to step; only while the server is created does memory have to be available.
\<close>

section \<open>Steps\<close>

datatype server_event =
    EvWait int
  | EvReceive received
  | EvDatagram nat received
  | EvTimer addr
  | EvResponse bool addr
  | EvData bool addr
  | EvDeferred

definition run_step :: "os \<Rightarrow> server_event \<Rightarrow> (sproc, unit) prog" where
  "run_step os e =
     (case e of
        EvWait tmo \<Rightarrow> seqP (syspoll_epoll os tmo) (ret ())
      | EvReceive rc \<Rightarrow> bindP (getP (\<lambda>s. reqfd (srv s))) (\<lambda>fd. seqP (us_recv os fd (rc\<lparr>rc_nfds := PROT_MAXFDS\<rparr>)) (ret ()))
      | EvDatagram n rc \<Rightarrow> handle_datagram os n rc
      | EvTimer p \<Rightarrow> timer_event os p
      | EvResponse err p \<Rightarrow> response_event os err p
      | EvData err p \<Rightarrow> xfer_event os err p
      | EvDeferred \<Rightarrow> process_deferred os)"

fun possible :: "sproc \<Rightarrow> server_event \<Rightarrow> bool" where
  "possible s (EvWait tmo) \<longleftrightarrow> True"
| "possible s (EvReceive rc) \<longleftrightarrow> length (rc_fds rc) = PROT_MAXFDS"
| "possible s (EvDatagram n rc) \<longleftrightarrow> True"
| "possible s (EvTimer p) \<longleftrightarrow> (case heap s p of Some (RTimer tm) \<Rightarrow> True | _ \<Rightarrow> False)"
| "possible s (EvResponse err p) \<longleftrightarrow> (case heap s p of Some (RResp r) \<Rightarrow> True | _ \<Rightarrow> False)"
| "possible s (EvData err p) \<longleftrightarrow> (case heap s p of Some (RXfer x) \<Rightarrow> True | _ \<Rightarrow> False)"
| "possible s EvDeferred \<longleftrightarrow> True"

text \<open>A \<open>SEND_OPEN\<close> for a transfer that is waiting in the list of deferred transfers for its next share, and an
  error on the data channel of such a transfer.\<close>

fun hazard :: "sproc \<Rightarrow> server_event \<Rightarrow> bool" where
  "hazard s (EvDatagram n rc) \<longleftrightarrow> reopens_ready s (rc_buf rc)"
| "hazard s (EvData err p) \<longleftrightarrow> err \<and> (case heap s p of Some (RXfer x) \<Rightarrow> xdefer x = READY | _ \<Rightarrow> False)"
| "hazard s _ \<longleftrightarrow> False"

definition enabled :: "sproc \<Rightarrow> server_event \<Rightarrow> bool" where
  "enabled s e \<longleftrightarrow> possible s e \<and> \<not> hazard s e"

lemma enabled_simps [simp]:
  "enabled s (EvWait tmo)"
  "enabled s (EvReceive rc) \<longleftrightarrow> length (rc_fds rc) = PROT_MAXFDS"
  "enabled s (EvDatagram n rc) \<longleftrightarrow> \<not> reopens_ready s (rc_buf rc)"
  "enabled s (EvTimer p) \<longleftrightarrow> (case heap s p of Some (RTimer tm) \<Rightarrow> True | _ \<Rightarrow> False)"
  "enabled s (EvResponse err p) \<longleftrightarrow> (case heap s p of Some (RResp r) \<Rightarrow> True | _ \<Rightarrow> False)"
  "enabled s (EvData err p) \<longleftrightarrow> (case heap s p of Some (RXfer x) \<Rightarrow> \<not> (err \<and> xdefer x = READY) | _ \<Rightarrow> False)"
  "enabled s EvDeferred"
  by (auto simp: enabled_def split: option.splits resrc.splits)

inductive server_step :: "sproc \<Rightarrow> server_event \<Rightarrow> sproc \<Rightarrow> bool" where
  step: "cmsgs_fit os \<Longrightarrow> enabled s e \<Longrightarrow> run_step os e s = Ok () t \<Longrightarrow> server_step s e t"

inductive reachable :: "sproc \<Rightarrow> bool" where
  start: "mallocs os \<Longrightarrow> 0 < maxfds \<Longrightarrow> maxfds < 2 ^ 31 \<Longrightarrow> heap s = Map.empty \<Longrightarrow>
    srv_new os tmo rfd maxfds s = Ok True t \<Longrightarrow> reachable t"
| later: "reachable s \<Longrightarrow> server_step s e t \<Longrightarrow> reachable t"

inductive_cases server_stepE: "server_step s e t"
inductive_simps server_step_iff: "server_step s e t"

section \<open>Every step keeps the invariant\<close>

lemma tolerates_defined: "wp defined m Q s \<Longrightarrow> wp tolerated m Q s"
  by (erule wp_weaken) (auto simp: defined_def tolerated_def split: failure.splits)

lemma epoll_inv: "server_inv s \<Longrightarrow> wp E (syspoll_epoll os tmo) (\<lambda>_. server_inv) s"
  by (simp add: syspoll_epoll_def wp_simps server_inv_def sinv_defs deferred_list_def)

lemma receive_inv:
  assumes "cmsgs_fit os" and "length (rc_fds rc) = PROT_MAXFDS" and "server_inv s"
  shows "wp tolerated (us_recv os fd (rc\<lparr>rc_nfds := PROT_MAXFDS\<rparr>)) (\<lambda>_. server_inv) s"
  by (rule tolerates_defined, rule wp_mono [OF us_recv_post [OF assms(1)]])
    (use assms(2,3) in \<open>auto simp: PROT_MAXFDS_def server_inv_def calls_only_kept\<close>)

lemma run_step_inv:
  assumes "cmsgs_fit os" and "server_inv s" and "enabled s e"
  shows "wp tolerated (run_step os e) (\<lambda>_. server_inv) s"
proof (cases e)
  case (EvWait tmo)
  with assms(2) show ?thesis by (simp add: run_step_def wp_simps epoll_inv)
next
  case (EvReceive rc)
  with assms show ?thesis by (simp add: run_step_def wp_simps receive_inv)
next
  case (EvDatagram n rc)
  with assms show ?thesis
    by (auto simp: run_step_def isolated_def intro: wp_mono [OF handle_datagram_inv])
next
  case (EvTimer p)
  with assms(3) obtain tm where "heap s p = Some (RTimer tm)" by (auto split: option.splits resrc.splits)
  with EvTimer assms(2) show ?thesis by (auto simp: run_step_def intro: wp_mono [OF timer_event_inv])
next
  case (EvResponse err p)
  with assms(3) obtain r where "heap s p = Some (RResp r)" by (auto split: option.splits resrc.splits)
  with EvResponse assms(2) show ?thesis by (auto simp: run_step_def intro: wp_mono [OF response_event_inv])
next
  case (EvData err p)
  with assms(3) obtain x where "heap s p = Some (RXfer x)" "\<not> (err \<and> xdefer x = READY)"
    by (auto split: option.splits resrc.splits)
  with EvData assms(2) show ?thesis by (auto simp: run_step_def intro: wp_mono [OF xfer_event_inv])
next
  case EvDeferred
  with assms(2) show ?thesis by (auto simp: run_step_def intro: wp_mono [OF any_kernel.all_served])
qed

text \<open>The two hazards themselves are handled without an undefined operation; what they leave behind is not consistent.\<close>

lemma error_frees:
  fixes s :: "'m sproc_scheme"
  assumes "server_inv s" and "heap s p = Some (RXfer x)" and "xdefer x = READY"
  shows "wp never (xfer_event os True p) (\<lambda>_ t. heap t p = None \<and> deferred_xfers (srv t) = deferred_xfers (srv s) \<and>
    ndeferred_xfers (srv t) = ndeferred_xfers (srv s)) s"
proof -
  have inv: "sinv {} (heap s) (srv s)" using assms(1) by (simp add: server_inv_def)
  have tag: "xtag x = XFER_RESRC_TAG" "p \<noteq> 0" using sinv_heap [OF inv assms(2)] by auto
  obtain t' where "xfer_table_erase (xfers (srv s)) (txnid x) = Some t'" using live_erase [OF inv assms(2)] by blast
  with assms(2,3) tag show ?thesis
    by (auto simp: xfer_event_def delete_registered_xfer_def deregister_xfer_def wp_simps wp_delete_all_fds Let_def)
qed

lemma run_step_defined:
  assumes "cmsgs_fit os" and "server_inv s" and "possible s e"
  shows "wp tolerated (run_step os e) (\<lambda>_ _. True) s"
proof (cases "hazard s e")
  case False
  with assms show ?thesis by (intro wp_mono [OF run_step_inv]) (simp_all add: enabled_def)
next
  case True
  then show ?thesis
  proof (cases rule: hazard.cases [of "(s, e)"])
    case (1 t n rc)
    with True handle_datagram_defined [OF assms(2)] show ?thesis by (simp add: run_step_def)
  next
    case (2 t err p)
    with True obtain x where "heap s p = Some (RXfer x)" "xdefer x = READY" err by (auto split: option.splits resrc.splits)
    then have "wp never (xfer_event os True p) (\<lambda>_ _. True) s" by (intro wp_mono [OF error_frees [OF assms(2)]]) simp_all
    then have "wp tolerated (xfer_event os True p) (\<lambda>_ _. True) s" by (rule wp_never)
    with 2 \<open>err\<close> show ?thesis by (simp add: run_step_def)
  qed auto
qed

lemma reachable_server_inv: "reachable s \<Longrightarrow> server_inv s"
proof (induction rule: reachable.induct)
  case (start os maxfds s tmo rfd t)
  then have "\<exists>k<32. fresh_server k (srv t)" "heap t = Map.empty"
    using wp_Ok [OF srv_new_post [OF start(1-3), where s = s] start(5)] by auto
  then show ?case using fresh_server_inv by (auto simp: server_inv_def)
next
  case (later s e t)
  then show ?case by (auto elim!: server_stepE intro: wp_Ok [OF run_step_inv])
qed

section \<open>From events to steps\<close>

text \<open>The step that belongs to an event of a live resource.\<close>

fun step_of :: "bool \<Rightarrow> addr \<Rightarrow> resrc \<Rightarrow> server_event" where
  "step_of err p (RXfer x) = EvData err p"
| "step_of err p (RResp r) = EvResponse err p"
| "step_of err p (RTimer t) = EvTimer p"

lemma has_bits [simp]:
  "\<not> has 0 b" "has SYSPOLL_ERROR SYSPOLL_ERROR" "\<not> has SYSPOLL_ERROR SYSPOLL_TERM"
  "\<not> has SYSPOLL_READ SYSPOLL_TERM" "\<not> has SYSPOLL_READ SYSPOLL_ERROR"
  "\<not> has SYSPOLL_WRITE SYSPOLL_TERM" "\<not> has SYSPOLL_WRITE SYSPOLL_ERROR"
  "\<not> has (SYSPOLL_WRITE OR SYSPOLL_READ) SYSPOLL_TERM" "\<not> has (SYSPOLL_WRITE OR SYSPOLL_READ) SYSPOLL_ERROR"
  by (simp_all add: has_def event_defs)

lemma get_event:
  assumes "i < length (pevents (poller (srv s)))" and "ee_data (pevents (poller (srv s)) ! i) = URes p"
    and "heap s p = Some r" and "resrc_ident r \<noteq> sigfd (poller (srv s))"
  shows "\<exists>ev. syspoll_get os i s = Ok \<lparr>se_events = ev, se_udata = URes p\<rparr> s \<and> \<not> has ev SYSPOLL_TERM \<and>
    has ev SYSPOLL_ERROR = has (ee_events (pevents (poller (srv s)) ! i)) EPOLLERR"
  using assms by (auto simp: syspoll_get_def udata_ident_def bindP_def getP_def ret_def Let_def)

lemma dispatch:
  assumes "server_inv s" and "i < length (pevents (poller (srv s)))" and "ee_data (pevents (poller (srv s)) ! i) = URes p"
    and "heap s p = Some r" and "resrc_ident r \<noteq> sigfd (poller (srv s))" and "resrc_ident r \<noteq> reqfd (srv s)"
  shows "process_event fuel os i rc s =
    bindP (run_step os (step_of (has (ee_events (pevents (poller (srv s)) ! i)) EPOLLERR) p r)) (\<lambda>_. ret (True, rc)) s"
proof -
  let ?err = "has (ee_events (pevents (poller (srv s)) ! i)) EPOLLERR"
  obtain ev where ev: "syspoll_get os i s = Ok \<lparr>se_events = ev, se_udata = URes p\<rparr> s"
    "\<not> has ev SYSPOLL_TERM" "has ev SYSPOLL_ERROR = ?err"
    using get_event [OF assms(2-5)] by blast
  have wf: "resrc_wf r" using sinv_heap assms(1,4) by (auto simp: server_inv_def)
  have tags: "XFER_RESRC_TAG \<noteq> TIMER_RESRC_TAG" "XFER_RESRC_TAG \<noteq> PENDING_RESP_TAG" "PENDING_RESP_TAG \<noteq> TIMER_RESRC_TAG"
    by (simp_all add: XFER_RESRC_TAG_def TIMER_RESRC_TAG_def PENDING_RESP_TAG_def)
  show ?thesis
    using ev wf tags assms(4,6)
    by (cases r)
      (simp_all add: process_event_def udata_ident_def bindP_def seqP_def getP_def ret_def Let_def run_step_def
        is_timer_def is_response_def get_tag_def)
qed

section \<open>Properties\<close>

text \<open>C11: The loop over the events takes the steps of this state machine: for an event that names a live
  resource, \<open>process_event\<close> does exactly what the step for that kind of resource does, and then goes on
  with the next event.\<close>

theorem process_event_is_step:
  assumes "server_inv s" and "i < length (pevents (poller (srv s)))" and "ee_data (pevents (poller (srv s)) ! i) = URes p"
    and "heap s p = Some r" and "resrc_ident r \<noteq> sigfd (poller (srv s))" and "resrc_ident r \<noteq> reqfd (srv s)"
  shows "process_event fuel os i rc s =
    bindP (run_step os (step_of (has (ee_events (pevents (poller (srv s)) ! i)) EPOLLERR) p r)) (\<lambda>_. ret (True, rc)) s"
  using assms by (rule dispatch)

definition polled_state :: sproc where
  "polled_state = (example_state NONE)\<lparr>srv := (srv (example_state NONE))\<lparr>poller :=
     (poller (srv (example_state NONE)))\<lparr>pevents := [\<lparr>ee_events = EPOLLOUT, ee_data = URes 16\<rparr>]\<rparr>\<rparr>\<rparr>"

lemma polled_inv: "server_inv polled_state"
  using example_inv [of NONE] by (simp add: polled_state_def server_inv_def sinv_defs deferred_list_def)

theorem process_event_is_step_witness:
  "process_event 0 moving_os 0 no_datagram polled_state =
     bindP (run_step moving_os (EvData False 16)) (\<lambda>_. ret (True, no_datagram)) polled_state"
proof -
  have "\<not> has EPOLLOUT EPOLLERR" by (simp add: has_def event_defs)
  then show ?thesis
    using process_event_is_step [OF polled_inv, of 0 16 "RXfer (example_xfer NONE)" 0 moving_os no_datagram]
    by (simp add: polled_state_def example_defs)
qed

text \<open>C38: A failed data channel leaves a dangling pointer. When the poller reports an error for a
  transfer that is waiting in the list of deferred transfers for its next share, \<open>process_events\<close>
  frees the transfer but not its entry in the list; if it is the first one, \<open>process_deferred\<close>
  reads freed memory at the end of the same turn.\<close>

theorem error_leaves_dangling:
  assumes "server_inv s" and "heap s p = Some (RXfer x)" and "xdefer x = READY"
  shows "wp never (xfer_event os True p) (\<lambda>_ t. heap t p = None \<and> p \<in> set (deferred_list (srv t)) \<and> \<not> server_inv t \<and>
    (hd (deferred_list (srv t)) = p \<longrightarrow> process_deferred os t = Fail (Undefined ''read of freed memory''))) s"
proof -
  have inv: "sinv {} (heap s) (srv s)" using assms(1) by (simp add: server_inv_def)
  have listed: "p \<in> set (deferred_list (srv s))" using sinv_flag [OF inv assms(2)] assms(3) by simp
  have dangling: "p \<in> set (deferred_list (srv t)) \<and> \<not> server_inv t \<and>
      (hd (deferred_list (srv t)) = p \<longrightarrow> process_deferred os t = Fail (Undefined ''read of freed memory''))"
    if t: "heap t p = None" "deferred_xfers (srv t) = deferred_xfers (srv s)" "ndeferred_xfers (srv t) = ndeferred_xfers (srv s)"
    for t :: "'a sproc_scheme"
  proof -
    have list: "deferred_list (srv t) = deferred_list (srv s)" using t by (simp add: deferred_list_def)
    then have "\<not> server_inv t"
      using listed t(1) by (auto simp: server_inv_def sinv_defs xfer_addrs_def)
    moreover have "process_deferred os t = Fail (Undefined ''read of freed memory'')" if "hd (deferred_list (srv t)) = p"
    proof -
      have ne: "deferred_list (srv t) \<noteq> []" using listed list by auto
      then have pos: "0 < ndeferred_xfers (srv t)" "0 < length (deferred_xfers (srv t))" by (auto simp: deferred_list_def)
      moreover have "deferred_xfers (srv t) ! 0 = p"
        using hd_conv_nth [OF ne] that pos by (simp add: deferred_list_def)
      ultimately show ?thesis
        using t(1)
        by (simp add: process_deferred_def deferred_loop.simps [of "Suc n" for n] bindP_def seqP_def getP_def Let_def
            is_xfer_def get_tag_def undefP_def)
    qed
    ultimately show ?thesis using listed list by simp
  qed
  show ?thesis by (rule wp_mono [OF error_frees [OF assms]]) (use dangling in blast)
qed

theorem error_leaves_dangling_witness:
  "wp never (xfer_event quiet_os True 16) (\<lambda>_ t. heap t 16 = None \<and> \<not> server_inv t) (example_state READY)"
  by (rule wp_mono [OF error_leaves_dangling [OF example_inv]]) (auto simp: example_defs)

end
