(* ===== verification/Sfd_Registry.thy ===== *)
theory Sfd_Registry
  imports Sfd_Steps
begin

text \<open>
  The poller's interest list and the heap. The kernel keeps, for every registered descriptor, the
  address the server attached to it, and hands that address back with an event. The interest list is
  a function of the history of system calls; \<open>sh\<close> is the set of descriptors whose open file another
  process still holds, which are not removed from the list when the server closes them (the comment
  in \<open>delete_registered_xfer\<close> of \<open>impl/server.c\<close>). The invariant \<open>registry\<close> says that every address
  in the list is that of a live resource with that descriptor, and that the resources of a set \<open>K\<close>,
  those of the events that are still to be handled, are alive. \<open>keeps\<close> collects the programs
  that preserve it.
\<close>

section \<open>The interest list\<close>

definition interest_step :: "fd set \<Rightarrow> fd \<Rightarrow> syscall \<times> int \<Rightarrow> (fd \<Rightarrow> udata option) \<Rightarrow> (fd \<Rightarrow> udata option)" where
  "interest_step sh ep c I =
     (case fst c of
        SysEpollAdd e fd m ud \<Rightarrow> if e = ep \<and> snd c = 0 then I(fd \<mapsto> ud) else I
      | SysEpollDel e fd \<Rightarrow> if e = ep \<and> snd c = 0 then I(fd := None) else I
      | SysClose fd \<Rightarrow> if fd \<in> sh then I else I(fd := None)
      | _ \<Rightarrow> I)"

definition interest :: "fd set \<Rightarrow> fd \<Rightarrow> history \<Rightarrow> fd \<Rightarrow> udata option" where
  "interest sh ep h = fold (interest_step sh ep) h Map.empty"

lemma interest_snoc [simp]: "interest sh ep (h @ [c]) = interest_step sh ep c (interest sh ep h)"
  by (simp add: interest_def)

text \<open>What \<open>epoll_ctl(2)\<close> and \<open>epoll(7)\<close> promise: a registered descriptor can be removed. Descriptors the
  server has created itself are not shared with another process: timers, and the duplicate of a status
  channel, whose other descriptors have been closed by the time it is.\<close>

definition epoll_ok :: "os \<Rightarrow> fd set \<Rightarrow> bool" where
  "epoll_ok os sh \<longleftrightarrow>
     (\<forall>h ep fd. interest sh ep h fd \<noteq> None \<longrightarrow> fst (sys os h (SysEpollDel ep fd)) = 0) \<and>
     (\<forall>h fd. fst (sys os h (SysDup fd)) \<notin> sh) \<and> (\<forall>h. fst (sys os h SysTimerfdCreate) \<notin> sh)"

section \<open>The invariant\<close>

fun pollable :: "resrc \<Rightarrow> bool" where
  "pollable (RXfer x) \<longleftrightarrow> cmd x \<noteq> PROT_CMD_FILE_OPEN"
| "pollable (RResp r) \<longleftrightarrow> True"
| "pollable (RTimer t) \<longleftrightarrow> True"

fun unshared :: "fd set \<Rightarrow> resrc \<Rightarrow> bool" where
  "unshared sh (RXfer x) \<longleftrightarrow> True"
| "unshared sh (RResp r) \<longleftrightarrow> rs_stat_fd r \<notin> sh"
| "unshared sh (RTimer t) \<longleftrightarrow> tm_ident t \<notin> sh"

definition registered :: "fd set \<Rightarrow> 'm sproc_scheme \<Rightarrow> fd \<Rightarrow> addr \<Rightarrow> bool" where
  "registered sh s fd p \<longleftrightarrow> interest sh (epollfd (poller (srv s))) (trace s) fd = Some (URes p)"

definition registry :: "fd set \<Rightarrow> addr set \<Rightarrow> 'm sproc_scheme \<Rightarrow> bool" where
  "registry sh K s \<longleftrightarrow>
     (\<forall>fd p. registered sh s fd p \<longrightarrow> (\<exists>r. heap s p = Some r \<and> resrc_ident r = fd \<and> pollable r \<and> unshared sh r)) \<and>
     (\<forall>q\<in>K. \<exists>r. heap s q = Some r \<and> pollable r)"

text \<open>A resource that no descriptor is registered for and no pending event names: it may be freed.\<close>

definition loose :: "fd set \<Rightarrow> addr set \<Rightarrow> addr \<Rightarrow> 'm sproc_scheme \<Rightarrow> bool" where
  "loose sh K p s \<longleftrightarrow> p \<notin> K \<and> (\<forall>fd. \<not> registered sh s fd p)"

text \<open>Calls that register nothing only shrink the list.\<close>

definition adds_nothing :: "syscall \<Rightarrow> bool" where
  "adds_nothing c \<longleftrightarrow> (case c of SysEpollAdd e fd m ud \<Rightarrow> False | _ \<Rightarrow> True)"

lemma registered_call:
  "adds_nothing c \<Longrightarrow> registered sh (call_state os c s) fd p \<Longrightarrow> registered sh s fd p"
  by (auto simp: registered_def adds_nothing_def interest_step_def split: syscall.splits if_splits)

lemma registered_add:
  "registered sh (call_state os (SysEpollAdd (epollfd (poller (srv s))) fd m ud) s) fd' p \<longleftrightarrow>
     (if fd' = fd \<and> fst (sys os (trace s) (SysEpollAdd (epollfd (poller (srv s))) fd m ud)) = 0
      then ud = URes p else registered sh s fd' p)"
  by (auto simp: registered_def interest_step_def)

lemma registered_same:
  "trace t = trace s \<Longrightarrow> epollfd (poller (srv t)) = epollfd (poller (srv s)) \<Longrightarrow> registered sh t = registered sh s"
  by (simp add: registered_def fun_eq_iff)

lemma registry_shrink:
  assumes "registry sh K s" and "heap t = heap s" and "\<And>fd p. registered sh t fd p \<Longrightarrow> registered sh s fd p"
  shows "registry sh K t"
  using assms unfolding registry_def by metis

lemma registry_call: "adds_nothing c \<Longrightarrow> registry sh K s \<Longrightarrow> registry sh K (call_state os c s)"
  by (rule registry_shrink [of sh K s]) (auto dest: registered_call)

lemma loose_call: "adds_nothing c \<Longrightarrow> loose sh K p s \<Longrightarrow> loose sh K p (call_state os c s)"
  unfolding loose_def using registered_call by blast

lemma registry_set_errno [simp]: "registry sh K (s\<lparr>errno := e\<rparr>) = registry sh K s"
  by (simp add: registry_def registered_def)

lemma loose_set_errno [simp]: "loose sh K p (s\<lparr>errno := e\<rparr>) = loose sh K p s"
  by (simp add: loose_def registered_def)

lemma registry_free: "registry sh K s \<Longrightarrow> loose sh K p s \<Longrightarrow> registry sh K (s\<lparr>heap := (heap s)(p := None)\<rparr>)"
  unfolding registry_def loose_def registered_def by auto

lemma registry_fresh: "registry sh K s \<Longrightarrow> heap s p = None \<Longrightarrow> loose sh K p s"
  unfolding registry_def loose_def by fastforce

lemma registry_put: "registry sh K s \<Longrightarrow> loose sh K p s \<Longrightarrow> registry sh K (s\<lparr>heap := (heap s)(p \<mapsto> r)\<rparr>)"
  unfolding registry_def loose_def registered_def by auto

lemma registry_upd:
  assumes "registry sh K s" and "heap s p = Some r"
    and "resrc_ident r' = resrc_ident r" "pollable r' = pollable r" "unshared sh r' = unshared sh r"
  shows "registry sh K (s\<lparr>heap := (heap s)(p \<mapsto> r')\<rparr>)"
  using assms unfolding registry_def registered_def by (simp, metis option.inject)

lemma loose_heap [simp]: "loose sh K p (s\<lparr>heap := h\<rparr>) = loose sh K p s"
  by (simp add: loose_def registered_def)

lemma open_file_loose:
  "registry sh K s \<Longrightarrow> heap s p = Some (RXfer x) \<Longrightarrow> cmd x = PROT_CMD_FILE_OPEN \<Longrightarrow> loose sh K p s"
  unfolding registry_def loose_def by fastforce

section \<open>Programs that keep it\<close>

abbreviation keeps :: "fd set \<Rightarrow> addr set \<Rightarrow> ('m sproc_scheme, 'a) prog \<Rightarrow> bool" where
  "keeps sh K m \<equiv> stable (registry sh K) m"

lemma keeps_set_errno [stable_intros]: "keeps sh K (set_errno n)"
  by (simp add: stable_def wp_simps)

lemma keeps_PRESERVE_ERRNO [stable_intros]: "keeps sh K m \<Longrightarrow> keeps sh K (PRESERVE_ERRNO m)"
  unfolding PRESERVE_ERRNO_def by (intro stable_intros)

lemma keeps_syscall [stable_intros]: "adds_nothing c \<Longrightarrow> keeps sh K (syscall os c)"
  by (simp add: stable_def wp_simps registry_call)

lemma adds_nothing_simps [simp]:
  "adds_nothing (SysOpen n)" "adds_nothing (SysClose fd)" "adds_nothing (SysRead fd k)" "adds_nothing (SysWrite fd bs)"
  "adds_nothing (SysDup fd)" "adds_nothing (SysFstat fd)" "adds_nothing (SysSetlk fd a b)" "adds_nothing (SysLseek fd a w)"
  "adds_nothing (SysSendfile fd fd' z)" "adds_nothing (SysSplice fd fd' z)" "adds_nothing (SysPipe i)" "adds_nothing (SysGetfl fd)"
  "adds_nothing (SysSetfl fd i)" "adds_nothing (SysEpollDel e fd)" "adds_nothing (SysEpollWait fd i)" "adds_nothing SysTimerfdCreate"
  "adds_nothing (SysTimerfdSettime fd m k)" "adds_nothing (SysRecvmsg fd m)" "adds_nothing (SysMalloc m)" "adds_nothing SysPageSize"
  "adds_nothing SysGeteuid" "adds_nothing SysEpollCreate" "adds_nothing SysSignalfd" "adds_nothing SysSigmask"
  by (simp_all add: adds_nothing_def)

lemma keeps_close_fd [stable_intros]: "keeps sh K (close_fd os fd)"
  unfolding close_fd_def by (intro stable_intros) simp

lemma keeps_pipe_c [stable_intros]: "keeps sh K (modP (\<lambda>s. s\<lparr>pipe_c := f s\<rparr>))"
  by (simp add: stable_def wp_simps registry_def registered_def)

lemma keeps_mod_srv [stable_intros]:
  "(\<And>v. epollfd (poller (f v)) = epollfd (poller v)) \<Longrightarrow> keeps sh K (mod_srv f)"
  by (simp add: stable_def mod_srv_def wp_simps registry_def registered_def)

lemma keeps_get [stable_intros]:
  "keeps sh K (get_xfer p)" "keeps sh K (get_timer p)" "keeps sh K (get_resp p)" "keeps sh K (get_tag p)"
  by (auto simp: stable_def wp_simps split: option.splits resrc.splits)

lemma keeps_upd_xfer [stable_intros]:
  assumes "\<And>x. dest_fd (f x) = dest_fd x" "\<And>x. cmd (f x) = cmd x"
  shows "keeps sh K (upd_xfer p f)"
  using assms by (auto simp: stable_def wp_simps intro!: registry_upd split: option.splits resrc.splits)

lemma keeps_malloc_obj [stable_intros]: "keeps sh K (malloc_obj os sz obj)"
  unfolding stable_def wp_simps Let_def
proof (intro allI impI, split if_split, intro conjI impI)
  fix s :: "'m sproc_scheme" assume r: "registry sh K s" and m: "malloc_ok os sz s"
  have "loose sh K (malloc_addr os sz s) s" using registry_fresh [OF r] malloc_okD [OF m] by blast
  then have "registry sh K ((call_state os (SysMalloc sz) s)\<lparr>heap := (heap (call_state os (SysMalloc sz) s))(malloc_addr os sz s \<mapsto> obj)\<rparr>)"
    by (intro registry_put) (use r in \<open>simp_all add: registry_call loose_call\<close>)
  then show "registry sh K ((call_state os (SysMalloc sz) s)\<lparr>heap := (heap s)(malloc_addr os sz s \<mapsto> obj)\<rparr>)" by simp
qed (simp add: registry_call)

text \<open>More generally: programs that, started with the registry in order, establish something else.\<close>

definition leads :: "fd set \<Rightarrow> addr set \<Rightarrow> ('m sproc_scheme, 'a) prog \<Rightarrow> ('a \<Rightarrow> 'm sproc_scheme \<Rightarrow> bool) \<Rightarrow> bool" where
  "leads sh K m Q \<longleftrightarrow> (\<forall>s. registry sh K s \<longrightarrow> wp anyf m Q s)"

lemma leadsD: "leads sh K m Q \<Longrightarrow> registry sh K s \<Longrightarrow> wp anyf m Q s"
  by (simp add: leads_def)

lemma leads_bind: "keeps sh K m \<Longrightarrow> (\<And>a. leads sh K (f a) Q) \<Longrightarrow> leads sh K (bindP m f) Q"
  unfolding stable_def leads_def by (blast intro: wp_seq_rule)

lemma leads_seq: "keeps sh K m \<Longrightarrow> leads sh K n Q \<Longrightarrow> leads sh K (seqP m n) Q"
  unfolding seqP_def by (rule leads_bind)

lemma leads_if: "(b \<Longrightarrow> leads sh K m Q) \<Longrightarrow> (\<not> b \<Longrightarrow> leads sh K n Q) \<Longrightarrow> leads sh K (if b then m else n) Q"
  by simp

lemma leads_option:
  "(x = None \<Longrightarrow> leads sh K m Q) \<Longrightarrow> (\<And>a. x = Some a \<Longrightarrow> leads sh K (f a) Q) \<Longrightarrow>
   leads sh K (case x of None \<Rightarrow> m | Some a \<Rightarrow> f a) Q"
  by (cases x) auto

lemma leads_prod: "(\<And>a b. x = (a, b) \<Longrightarrow> leads sh K (f a b) Q) \<Longrightarrow> leads sh K (case x of (a, b) \<Rightarrow> f a b) Q"
  by (cases x) auto

lemma leads_let: "leads sh K (f a) Q \<Longrightarrow> leads sh K (let x = a in f x) Q"
  by simp

lemma leads_ret: "(\<And>s. registry sh K s \<Longrightarrow> Q a s) \<Longrightarrow> leads sh K (ret a) Q"
  by (simp add: leads_def wp_simps)

lemmas leads_intros = leads_bind leads_seq leads_if leads_option leads_prod leads_let leads_ret

section \<open>Functions that register nothing\<close>

lemma keeps_send [stable_intros]:
  "keeps sh K (send_pdu os fd pdu)" "keeps sh K (send_file_info os fd tx info)" "keeps sh K (send_xfer_stat os fd n)"
  "keeps sh K (send_req_err os fd e)" "keeps sh K (send_xfer_err os fd e)"
  unfolding send_defs send_pdu_def by (intro stable_intros; simp)+

lemma keeps_fill_pipe [stable_intros]: "keeps sh K (fill_pipe fuel os fd n)"
  by (induction fuel) (subst fill_pipe.simps; intro stable_intros; simp)+

lemma keeps_pipe_capacity [stable_intros]: "keeps sh K (pipe_capacity os)"
  unfolding pipe_capacity_def sfd_pipe_def by (intro stable_intros; simp)

lemma keeps_file_open_read [stable_intros]: "keeps sh K (file_open_read os name offset len)"
  unfolding file_open_read_def stat_file_def lock_file_def by (intro stable_intros; simp)

lemma keeps_move_data [stable_intros]: "keeps sh K (move_data os x n)" "keeps sh K (read_write_size os x tot)"
  unfolding move_data_def file_splice_def file_sendfile_def read_write_size_def by (intro stable_intros; simp)+

lemma keeps_tables [stable_intros]:
  "keeps sh K (find_xfer tx)" "keeps sh K (insert_xfer p)" "keeps sh K (erase_xfer tx)"
  "keeps sh K (insert_timer p)" "keeps sh K (erase_timer tx)"
  unfolding find_xfer_def insert_xfer_def erase_xfer_def insert_timer_def erase_timer_def by (intro stable_intros; simp)+

lemma keeps_is_resrc [stable_intros]: "keeps sh K (is_xfer p)" "keeps sh K (is_response p)" "keeps sh K (is_timer p)"
  unfolding is_resrc_defs by (intro stable_intros)+

lemma stable_deferral [stable_intros]: "keeps sh K (defer_xfer p how)" "keeps sh K (undefer_xfer i)"
  unfolding defer_xfer_def undefer_xfer_def push_deferred_def
  by (cases how; simp; intro stable_intros; simp) (intro stable_intros; simp)

lemma keeps_misc [stable_intros]:
  "keeps sh K (has_stat_channel x)" "keeps sh K (get_open_file pid tx)" "keeps sh K (close_fds os fds n)"
  unfolding has_stat_channel_def get_open_file_def close_fds_def by (intro stable_intros)+

section \<open>Functions that free resources\<close>

lemma registry_freed:
  "registry sh K s \<Longrightarrow> loose sh K p s \<Longrightarrow> h = heap s \<Longrightarrow> registry sh K (s\<lparr>heap := h(p := None)\<rparr>)"
  by (simp add: registry_free)

lemma registry_srv [simp]:
  "epollfd (poller v) = epollfd (poller (srv s)) \<Longrightarrow> registry sh K (s\<lparr>srv := v\<rparr>) = registry sh K s"
  "epollfd (poller v) = epollfd (poller (srv s)) \<Longrightarrow> loose sh K p (s\<lparr>srv := v\<rparr>) = loose sh K p s"
  "epollfd (poller v) = epollfd (poller (srv s)) \<Longrightarrow> registered sh (s\<lparr>srv := v\<rparr>) = registered sh s"
  by (simp_all add: registry_def loose_def registered_def fun_eq_iff)

lemma release_loose:
  assumes "registry sh K s" and "loose sh K p s"
  shows "wp anyf (delete_xfer_and_close_file_fd os p) (\<lambda>_. registry sh K) s"
    "wp anyf (delete_xfer_and_close_all_fds os p) (\<lambda>_. registry sh K) s"
    "wp anyf (delete_unregistered_xfer os p) (\<lambda>_. registry sh K) s"
  using assms
  by (auto simp: delete_xfer_and_close_all_fds_def delete_xfer_and_close_file_fd_def delete_unregistered_xfer_def
      xfer_delete_def erase_xfer_def mod_srv_def wp_simps registry_call loose_call intro!: registry_freed
      split: option.splits resrc.splits)

lemma deregistered_loose:
  assumes "epoll_ok os sh" and "registry sh K s" and "heap s p = Some (RXfer x)" and "p \<notin> K"
  shows "loose sh K p (call_state os (SysEpollDel (epollfd (poller (srv s))) (dest_fd x)) s)"
proof -
  have False if reg: "registered sh (call_state os (SysEpollDel (epollfd (poller (srv s))) (dest_fd x)) s) fd p" for fd
  proof -
    have "registered sh s fd p" using registered_call [OF _ reg] by simp
    with assms(2,3) have fd: "fd = dest_fd x" "interest sh (epollfd (poller (srv s))) (trace s) fd \<noteq> None"
      by (fastforce simp: registry_def registered_def)+
    then have "fst (sys os (trace s) (SysEpollDel (epollfd (poller (srv s))) (dest_fd x))) = 0"
      using assms(1) by (auto simp: epoll_ok_def)
    then show False using reg fd by (simp add: registered_def interest_step_def)
  qed
  with assms(4) show ?thesis by (auto simp: loose_def)
qed

lemma keeps_delete_registered [stable_intros]:
  assumes "epoll_ok os sh" and "p \<notin> K"
  shows "keeps sh K (delete_registered_xfer os p :: ('m sproc_scheme, unit) prog)"
proof -
  have "wp anyf (seqP (deregister_xfer os p) (delete_xfer_and_close_all_fds os p)) (\<lambda>_. registry sh K) s"
    if r: "registry sh K s" for s :: "'m sproc_scheme"
    using r deregistered_loose [OF assms(1) r _ assms(2)]
    by (auto simp: deregister_xfer_def syspoll_deregister_def wp_simps registry_call intro!: release_loose
        split: option.splits resrc.splits)
  then have "keeps sh K (seqP (deregister_xfer os p) (delete_xfer_and_close_all_fds os p) :: ('m sproc_scheme, unit) prog)"
    by (simp add: stable_def)
  then show ?thesis
    unfolding delete_registered_xfer_def by (intro stable_bind keeps_get stable_seq [OF keeps_tables(3)])
qed

text \<open>A timer or a response that is closed leaves the list with its descriptor.\<close>

lemma closed_loose:
  assumes "registry sh K s" and "heap s p = Some r" and "resrc_ident r \<notin> sh" and "p \<notin> K"
  shows "loose sh K p (call_state os (SysClose (resrc_ident r)) s)"
  using assms by (fastforce simp: loose_def registry_def registered_def interest_step_def split: if_splits)

lemma unshared_loose:
  assumes "registry sh K s" and "heap s p = Some r" and "p \<notin> K" and "case r of RXfer x \<Rightarrow> False | _ \<Rightarrow> True"
  shows "loose sh K p (call_state os (SysClose (resrc_ident r)) s)"
proof (cases "unshared sh r")
  case True
  with assms closed_loose [of sh K s p r] show ?thesis by (cases r) auto
next
  case False
  then have "loose sh K p s" using assms unfolding loose_def registry_def by fastforce
  then show ?thesis by (simp add: loose_call)
qed

lemma keeps_timer_delete [stable_intros]: "p \<notin> K \<Longrightarrow> keeps sh K (timer_delete os p)"
  using unshared_loose [of sh K _ p "RTimer t" for t]
  by (auto simp: stable_def timer_delete_def wp_simps registry_call intro!: registry_freed split: option.splits resrc.splits)

section \<open>Functions that register resources\<close>

lemma malloc_loose:
  assumes "registry sh K s"
  shows "wp anyf (malloc_obj os sz obj) (\<lambda>p t. registry sh K t \<and> (p \<noteq> 0 \<longrightarrow> loose sh K p t \<and> heap t p = Some obj)) s"
proof (cases "malloc_ok os sz s")
  case True
  then have "loose sh K (malloc_addr os sz s) s" using registry_fresh [OF assms] malloc_okD by blast
  then show ?thesis
    using True stableD [OF keeps_malloc_obj assms, of os sz obj] by (auto simp: wp_simps Let_def loose_call)
qed (use assms in \<open>simp add: wp_simps Let_def registry_call\<close>)

lemma registry_add:
  assumes "registry sh K s" and "heap s p = Some r" and "resrc_ident r = fd" and "pollable r" and "unshared sh r"
  shows "registry sh K (call_state os (SysEpollAdd (epollfd (poller (srv s))) fd m (URes p)) s)"
  using assms unfolding registry_def by (auto simp: registered_add)

lemma register_loose:
  assumes "registry sh K s" and "heap s p = Some r" and "pollable r" and "unshared sh r" and "loose sh K p s"
  shows "wp anyf (syspoll_register os (poller (srv s)) (resrc_ident r) (URes p) ev)
    (\<lambda>ok t. registry sh K t \<and> heap t = heap s \<and> srv t = srv s \<and> (\<not> ok \<longrightarrow> loose sh K p t)) s"
  using assms
  by (auto simp: syspoll_register_def wp_simps registry_def loose_def registered_add)

lemma free_loose: "registry sh K s \<Longrightarrow> loose sh K p s \<Longrightarrow> wp anyf (free_obj p) (\<lambda>_. registry sh K) s"
  by (simp add: wp_simps registry_free)

lemma keeps_terminal_resp [stable_intros]:
  assumes "epoll_ok os sh"
  shows "keeps sh K (send_terminal_resp os p pdu :: ('m sproc_scheme, unit) prog)"
proof -
  have dup: "wp anyf (bindP (new_resrc_resp os sfd pdu) (\<lambda>rp.
      seqP (whenP (rp = 0) (close_fd os sfd))
      (if rp = 0 then undefP ''syspoll_register(NULL)''
       else bindP (get_resp rp) (\<lambda>r. bindP (getP (\<lambda>s. poller (srv s))) (\<lambda>pl.
            bindP (syspoll_register os pl (rs_stat_fd r) (URes rp) SYSPOLL_WRITE) (\<lambda>ok.
            if \<not> ok then seqP (free_obj rp) (close_fd os sfd) else ret ()))))))
      (\<lambda>_. registry sh K) s" (is "wp _ (bindP _ ?f) _ _")
    if r: "registry sh K s" and sfd: "sfd \<notin> sh" for s :: "'m sproc_scheme" and sfd
  proof -
    define r where "r = \<lparr>rs_stat_fd = sfd, rs_tag = PENDING_RESP_TAG, rs_pdu_size = length pdu, rs_pdu = pdu @ replicate (16 - length pdu) 0\<rparr>"
    have "wp anyf (?f rp) (\<lambda>_. registry sh K) t"
      if t: "registry sh K t" "rp \<noteq> 0 \<longrightarrow> loose sh K rp t \<and> heap t rp = Some (RResp r)" for rp t
    proof (cases "rp = 0")
      case False
      then have "wp anyf (syspoll_register os (poller (srv t)) (resrc_ident (RResp r)) (URes rp) SYSPOLL_WRITE)
          (\<lambda>ok u. registry sh K u \<and> heap u = heap t \<and> srv u = srv t \<and> (\<not> ok \<longrightarrow> loose sh K rp u)) t"
        using t sfd by (intro register_loose) (auto simp: r_def)
      then show ?thesis
        using False t by (auto simp: wp_simps Let_def intro!: registry_call loose_call registry_freed)
    qed (simp add: wp_simps)
    then show ?thesis
      unfolding new_resrc_resp_def r_def [symmetric]
      by (simp add: wp_bindP wp_seqP wp_assertP) (auto intro!: wp_mono [OF malloc_loose [OF r]])
  qed
  have "keeps sh K (bindP (syscall os (SysDup fd)) (\<lambda>sfd. if sfd = -1 then ret ()
      else bindP (new_resrc_resp os sfd pdu) (\<lambda>rp. seqP (whenP (rp = 0) (close_fd os sfd))
        (if rp = 0 then undefP ''syspoll_register(NULL)''
         else bindP (get_resp rp) (\<lambda>r. bindP (getP (\<lambda>s. poller (srv s))) (\<lambda>pl.
              bindP (syspoll_register os pl (rs_stat_fd r) (URes rp) SYSPOLL_WRITE) (\<lambda>ok.
              if \<not> ok then seqP (free_obj rp) (close_fd os sfd) else ret ())))))) :: ('m sproc_scheme, unit) prog)" for fd
    using dup assms unfolding stable_def epoll_ok_def by (auto simp: wp_bindP wp_syscall wp_if wp_ret registry_call)
  then show ?thesis
    unfolding send_terminal_resp_def
    by (intro stable_bind [OF keeps_get(1)] stable_bind [OF keeps_send(1)] stable_bind [OF stable_basic(2)] stable_if [OF stable_basic(1)])
qed

section \<open>Transfers and events\<close>

lemma keeps_transfer_file [stable_intros]:
  assumes "epoll_ok os sh"
  shows "keeps sh K (transfer_file os p)"
proof -
  have ends: "keeps sh K (transfer_failed os p e)" "keeps sh K (transfer_finished os p)" "keeps sh K (transfer_blocked os p n)" for e n
    unfolding transfer_failed_def transfer_finished_def transfer_blocked_def
    by (intro stable_intros assms; simp)+
  have round: "keeps sh K (transfer_round os p n)" for n
    unfolding transfer_round_def by (intro stable_intros ends; simp)
  have "keeps sh K (transfer_loop fuel os p n)" for fuel n
    by (induction fuel arbitrary: n) (subst transfer_loop.simps; intro stable_intros round; simp)+
  then show ?thesis unfolding transfer_file_def by (intro stable_intros)
qed

lemma stable_deferred_loop:
  assumes "epoll_ok os sh"
  shows "keeps sh {} (deferred_loop fuel os i)"
proof (induction fuel arbitrary: i)
  case (Suc fuel)
  have "keeps sh {} (case d of CANCEL \<Rightarrow> m1 | READY \<Rightarrow> m2 | NONE \<Rightarrow> m3)"
    if "keeps sh {} m1" "keeps sh {} m2" "keeps sh {} m3" for d and m1 m2 m3 :: "('a sproc_scheme, unit) prog"
    using that by (cases d) auto
  note cases = this
  show ?case
    by (subst deferred_loop.simps) (intro stable_intros cases assms Suc; simp add: Suc)
qed (subst deferred_loop.simps; simp add: stable_basic)

lemma keeps_process_deferred: "epoll_ok os sh \<Longrightarrow> keeps sh {} (process_deferred os)"
  unfolding process_deferred_def by (intro stable_intros stable_deferred_loop)

lemma keeps_timer_event: "tp \<notin> K \<Longrightarrow> keeps sh K (timer_event os tp)"
  unfolding timer_event_def by (intro stable_intros)

lemma keeps_xfer_event: "epoll_ok os sh \<Longrightarrow> p \<notin> K \<Longrightarrow> keeps sh K (xfer_event os err p)"
  unfolding xfer_event_def by (intro stable_intros)

lemma keeps_response_event:
  assumes "rp \<notin> K"
  shows "keeps sh K (response_event os err rp :: ('a sproc_scheme, unit) prog)"
proof -
  have closed: "registry sh K ((call_state os (SysClose (rs_stat_fd r)) s)\<lparr>heap := h(rp := None)\<rparr>)"
    if "registry sh K s" "heap s rp = Some (RResp r)" "h = heap s" for s :: "'a sproc_scheme" and r h
    using that unshared_loose [OF that(1,2) assms, of os] by (auto simp: registry_call intro!: registry_freed)
  show ?thesis
    by (auto simp: stable_def response_event_def wp_simps wp_send_pdu registry_call intro!: closed split: option.splits resrc.splits)
qed

lemma keeps_us_recv: "keeps sh K (us_recv os fd rc)"
proof -
  have "keeps sh K (cmsg_loop cs st)" for cs st
    by (induction cs arbitrary: st) (auto intro!: stable_intros split: cmsg.split)
  then show ?thesis
    unfolding us_recv_def us_get_fds_and_creds_def set_nonblock_def by (intro stable_intros; simp)
qed

section \<open>Requests\<close>

text \<open>A request to send an open file that names a transfer whose destination is registered already.\<close>

definition reopens_running :: "'m sproc_scheme \<Rightarrow> byte list \<Rightarrow> bool" where
  "reopens_running s buf \<longleftrightarrow> sfd_get_cmd buf = PROT_CMD_SEND_OPEN \<and>
     (case prot_unmarshal_send_open buf of None \<Rightarrow> False
      | Some pdu \<Rightarrow> (case xfer_table_find (xfers (srv s)) (so_txnid pdu) of
          Some (Some p) \<Rightarrow> (case heap s p of Some (RXfer x) \<Rightarrow> cmd x \<noteq> PROT_CMD_FILE_OPEN | _ \<Rightarrow> False)
        | _ \<Rightarrow> False))"

text \<open>A transfer that has just been added: not registered, with the command and destination asked for.\<close>

definition just_added :: "fd set \<Rightarrow> addr set \<Rightarrow> byte \<Rightarrow> fd \<Rightarrow> addr \<Rightarrow> 'm sproc_scheme \<Rightarrow> bool" where
  "just_added sh K c dfd p s \<longleftrightarrow> registry sh K s \<and> loose sh K p s \<and> (\<exists>x. heap s p = Some (RXfer x) \<and> cmd x = c \<and> dest_fd x = dfd)"

lemma added_kept: "just_added sh K c dfd p s \<Longrightarrow> heap t = heap s \<Longrightarrow> registered sh t = registered sh s \<Longrightarrow> just_added sh K c dfd p t"
  by (simp add: just_added_def registry_def loose_def)

lemma xfer_new_added:
  assumes "registry sh K s"
  shows "wp anyf (xfer_new os c f n pid stfd dfd tx) (\<lambda>p t. if p = 0 then registry sh K t else just_added sh K c dfd p t) s"
proof (cases "malloc_ok os SIZEOF_XFER s")
  case True
  have "loose sh K (malloc_addr os SIZEOF_XFER s) s" using registry_fresh [OF assms] malloc_okD [OF True] by blast
  then show ?thesis
    using True assms registry_put [of sh K "call_state os (SysMalloc SIZEOF_XFER) s" "malloc_addr os SIZEOF_XFER s"]
    by (auto simp: wp_simps Let_def just_added_def registry_call loose_call dest: malloc_okD)
qed (use assms in \<open>simp add: wp_simps Let_def registry_call\<close>)

definition add_result :: "fd set \<Rightarrow> addr set \<Rightarrow> byte \<Rightarrow> fd \<Rightarrow> (addr \<times> fio_stat) option \<Rightarrow> 'm sproc_scheme \<Rightarrow> bool" where
  "add_result sh K c dfd r t \<longleftrightarrow> (case r of None \<Rightarrow> registry sh K t | Some (p, _) \<Rightarrow> just_added sh K c dfd p t)"

lemma add_result_simps [simp]:
  "add_result sh K c dfd None t = registry sh K t" "add_result sh K c dfd (Some (p, i)) t = just_added sh K c dfd p t"
  by (simp_all add: add_result_def)

lemma store_xfer_added:
  assumes "registry sh K s"
  shows "wp anyf (store_xfer os c f pid stfd dfd finfo) (add_result sh K c dfd) s"
proof -
  have ins: "wp anyf (insert_xfer p) (\<lambda>b t. just_added sh K c dfd p t) t" if "just_added sh K c dfd p t" for p t
    using that
    by (auto simp: insert_xfer_def mod_srv_def wp_simps split: option.splits prod.splits elim!: added_kept)
  have "wp anyf (bindP (insert_xfer p) (\<lambda>ok. if \<not> ok then seqP (PRESERVE_ERRNO (delete_xfer_and_close_file_fd os p)) (ret None)
      else ret (Some (p, finfo)))) (add_result sh K c dfd) t"
    if "just_added sh K c dfd p t" for p t
    by (rule wp_seq_rule [OF ins [OF that]])
      (auto simp: wp_simps just_added_def intro!: wp_mono [OF release_loose(1)])
  note tail = this
  show ?thesis
    unfolding store_xfer_def wp_bindP wp_getP
    by (rule wp_mono [OF xfer_new_added [OF assms]])
      (auto simp: wp_if wp_seqP wp_ret wp_PRESERVE_ERRNO wp_close_fd registry_call mod_srv_def wp_modP split: if_splits
        intro!: tail elim!: added_kept)
qed

lemma add_xfer_added:
  assumes "registry sh K s"
  shows "wp anyf (add_xfer os req pid stfd dfd) (add_result sh K (rq_cmd req) dfd) s"
  unfolding add_xfer_def
  by (rule leadsD [OF _ assms]) (intro leads_intros stable_intros; simp add: leads_def store_xfer_added)

text \<open>A file that has been opened, and its timer.\<close>

definition opened :: "fd set \<Rightarrow> addr set \<Rightarrow> addr \<Rightarrow> 'm sproc_scheme \<Rightarrow> bool" where
  "opened sh K p s \<longleftrightarrow> registry sh K s \<and> (\<exists>x. heap s p = Some (RXfer x) \<and> cmd x = PROT_CMD_FILE_OPEN)"

definition timed :: "fd set \<Rightarrow> addr set \<Rightarrow> addr \<Rightarrow> addr \<Rightarrow> 'm sproc_scheme \<Rightarrow> bool" where
  "timed sh K p tp s \<longleftrightarrow> opened sh K p s \<and> tp \<notin> K \<and> (\<exists>tm. heap s tp = Some (RTimer tm))"

lemma opened_released:
  assumes "opened sh K p s"
  shows "wp anyf (seqP (PRESERVE_ERRNO (delete_unregistered_xfer os p)) (ret None)) (\<lambda>_. registry sh K) s"
  using assms by (auto simp: wp_simps opened_def intro!: wp_mono [OF release_loose(3)] open_file_loose)

lemma timer_released:
  assumes "timed sh K p tp s" and that: "\<And>t. opened sh K p t \<Longrightarrow> wp anyf m (\<lambda>_. registry sh K) t"
  shows "wp anyf (seqP (PRESERVE_ERRNO (timer_delete os tp)) m) (\<lambda>_. registry sh K) s"
proof -
  have "wp anyf (timer_delete os tp) (\<lambda>_. opened sh K p) s"
  proof -
    have reg: "registry sh K s" "tp \<notin> K" and ne: "p \<noteq> tp" using assms by (auto simp: timed_def opened_def)
    have "wp anyf (timer_delete os tp) (\<lambda>_ t. heap t p = heap s p) s"
      using assms ne by (auto simp: timer_delete_def wp_simps timed_def)
    from wp_conj [OF stableD [OF keeps_timer_delete [OF reg(2)] reg(1), of os] this] show ?thesis
      by (rule wp_mono) (use assms in \<open>auto simp: timed_def opened_def\<close>)
  qed
  then show ?thesis
    by (auto simp: wp_simps opened_def intro!: that elim!: wp_mono)
qed

lemma opened_frame: "opened sh K p s \<Longrightarrow> heap t = heap s \<Longrightarrow> registered sh t = registered sh s \<Longrightarrow> opened sh K p t"
  by (simp add: opened_def registry_def)

lemma timed_frame: "timed sh K p tp s \<Longrightarrow> heap t = heap s \<Longrightarrow> registered sh t = registered sh s \<Longrightarrow> timed sh K p tp t"
  using opened_frame [of sh K p s t] by (simp add: timed_def)

lemma timer_malloc:
  assumes "opened sh K p s"
  shows "wp anyf (malloc_obj os n (RTimer tm)) (\<lambda>tp t. if tp = 0 then opened sh K p t else timed sh K p tp t \<and> loose sh K tp t) s"
proof -
  have reg: "registry sh K s" using assms by (simp add: opened_def)
  have "wp anyf (malloc_obj os n (RTimer tm)) (\<lambda>tp t. heap s p \<noteq> None \<longrightarrow> heap t p = heap s p) s"
    by (auto simp: wp_simps Let_def dest: malloc_okD)
  from wp_conj [OF malloc_loose [OF reg, of os n "RTimer tm"] this] show ?thesis
    by (rule wp_mono) (use assms in \<open>auto simp: opened_def timed_def loose_def\<close>)
qed

lemma timed_call: "adds_nothing c \<Longrightarrow> timed sh K p tp s \<Longrightarrow> timed sh K p tp (call_state os c s)"
  by (simp add: timed_def opened_def registry_call)

lemma timed_set_errno [simp]: "timed sh K p tp (s\<lparr>errno := e\<rparr>) = timed sh K p tp s"
  by (simp add: timed_def opened_def)

lemma timer_ident_set:
  assumes "timed sh K p tp s" and "loose sh K tp s" and "fd \<notin> sh"
  shows "wp anyf (upd_timer tp (\<lambda>t. t\<lparr>tm_ident := fd\<rparr>)) (\<lambda>_ t. timed sh K p tp t \<and> loose sh K tp t \<and> srv t = srv s \<and>
    (\<exists>tm. heap t tp = Some (RTimer tm) \<and> tm_ident tm = fd)) s"
  using assms registry_put [of sh K s tp] by (auto simp: wp_simps timed_def opened_def)

lemma timer_registered:
  assumes "epoll_ok os sh" and "timed sh K p tp s" and "loose sh K tp s"
  shows "wp anyf (syspoll_timer os (poller (srv s)) tp ms) (\<lambda>_. timed sh K p tp) s"
proof -
  let ?fd = "fst (sys os (trace s) SysTimerfdCreate)"
  have fd: "?fd \<notin> sh" using assms(1) by (simp add: epoll_ok_def)
  have reg: "wp anyf (syspoll_register os (poller (srv s)) ?fd (URes tp) ev) (\<lambda>_. timed sh K p tp) t"
    if t: "timed sh K p tp t" "loose sh K tp t" "srv t = srv s" "heap t tp = Some (RTimer tm)" "tm_ident tm = ?fd"
    for t ev tm
  proof -
    have "wp anyf (syspoll_register os (poller (srv t)) (resrc_ident (RTimer tm)) (URes tp) ev)
        (\<lambda>ok u. registry sh K u \<and> heap u = heap t \<and> srv u = srv t \<and> (\<not> ok \<longrightarrow> loose sh K tp u)) t"
      using t fd by (intro register_loose) (auto simp: timed_def opened_def)
    then show ?thesis using t by (auto simp: timed_def opened_def elim!: wp_mono)
  qed
  have tail: "wp anyf (seqP (upd_timer tp (\<lambda>t. t\<lparr>tm_ident := ?fd\<rparr>))
      (bindP (syspoll_register os (poller (srv s)) ?fd (URes tp) (SYSPOLL_READ OR SYSPOLL_ONESHOT)) (\<lambda>ok.
       if ok then ret True else seqP (PRESERVE_ERRNO (close_fd os ?fd)) (ret False)))) (\<lambda>_. timed sh K p tp) t"
    if t: "timed sh K p tp t" "loose sh K tp t" "srv t = srv s" for t
    unfolding seqP_def [of "upd_timer tp f" for f]
    by (rule wp_seq_rule [OF timer_ident_set [OF t(1,2) fd]], elim conjE exE, rule wp_seq_rule [OF reg])
      (use t(3) in \<open>auto simp: wp_simps timed_call\<close>)
  have rest: "wp anyf (if fd = -1 then ret True
      else bindP (syscall os (SysTimerfdSettime fd sec nsec)) (\<lambda>r.
        if r = -1 then seqP (PRESERVE_ERRNO (close_fd os fd)) (ret False)
        else seqP (upd_timer tp (\<lambda>t. t\<lparr>tm_ident := fd\<rparr>))
          (bindP (syspoll_register os (poller (srv s)) fd (URes tp) (SYSPOLL_READ OR SYSPOLL_ONESHOT)) (\<lambda>ok.
           if ok then ret True else seqP (PRESERVE_ERRNO (close_fd os fd)) (ret False))))) (\<lambda>_. timed sh K p tp) t"
    if "fd = ?fd" "timed sh K p tp t" "loose sh K tp t" "srv t = srv s" for fd t sec nsec
    unfolding that(1) using that(2-4) tail [of "call_state os (SysTimerfdSettime ?fd sec nsec) t"]
    by (simp add: wp_bindP [of _ "syscall os c" for c] wp_syscall wp_if wp_seqP [of _ "PRESERVE_ERRNO m" for m] wp_PRESERVE_ERRNO
        wp_close_fd wp_ret timed_call loose_call)
  show ?thesis
    unfolding syspoll_timer_def Let_def
  proof (rule wp_seq_rule [where P = "\<lambda>fd t. fd = ?fd \<and> timed sh K p tp t \<and> loose sh K tp t \<and> srv t = srv s"], goal_cases)
    case 1
    show ?case using assms(2,3) by (simp add: wp_syscall timed_call loose_call)
  next
    case (2 fd t)
    then show ?case by (intro rest) auto
  qed
qed

lemma open_timer_registry:
  fixes s :: "'m sproc_scheme"
  assumes "epoll_ok os sh" and "opened sh K p s"
  shows "wp anyf (open_timer os p x finfo) (\<lambda>_. registry sh K) s"
proof -
  let ?fail1 = "seqP (PRESERVE_ERRNO (delete_unregistered_xfer os p)) (ret (None :: (addr \<times> fio_stat) option))"
  have fail2: "wp anyf (seqP (PRESERVE_ERRNO (timer_delete os tp)) ?fail1) (\<lambda>_. registry sh K) t" if "timed sh K p tp t" for tp and t :: "'m sproc_scheme"
    using that by (rule timer_released) (rule opened_released)
  have fail3: "wp anyf (bindP (get_timer tp) (\<lambda>tm. seqP (PRESERVE_ERRNO (erase_timer (tm_txnid tm)))
      (seqP (PRESERVE_ERRNO (timer_delete os tp)) ?fail1))) (\<lambda>_. registry sh K) t" if t: "timed sh K p tp t" for tp and t :: "'m sproc_scheme"
  proof -
    have "wp anyf (erase_timer tx) (\<lambda>_ u. timed sh K p tp (u\<lparr>errno := e\<rparr>)) t" for tx e
      using t by (auto simp: erase_timer_def mod_srv_def wp_simps split: option.splits elim!: timed_frame)
    then have "wp anyf (seqP (PRESERVE_ERRNO (erase_timer tx)) (seqP (PRESERVE_ERRNO (timer_delete os tp)) ?fail1)) (\<lambda>_. registry sh K) t" for tx
      unfolding wp_seqP [of _ "PRESERVE_ERRNO (erase_timer tx)"] wp_PRESERVE_ERRNO by (rule wp_mono) (rule fail2)
    then show ?thesis using t by (auto simp: wp_bindP wp_get_timer timed_def)
  qed
  have ins: "wp anyf (insert_timer tp) (\<lambda>_ u. timed sh K p tp u \<and> loose sh K tp u) t" if "timed sh K p tp t" "loose sh K tp t" for tp and t :: "'m sproc_scheme"
    using that by (auto simp: insert_timer_def mod_srv_def wp_simps split: option.splits prod.splits elim!: timed_frame)
  have tail: "wp anyf (bindP (insert_timer tp) (\<lambda>ok.
      if \<not> ok then seqP (PRESERVE_ERRNO (timer_delete os tp)) ?fail1
      else bindP (getP srv) (\<lambda>v. bindP (syspoll_timer os (poller v) tp (open_file_timeout_ms v)) (\<lambda>ok.
        if \<not> ok then bindP (get_timer tp) (\<lambda>tm. seqP (PRESERVE_ERRNO (erase_timer (tm_txnid tm)))
          (seqP (PRESERVE_ERRNO (timer_delete os tp)) ?fail1))
        else ret (Some (tp, finfo)))))) (\<lambda>_. registry sh K) t" if "timed sh K p tp t" "loose sh K tp t" for tp and t :: "'m sproc_scheme"
  proof (rule wp_seq_rule [OF ins [OF that]], goal_cases)
    case (1 ok u)
    have "wp anyf (bindP (syspoll_timer os (poller (srv u)) tp ms) (\<lambda>ok.
        if \<not> ok then bindP (get_timer tp) (\<lambda>tm. seqP (PRESERVE_ERRNO (erase_timer (tm_txnid tm)))
          (seqP (PRESERVE_ERRNO (timer_delete os tp)) ?fail1))
        else ret (Some (tp, finfo)))) (\<lambda>_. registry sh K) u" for ms
      by (rule wp_seq_rule [OF timer_registered [OF assms(1)]])
        (use 1 fail3 in \<open>auto simp: wp_ret timed_def opened_def\<close>)
    then show ?case using 1 fail2 by (simp add: wp_bindP [of _ "getP srv"] wp_getP)
  qed
  show ?thesis
    unfolding open_timer_def Let_def
  proof (rule wp_seq_rule [OF timer_malloc [OF assms(2)]], goal_cases)
    case (1 tp t)
    then show ?case using tail [of tp t] opened_released [of sh K p t os] by (auto split: if_splits)
  qed
qed

lemma keeps_add_open_file:
  assumes "epoll_ok os sh" and "rq_cmd req = PROT_CMD_FILE_OPEN"
  shows "keeps sh K (add_open_file os req pid stfd)"
proof -
  have "wp anyf (bindP (get_xfer p) (\<lambda>x. open_timer os p x finfo)) (\<lambda>_. registry sh K) t"
    if "just_added sh K PROT_CMD_FILE_OPEN dfd p t" for p finfo dfd t
    using that open_timer_registry [OF assms(1), of K p t] by (auto simp: just_added_def opened_def wp_bindP wp_get_xfer)
  then show ?thesis
    unfolding stable_def add_open_file_def
    by (intro allI impI wp_seq_rule [OF add_xfer_added])
      (auto simp: assms(2) add_result_def wp_ret split: option.splits)
qed

text \<open>The end of a request that has added or taken up a transfer: its destination is registered, or it is
  freed.\<close>

lemma register_xfer_loose:
  assumes "registry sh K s" and "loose sh K p s" and "heap s p = Some (RXfer x)" and "cmd x \<noteq> PROT_CMD_FILE_OPEN"
  shows "wp anyf (register_xfer os p) (\<lambda>ok t. registry sh K t \<and> heap t = heap s \<and> (\<not> ok \<longrightarrow> loose sh K p t)) s"
  using register_loose [OF assms(1,3) _ _ assms(2), of os SYSPOLL_WRITE] assms(3,4)
  by (auto simp: register_xfer_def wp_bindP wp_getP wp_get_xfer elim!: wp_mono)

lemma unmarshal_cmd: "prot_unmarshal_request buf n = Inr pdu \<Longrightarrow> rq_cmd pdu = sfd_get_cmd buf"
  by (auto simp: prot_unmarshal_request_def sfd_get_cmd_def Let_def split: if_splits)

lemma keeps_request_file_open:
  assumes "epoll_ok os sh" and "sfd_get_cmd buf = PROT_CMD_FILE_OPEN"
  shows "keeps sh K (request_file_open os buf n pid fds)"
  unfolding request_file_open_def
  by (intro stable_intros keeps_add_open_file assms(1)) (simp add: unmarshal_cmd assms(2))

lemma keeps_request_cancel: "keeps sh K (request_cancel buf pid)"
  unfolding request_cancel_def by (intro stable_intros)

lemma unregistered_released:
  assumes "registry sh K s" and "loose sh K p s"
  shows "wp anyf (seqP (send_xfer_err os fd e) (seqP (delete_unregistered_xfer os p) (ret b))) (\<lambda>_. registry sh K) s"
    "wp anyf (seqP (send_req_err os fd e) (seqP (delete_unregistered_xfer os p) (ret b))) (\<lambda>_. registry sh K) s"
  using assms
  by (auto simp: send_defs wp_simps wp_send_pdu registry_call loose_call intro!: wp_mono [OF release_loose(3)])

lemma keeps_request_transfer:
  assumes "sfd_get_cmd buf \<noteq> PROT_CMD_FILE_OPEN"
  shows "keeps sh K (request_transfer os buf n pid fds :: ('m sproc_scheme, bool) prog)"
proof -
  have tail: "wp anyf (bindP (register_xfer os p) (\<lambda>ok. bindP (get_xfer p) (\<lambda>x.
      if \<not> ok then bindP (getP errno) (\<lambda>e. seqP (send_req_err os (stat_fd x) e) (seqP (delete_unregistered_xfer os p) (ret False)))
      else seqP (send_file_info os (stat_fd x) (txnid x) finfo) (ret True)))) (\<lambda>_. registry sh K) t"
    if t: "just_added sh K c dfd p t" "c \<noteq> PROT_CMD_FILE_OPEN" for p finfo c dfd and t :: "'m sproc_scheme"
  proof -
    obtain x where x: "heap t p = Some (RXfer x)" "cmd x = c" "registry sh K t" "loose sh K p t" using t by (auto simp: just_added_def)
    show ?thesis
    proof (rule wp_seq_rule [OF register_xfer_loose [OF x(3,4,1)]], goal_cases)
      case (2 ok u)
      have "wp anyf (seqP (send_file_info os (stat_fd x) (txnid x) finfo) (ret True)) (\<lambda>_. registry sh K) u"
        using stableD [OF stable_seq [OF keeps_send(2) stable_basic(1)], of sh K u] 2 by simp
      then show ?case
        using 2 x unregistered_released(2) [of sh K u p os "stat_fd x"] by (auto simp: wp_bindP wp_get_xfer wp_getP)
    qed (use t x in simp)
  qed
  have "wp anyf (bindP (add_xfer os pdu pid st dfd) (\<lambda>added. case added of
      None \<Rightarrow> bindP (getP errno) (\<lambda>e. seqP (send_req_err os st e) (ret False))
    | Some (p, finfo) \<Rightarrow> bindP (register_xfer os p) (\<lambda>ok. bindP (get_xfer p) (\<lambda>x.
      if \<not> ok then bindP (getP errno) (\<lambda>e. seqP (send_req_err os (stat_fd x) e) (seqP (delete_unregistered_xfer os p) (ret False)))
      else seqP (send_file_info os (stat_fd x) (txnid x) finfo) (ret True))))) (\<lambda>_. registry sh K) s"
    if "registry sh K s" "prot_unmarshal_request buf n = Inr pdu" for s :: "'m sproc_scheme" and pdu st dfd
  proof (rule wp_seq_rule [OF add_xfer_added [OF that(1)]], goal_cases)
    case (1 r t)
    have "keeps sh K (bindP (getP errno) (\<lambda>e. seqP (send_req_err os st e) (ret False)) :: ('m sproc_scheme, bool) prog)"
      by (intro stable_intros)
    then show ?case
      using 1 tail assms unmarshal_cmd [OF that(2)] by (auto simp: stable_def split: option.split)
  qed
  then show ?thesis
    unfolding stable_def request_transfer_def by (auto simp: wp_simps split: sum.splits option.splits)
qed

lemma send_open_registry:
  assumes "registry sh K s" and "\<not> reopens_running s buf" and "sfd_get_cmd buf = PROT_CMD_SEND_OPEN"
  shows "wp anyf (request_send_open os buf pid fds) (\<lambda>_. registry sh K) s"
proof (cases "prot_unmarshal_send_open buf")
  case (Some pdu)
  have taken: "wp anyf (seqP (upd_xfer p (\<lambda>x. x\<lparr>cmd := PROT_CMD_SEND, dest_fd := fds ! 0\<rparr>)) (bindP (register_xfer os p) (\<lambda>ok.
      if \<not> ok then bindP (get_xfer p) (\<lambda>x. bindP (getP errno) (\<lambda>e.
        seqP (send_xfer_err os (stat_fd x) e) (seqP (delete_unregistered_xfer os p) (ret False))))
      else ret True))) (\<lambda>_. registry sh K) s"
    if p: "heap s p = Some (RXfer x)" "cmd x = PROT_CMD_FILE_OPEN" for p x
  proof -
    let ?x = "x\<lparr>cmd := PROT_CMD_SEND, dest_fd := fds ! 0\<rparr>" and ?s = "s\<lparr>heap := (heap s)(p \<mapsto> RXfer (x\<lparr>cmd := PROT_CMD_SEND, dest_fd := fds ! 0\<rparr>))\<rparr>"
    have l: "loose sh K p s" using open_file_loose [OF assms(1) p] .
    have "wp anyf (bindP (register_xfer os p) (\<lambda>ok.
      if \<not> ok then bindP (get_xfer p) (\<lambda>x. bindP (getP errno) (\<lambda>e.
        seqP (send_xfer_err os (stat_fd x) e) (seqP (delete_unregistered_xfer os p) (ret False))))
      else ret True)) (\<lambda>_. registry sh K) ?s"
    proof (rule wp_seq_rule [OF register_xfer_loose [of sh K ?s p ?x os]], goal_cases)
      case (5 ok t)
      then show ?case
        using unregistered_released(1) [of sh K t p os "stat_fd x"] by (auto simp: wp_bindP wp_get_xfer wp_getP wp_ret)
    qed (use registry_put [OF assms(1) l] l in \<open>simp_all add: cmd_defs\<close>)
    then show ?thesis using p by (simp add: wp_seqP wp_upd_xfer)
  qed
  have found: "cmd x = PROT_CMD_FILE_OPEN"
    if "xfer_table_find (xfers (srv s)) (so_txnid pdu) = Some (Some p)" "heap s p = Some (RXfer x)" for p x
    using assms(2,3) Some that by (simp add: reopens_running_def)
  show ?thesis
    using assms(1) Some taken
    by (auto simp: request_send_open_def get_open_file_def find_xfer_def wp_bindP wp_getP wp_liftP wp_ret wp_if wp_get_xfer wp_seqP [of _ "close_fd os fd" for fd]
        wp_close_fd registry_call found split: option.split resrc.split)
qed (use assms(1) in \<open>simp add: request_send_open_def wp_ret\<close>)

lemma process_request_registry:
  assumes "epoll_ok os sh" and "registry sh K s" and "\<not> reopens_running s buf"
  shows "wp anyf (process_request os buf n pid fds) (\<lambda>_. registry sh K) s"
  using assms send_open_registry [OF assms(2,3)] stableD [OF keeps_request_cancel assms(2)]
    stableD [OF keeps_request_file_open [OF assms(1)] assms(2)] stableD [OF keeps_request_transfer assms(2)]
  by (simp add: process_request_def wp_if wp_ret)

lemma handle_datagram_registry:
  assumes "epoll_ok os sh" and "registry sh K s" and "\<not> reopens_running s (rc_buf rc)"
  shows "wp anyf (handle_datagram os n rc) (\<lambda>_. registry sh K) s"
proof -
  have close: "keeps sh K (close_fds os fds k)" for fds k by (rule keeps_misc)
  have refuse: "keeps sh K (seqP (send_xfer_err os fd EACCES) (close_fds os fds k))" for fd fds k by (intro stable_intros)
  have "wp anyf (bindP (process_request os (rc_buf rc) n (rc_pid rc) (rc_fds rc)) (\<lambda>ok. whenP (\<not> ok) (close_fds os (rc_fds rc) (rc_nfds rc))))
      (\<lambda>_. registry sh K) s"
    by (rule wp_seq_rule [OF process_request_registry [OF assms]]) (auto simp: wp_whenP intro: stableD [OF close])
  then show ?thesis
    using assms(2) stableD [OF refuse assms(2)] by (simp add: handle_datagram_def wp_bindP [of _ "getP srv"] wp_getP wp_if wp_ret)
qed

section \<open>Steps\<close>

text \<open>The resource a step may free, and the requests that would register a transfer a second time.\<close>

fun subject :: "server_event \<Rightarrow> addr set" where
  "subject (EvTimer p) = {p}"
| "subject (EvResponse err p) = {p}"
| "subject (EvData err p) = {p}"
| "subject EvDeferred = UNIV"
| "subject _ = {}"

fun registers_twice :: "sproc \<Rightarrow> server_event \<Rightarrow> bool" where
  "registers_twice s (EvDatagram n rc) \<longleftrightarrow> reopens_running s (rc_buf rc)"
| "registers_twice s _ \<longleftrightarrow> False"

lemma run_step_registry:
  assumes "epoll_ok os sh" and "registry sh K s" and "\<not> registers_twice s e" and "K \<inter> subject e = {}"
  shows "wp anyf (run_step os e) (\<lambda>_. registry sh K) s"
proof (cases e)
  case (EvWait tmo)
  with assms(2) show ?thesis by (simp add: run_step_def syspoll_epoll_def wp_simps registry_call)
next
  case (EvReceive rc)
  have "keeps sh K (run_step os e)"
    unfolding EvReceive run_step_def server_event.case by (intro stable_intros keeps_us_recv)
  with assms(2) show ?thesis by (rule stableD [rotated])
next
  case (EvDatagram n rc)
  with assms show ?thesis by (simp add: run_step_def handle_datagram_registry)
next
  case (EvTimer p)
  with assms show ?thesis by (simp add: run_step_def stableD [OF keeps_timer_event])
next
  case (EvResponse err p)
  with assms show ?thesis by (simp add: run_step_def stableD [OF keeps_response_event])
next
  case (EvData err p)
  with assms show ?thesis by (simp add: run_step_def stableD [OF keeps_xfer_event])
next
  case EvDeferred
  with assms show ?thesis by (simp add: run_step_def stableD [OF keeps_process_deferred])
qed

end
