(* ===== verification/Sfd_Turns.thy ===== *)
theory Sfd_Turns
  imports Sfd_Registry
begin

text \<open>
  Turns of the main loop of \<open>impl/server.c\<close>. \<open>epoll_wait\<close> hands the server a batch of events, each with
  an address the server once registered; the loop handles them one after the other, and between two of
  them datagrams arrive. \<open>serving\<close> is the inductive set of the states in which a server can be, each
  with the events of its batch that are still to be handled. Shown: an event never names a resource
  that an earlier event of the batch, or an earlier turn, has freed; and tags tell the types of
  resources. The last section has the two situations in which the code breaks this.
\<close>

section \<open>Batches of events\<close>

text \<open>The kernel reports registered descriptors, each at most once.\<close>

definition reported :: "fd set \<Rightarrow> 'm sproc_scheme \<Rightarrow> epoll_event list \<Rightarrow> bool" where
  "reported sh s es \<longleftrightarrow> (\<exists>fds. distinct fds \<and>
     list_all2 (\<lambda>fd e. interest sh (epollfd (poller (srv s))) (trace s) fd = Some (ee_data e)) fds es)"

definition ready_events :: "os \<Rightarrow> int \<Rightarrow> 'm sproc_scheme \<Rightarrow> epoll_event list" where
  "ready_events os tmo s = take (nat (fst (sys os (trace s) (SysEpollWait (epollfd (poller (srv s))) tmo))))
     (os_events os (trace s) (epollfd (poller (srv s))))"

fun pending_addrs :: "epoll_event list \<Rightarrow> addr list" where
  "pending_addrs [] = []"
| "pending_addrs (e # es) = (case ee_data e of URes p \<Rightarrow> p # pending_addrs es | _ \<Rightarrow> pending_addrs es)"

lemma pending_addrs_iff: "p \<in> set (pending_addrs es) \<longleftrightarrow> (\<exists>e\<in>set es. ee_data e = URes p)"
  by (induction es) (auto split: udata.splits)

text \<open>Before the server exists nothing is registered with the address of a resource.\<close>

definition adds_no_resource :: "syscall \<Rightarrow> bool" where
  "adds_no_resource c \<longleftrightarrow> (case c of SysEpollAdd e fd m ud \<Rightarrow> (\<forall>p. ud \<noteq> URes p) | _ \<Rightarrow> True)"

definition no_resources :: "history \<Rightarrow> bool" where
  "no_resources h \<longleftrightarrow> (\<forall>c\<in>set h. adds_no_resource (fst c))"

text \<open>The handling of an event may end before the event does (a request socket that is empty again), hence
  \<open>passed\<close>; \<open>other_call\<close> stands for calls between the steps, such as the registration of the request socket.\<close>

inductive serving :: "os \<Rightarrow> fd set \<Rightarrow> sproc \<Rightarrow> epoll_event list \<Rightarrow> bool" for os sh where
  start: "mallocs os \<Longrightarrow> 0 < maxfds \<Longrightarrow> maxfds < 2 ^ 31 \<Longrightarrow> heap s = Map.empty \<Longrightarrow> no_resources (trace s) \<Longrightarrow>
    srv_new os tmo rfd maxfds s = Ok True t \<Longrightarrow> serving os sh t []"
| wait: "serving os sh s [] \<Longrightarrow> reported sh s (ready_events os tmo s) \<Longrightarrow> run_step os (EvWait tmo) s = Ok () t \<Longrightarrow>
    serving os sh t (ready_events os tmo s)"
| event: "serving os sh s (e # es) \<Longrightarrow> ee_data e = URes p \<Longrightarrow> heap s p = Some r \<Longrightarrow>
    enabled s (step_of (has (ee_events e) EPOLLERR) p r) \<Longrightarrow>
    run_step os (step_of (has (ee_events e) EPOLLERR) p r) s = Ok () t \<Longrightarrow> serving os sh t es"
| request: "serving os sh s es \<Longrightarrow> e \<in> {EvReceive rc, EvDatagram n rc} \<Longrightarrow> enabled s e \<Longrightarrow> \<not> registers_twice s e \<Longrightarrow>
    run_step os e s = Ok () t \<Longrightarrow> serving os sh t es"
| other_call: "serving os sh s es \<Longrightarrow> adds_no_resource c \<Longrightarrow> serving os sh (call_state os c s) es"
| passed: "serving os sh s (e # es) \<Longrightarrow> serving os sh s es"
| deferred: "serving os sh s [] \<Longrightarrow> run_step os EvDeferred s = Ok () t \<Longrightarrow> serving os sh t []"

section \<open>The invariant of a turn\<close>

definition turn_inv :: "fd set \<Rightarrow> sproc \<Rightarrow> epoll_event list \<Rightarrow> bool" where
  "turn_inv sh s es \<longleftrightarrow> server_inv s \<and> registry sh (set (pending_addrs es)) s \<and> distinct (pending_addrs es)"

lemma no_resources_call:
  "no_resources (h @ [(c, r)]) \<longleftrightarrow> no_resources h \<and> (case c of SysEpollAdd e fd m ud \<Rightarrow> (\<forall>p. ud \<noteq> URes p) | _ \<Rightarrow> True)"
  by (auto simp: no_resources_def adds_no_resource_def)

lemma no_resources_interest: "no_resources h \<Longrightarrow> interest sh ep h fd \<noteq> Some (URes p)"
proof (induction h arbitrary: fd rule: rev_induct)
  case (snoc c h)
  then show ?case
    by (cases c) (auto simp: no_resources_call interest_step_def split: syscall.splits if_splits)
qed (simp add: interest_def)

abbreviation unregistered :: "'m sproc_scheme \<Rightarrow> bool" where
  "unregistered s \<equiv> no_resources (trace s)"

lemma unregistered_call [stable_intros]: "adds_nothing c \<Longrightarrow> stable unregistered (syscall os c)"
  by (cases c) (simp_all add: stable_def wp_syscall no_resources_call adds_nothing_def)

lemma unregistered_errno [stable_intros]: "stable unregistered (set_errno e)"
  by (simp add: stable_def wp_simps)

lemma unregistered_signal [stable_intros]: "stable unregistered (syspoll_register os pl fd USignal ev)"
  by (simp add: stable_def syspoll_register_def wp_bindP wp_syscall wp_ret no_resources_call)

lemma syspoll_new_unregistered: "stable unregistered (syspoll_new os n)"
  unfolding syspoll_new_def syspoll_delete_def PRESERVE_ERRNO_def close_fd_def Let_def by (intro stable_intros; simp)

lemma table_alloc_unregistered: "stable unregistered (table_alloc os n)"
  unfolding table_alloc_def by (intro stable_intros; simp)

lemma srv_new_unregistered:
  assumes "unregistered s"
  shows "wp anyf (srv_new os tmo rfd maxfds) (\<lambda>ok t. ok \<longrightarrow> unregistered t) s"
  unfolding srv_new_def wp_seqP [of _ "assertP b e" for b e] wp_assertP
  by (auto simp: wp_if wp_ret wp_seqP mod_srv_def wp_modP assms split: option.split
      intro!: wp_seq_rule [OF stableD [OF unregistered_call]] wp_seq_rule [OF stableD [OF table_alloc_unregistered]]
        wp_seq_rule [OF stableD [OF syspoll_new_unregistered]])

lemma registry_start: "heap s = Map.empty \<Longrightarrow> no_resources (trace s) \<Longrightarrow> registry sh {} s"
  by (simp add: registry_def registered_def no_resources_interest)

lemma registry_pending:
  assumes "registry sh {} s" and "reported sh s es"
  shows "registry sh (set (pending_addrs es)) s" "distinct (pending_addrs es)"
proof -
  obtain fds where fds: "distinct fds"
    "list_all2 (\<lambda>fd e. interest sh (epollfd (poller (srv s))) (trace s) fd = Some (ee_data e)) fds es"
    using assms(2) by (auto simp: reported_def)
  have live: "\<exists>r. heap s p = Some r \<and> resrc_ident r = fd \<and> pollable r"
    if "interest sh (epollfd (poller (srv s))) (trace s) fd = Some (URes p)" for fd p
    using assms(1) that by (auto simp: registry_def registered_def)
  have "set (pending_addrs es) \<subseteq> {p. \<exists>fd\<in>set fds. interest sh (epollfd (poller (srv s))) (trace s) fd = Some (URes p)} \<and>
      distinct (pending_addrs es)"
    using fds(2,1)
  proof (induction rule: list_all2_induct)
    case (Cons fd fds e es)
    show ?case
    proof (cases "ee_data e")
      case (URes p)
      have "p \<notin> set (pending_addrs es)"
      proof
        assume "p \<in> set (pending_addrs es)"
        then obtain fd' where "fd' \<in> set fds" "interest sh (epollfd (poller (srv s))) (trace s) fd' = Some (URes p)"
          using Cons by auto
        with live [of fd p] live [of fd' p] Cons URes show False by auto
      qed
      with Cons URes show ?thesis by auto
    qed (use Cons in auto)
  qed simp
  then show "registry sh (set (pending_addrs es)) s" "distinct (pending_addrs es)"
    using assms(1) live by (fastforce simp: registry_def)+
qed

lemma step_of_subject: "subject (step_of err p r) = {p}" "\<not> registers_twice s (step_of err p r)"
  by (cases r; simp)+

lemma registry_less: "registry sh K s \<Longrightarrow> L \<subseteq> K \<Longrightarrow> registry sh L s"
  by (auto simp: registry_def)

lemma registry_other_call:
  assumes "adds_no_resource c" and "registry sh K s"
  shows "registry sh K (call_state os c s)"
proof (rule registry_shrink [OF assms(2)])
  fix fd p assume "registered sh (call_state os c s) fd p"
  then show "registered sh s fd p"
    using assms(1) by (cases c) (auto simp: registered_def adds_no_resource_def interest_step_def split: if_splits)
qed simp

lemma serving_inv:
  assumes "epoll_ok os sh" and "cmsgs_fit os" and "serving os sh s es"
  shows "turn_inv sh s es"
  using assms(3)
proof (induction rule: serving.induct)
  case (start maxfds s tmo rfd t)
  then have "server_inv t" "heap t = Map.empty"
    using wp_Ok [OF srv_new_post [OF start(1-3), where s = s] start(6)] fresh_server_inv by (auto simp: server_inv_def)
  moreover have "no_resources (trace t)" using wp_Ok [OF srv_new_unregistered start(6)] start(5) by simp
  ultimately show ?case by (simp add: turn_inv_def registry_start)
next
  case (wait s tmo t)
  let ?es = "ready_events os tmo s"
  have inv: "server_inv s" "registry sh {} s" using wait.IH by (simp_all add: turn_inv_def)
  have "registry sh (set (pending_addrs ?es)) t"
    using wp_Ok [OF run_step_registry [OF assms(1) registry_pending(1) [OF inv(2) wait.hyps(2)]] wait.hyps(3)] by simp
  moreover have "server_inv t" using wp_Ok [OF run_step_inv [OF assms(2) inv(1)] wait.hyps(3)] by simp
  ultimately show ?case using registry_pending(2) [OF inv(2) wait.hyps(2)] by (simp add: turn_inv_def)
next
  case (event s e es p r t)
  then have inv: "server_inv s" "registry sh (set (p # pending_addrs es)) s" "distinct (p # pending_addrs es)"
    by (simp_all add: turn_inv_def)
  have "registry sh (set (pending_addrs es)) t"
    using wp_Ok [OF run_step_registry [OF assms(1) registry_less [OF inv(2)]] event.hyps(5)] inv(3)
    by (auto simp: step_of_subject)
  moreover have "server_inv t" using wp_Ok [OF run_step_inv [OF assms(2) inv(1) event.hyps(4)] event.hyps(5)] .
  ultimately show ?case using inv(3) by (simp add: turn_inv_def)
next
  case (request s es e rc n t)
  then have inv: "server_inv s" "registry sh (set (pending_addrs es)) s" "distinct (pending_addrs es)" by (simp_all add: turn_inv_def)
  have "registry sh (set (pending_addrs es)) t"
    using wp_Ok [OF run_step_registry [OF assms(1) inv(2) request.hyps(4)] request.hyps(5)] request.hyps(2) by auto
  moreover have "server_inv t" using wp_Ok [OF run_step_inv [OF assms(2) inv(1) request.hyps(3)] request.hyps(5)] .
  ultimately show ?case using inv(3) by (simp add: turn_inv_def)
next
  case (other_call s es c)
  then show ?case by (simp add: turn_inv_def server_inv_def registry_other_call)
next
  case (passed s e es)
  then show ?case by (auto simp: turn_inv_def split: udata.splits intro: registry_less)
next
  case (deferred s t)
  then have inv: "server_inv s" "registry sh {} s" by (simp_all add: turn_inv_def)
  have "registry sh {} t" using wp_Ok [OF run_step_registry [OF assms(1) inv(2)] deferred.hyps(2)] by simp
  moreover have "server_inv t" using wp_Ok [OF run_step_inv [OF assms(2) inv(1)] deferred.hyps(2)] by simp
  ultimately show ?case by (simp add: turn_inv_def)
qed

section \<open>An example\<close>

text \<open>A server for one file receives a request to read it; the next batch holds the event of that
  transfer. The client keeps its copy of the descriptor.\<close>

definition turn_os :: os where
  "turn_os = quiet_os\<lparr>sys := (\<lambda>h c. (case c of SysMalloc n \<Rightarrow> int (length h) + 1 | SysWrite fd bs \<Rightarrow> int (length bs)
     | SysEpollCreate \<Rightarrow> 5 | SysSignalfd \<Rightarrow> 6 | SysOpen nm \<Rightarrow> 12 | SysEpollWait ep tmo \<Rightarrow> 1 | _ \<Rightarrow> 0, EAGAIN)),
     os_events := (\<lambda>h ep. [\<lparr>ee_events = EPOLLOUT, ee_data = URes 17\<rparr>])\<rparr>"

definition read_datagram :: received where
  "read_datagram = \<lparr>rc_buf = [PROT_CMD_READ, SFD_STAT_OK] @ replicate 22 0 @ [102, 0], rc_fds = [4, 0], rc_nfds = 1, rc_uid = 0, rc_gid = 0, rc_pid = 7\<rparr>"

definition created_state :: sproc where
  "created_state = (example_state NONE)\<lparr>heap := Map.empty, trace :=
    [(SysMalloc 64, 1), (SysMalloc 24, 2), (SysEpollCreate, 5), (SysMalloc 12, 4), (SysSigmask, 0), (SysSignalfd, 6),
     (SysEpollAdd 5 6 (epoll_mask SYSPOLL_READ) USignal, 0), (SysMalloc 32, 8), (SysMalloc 8, 9), (SysMalloc 32, 10),
     (SysMalloc 8, 11), (SysMalloc 64, 12), (SysGeteuid, 0)],
    srv := \<lparr>poller = \<lparr>epollfd = 5, sigfd = 6, pevents = [], pnevents = 1\<rparr>,
      xfers = \<lparr>elems = [None], capacity = 1, tsize = 0\<rparr>, xfer_timers = \<lparr>elems = [None], capacity = 1, tsize = 0\<rparr>,
      deferred_xfers = replicate 8 0, ndeferred_xfers = 0, next_txnid = 1, reqfd = 3, open_file_timeout_ms = 1000, srv_uid = 0\<rparr>\<rparr>"

lemma created: "srv_new turn_os 1000 3 1 ((example_state NONE)\<lparr>heap := Map.empty, trace := []\<rparr>) = Ok True created_state"
proof -
  have "clp2 1 = Some 1" by code_simp
  then have "wp never (srv_new turn_os 1000 3 1) (\<lambda>ok t. ok \<and> t = created_state) ((example_state NONE)\<lparr>heap := Map.empty, trace := []\<rparr>)"
    by (simp add: srv_new_def table_alloc_def syspoll_new_def turn_os_def wp_simps Let_def xfer_table_new_def
        xfer_table_construct_def mod_srv_def call_state_def created_state_def SIZEOF_XFER_def)
  then show ?thesis by (auto simp: wp_never_iff)
qed


definition read_request :: prot_request where
  "read_request = \<lparr>rq_cmd = PROT_CMD_READ, rq_stat = SFD_STAT_OK, rq_offset = 0, rq_len = 0, rq_filename = Some [102, 0], rq_filename_len = 1\<rparr>"

lemma read_unmarshalled: "prot_unmarshal_request (rc_buf read_datagram) 26 = Inr read_request"
  by code_simp

lemma read_opened: "wp never (file_open_read turn_os [102, 0] 0 0) (\<lambda>r t. r = Some (12, \<lparr>fs_size = 10, fs_atime = 1, fs_mtime = 2, fs_ctime = 3, fs_blksize = 4096\<rparr>) \<and>
   t = s\<lparr>trace := trace s @ [(SysOpen [102], 12), (SysFstat 12, 0), (SysSetlk 12 0 0, 0)]\<rparr>) s"
  by (simp add: file_open_read_def stat_file_def lock_file_def wp_simps Let_def turn_os_def quiet_os_def call_state_def cstr_def)



definition read_state :: "sproc \<Rightarrow> bool" where
  "read_state t \<longleftrightarrow> (\<exists>x. heap t 17 = Some (RXfer x) \<and> dest_fd x = 4 \<and> cmd x = PROT_CMD_READ) \<and> epollfd (poller (srv t)) = 5 \<and>
     interest {4} 5 (trace t) = [6 \<mapsto> USignal]"

lemma read_stored: "wp never (store_xfer turn_os PROT_CMD_READ f 7 4 4 i) (\<lambda>r t. r = Some (17, i) \<and> read_state t)
  (created_state\<lparr>trace := trace created_state @ [(SysOpen [102], 12), (SysFstat 12, 0), (SysSetlk 12 0 0, 0)]\<rparr>)"
proof -
  have "indexof \<lparr>elems = [None :: addr option], capacity = 1, tsize = 0\<rparr> n = 0" for n :: size_t
    by (simp add: indexof_def)
  then show ?thesis
  by (simp add: store_xfer_def wp_simps Let_def malloc_ok_def malloc_addr_def turn_os_def insert_xfer_def mod_srv_def created_state_def
     xfer_table_insert_def call_state_def interest_def interest_step_def read_state_def)
qed

lemma read_added: "wp never (add_xfer turn_os read_request 7 4 4) (\<lambda>r t. (\<exists>i. r = Some (17, i)) \<and> read_state t) created_state"
proof -
  have "wp never (file_open_read turn_os [102, 0] 0 0) (\<lambda>r. wp never (case r of None \<Rightarrow> ret None | Some (fd, finfo) \<Rightarrow>
       if fs_size finfo = 0 then seqP (close_fd turn_os fd) (seqP (set_errno EINVAL) (ret None))
       else if rq_offset read_request + rq_len read_request > fs_size finfo then seqP (close_fd turn_os fd) (seqP (set_errno ERANGE) (ret None))
       else let n = if rq_len read_request > 0 then rq_len read_request else fs_size finfo - rq_offset read_request
         in store_xfer turn_os (rq_cmd read_request) \<lparr>xf_size = n, xf_fd = fd, xf_blksize = fs_blksize finfo\<rparr> 7 4 4 (finfo\<lparr>fs_size := n\<rparr>))
      (\<lambda>r t. (\<exists>i. r = Some (17, i)) \<and> read_state t)) created_state"
    by (rule wp_mono [OF read_opened], elim conjE, hypsubst)
     (simp add: read_request_def wp_mono [OF read_stored])
  then show ?thesis
  unfolding add_xfer_def
  by (simp add: read_request_def wp_seqP wp_assertP wp_bindP wp_getP wp_if wp_let created_state_def)
qed

lemma read_fields [simp]:
  "sfd_get_cmd (rc_buf read_datagram) = PROT_CMD_READ" "sfd_get_stat (rc_buf read_datagram) = SFD_STAT_OK"
  "rc_fds read_datagram = [4, 0]" "rc_nfds read_datagram = 1" "rc_uid read_datagram = 0" "rc_pid read_datagram = 7"
  by (simp_all add: read_datagram_def sfd_get_cmd_def sfd_get_stat_def)

lemma turn_os_writes: "wp never (send_file_info turn_os fd tx i) Q t = Q True (call_state turn_os (SysWrite fd (file_info_bytes
    (prot_marshal_file_info (fs_size i) (fs_atime i) (fs_mtime i) (fs_ctime i) tx))) t)"
  by (simp add: send_file_info_def wp_send_pdu turn_os_def)

lemma read_served: "wp never (run_step turn_os (EvDatagram 26 read_datagram)) (\<lambda>_ t. interest {4} 5 (trace t) 4 = Some (URes 17) \<and> epollfd (poller (srv t)) = 5) created_state"
proof -
  have "wp never (bindP (add_xfer turn_os read_request 7 4 4) (\<lambda>added. case added of
            None \<Rightarrow> bindP (getP errno) (\<lambda>e. seqP (send_req_err turn_os 4 e) (ret False))
          | Some (p, finfo) \<Rightarrow> bindP (register_xfer turn_os p) (\<lambda>ok. bindP (get_xfer p) (\<lambda>x.
              if \<not> ok then bindP (getP errno) (\<lambda>e. seqP (send_req_err turn_os (stat_fd x) e) (seqP (delete_unregistered_xfer turn_os p) (ret False)))
              else seqP (send_file_info turn_os (stat_fd x) (txnid x) finfo) (ret True)))))
      (\<lambda>ok t. ok \<and> interest {4} 5 (trace t) 4 = Some (URes 17) \<and> epollfd (poller (srv t)) = 5) created_state"
  proof (rule wp_seq_rule [OF read_added], elim conjE exE, goal_cases)
    case (1 r t i)
    then show ?case
      by (auto simp: read_state_def register_xfer_def syspoll_register_def wp_bindP wp_getP wp_get_xfer wp_syscall wp_if wp_ret wp_seqP
          turn_os_writes interest_step_def) (simp_all add: turn_os_def)
  qed
  moreover have "(process_request turn_os (rc_buf read_datagram) 26 7 [4, 0] :: (sproc, bool) prog) = request_transfer turn_os (rc_buf read_datagram) 26 7 [4, 0]"
    by (simp add: process_request_def read_fields cmd_defs PROT_IS_REQUEST_def)
  ultimately have "wp never (process_request turn_os (rc_buf read_datagram) 26 7 [4, 0])
      (\<lambda>ok t. ok \<and> interest {4} 5 (trace t) 4 = Some (URes 17) \<and> epollfd (poller (srv t)) = 5) created_state"
    by (simp add: request_transfer_def read_unmarshalled read_request_def cmd_defs)
  then have "wp never (process_request turn_os (rc_buf read_datagram) 26 7 [4, 0])
      (\<lambda>ok. wp never (whenP (\<not> ok) (close_fds turn_os [4, 0] 1)) (\<lambda>_ t. interest {4} 5 (trace t) 4 = Some (URes 17) \<and> epollfd (poller (srv t)) = 5)) created_state"
    by (rule wp_mono) (simp add: wp_whenP)
  then show ?thesis
    by (simp add: run_step_def handle_datagram_def wp_bindP wp_getP wp_if read_fields PROT_MAXFDS_def created_state_def)
qed

lemma turn_os_ok: "mallocs turn_os" "cmsgs_fit turn_os" "epoll_ok turn_os {4}"
  by (simp_all add: turn_os_def quiet_os_def mallocs_def cmsgs_fit_def epoll_ok_def)

lemma serving_example: "\<exists>s. serving turn_os {4} s [\<lparr>ee_events = EPOLLOUT, ee_data = URes 17\<rparr>]"
proof -
  have start: "serving turn_os {4} created_state []"
    by (rule serving.start [OF turn_os_ok(1) _ _ _ _ created]) (simp_all add: no_resources_def)
  obtain t where t: "run_step turn_os (EvDatagram 26 read_datagram) created_state = Ok () t"
    "interest {4} 5 (trace t) 4 = Some (URes 17)" "epollfd (poller (srv t)) = 5"
    using read_served by (auto simp: wp_never_iff)
  have "serving turn_os {4} t []"
    using serving.request [OF start _ _ _ t(1), of read_datagram 26]
    by (simp add: reopens_ready_def reopens_running_def cmd_defs)
  moreover have ready: "ready_events turn_os (-1) t = [\<lparr>ee_events = EPOLLOUT, ee_data = URes 17\<rparr>]"
    by (simp add: ready_events_def turn_os_def)
  moreover have "reported {4} t (ready_events turn_os (-1) t)"
    unfolding reported_def ready using t by (intro exI [of _ "[4]"]) simp
  moreover have "\<exists>u. run_step turn_os (EvWait (-1)) t = Ok () u"
    using wp_never_iff [of "run_step turn_os (EvWait (-1))" "\<lambda>_ _. True" t]
    by (simp add: run_step_def syspoll_epoll_def wp_simps)
  ultimately show ?thesis using serving.wait by metis
qed

lemma served_example: "\<exists>s r. reachable s \<and> heap s 17 = Some r"
proof -
  have "reachable created_state" by (rule reachable.start [OF turn_os_ok(1) _ _ _ created]) simp_all
  moreover have serving: "serving turn_os {4} created_state []"
    by (rule serving.start [OF turn_os_ok(1) _ _ _ _ created]) (simp_all add: no_resources_def)
  moreover obtain t where t: "run_step turn_os (EvDatagram 26 read_datagram) created_state = Ok () t"
    "interest {4} 5 (trace t) 4 = Some (URes 17)" "epollfd (poller (srv t)) = 5"
    using read_served by (auto simp: wp_never_iff)
  moreover have "enabled created_state (EvDatagram 26 read_datagram)" by (simp add: reopens_ready_def cmd_defs)
  ultimately have "reachable t" using reachable.later server_step.step turn_os_ok(2) by blast
  moreover have "registry {4} {} t"
    using serving_inv [OF turn_os_ok(3,2) serving.request [OF serving _ _ _ t(1), of read_datagram 26]]
    by (simp add: reopens_ready_def reopens_running_def cmd_defs turn_inv_def)
  ultimately show ?thesis using t(2,3) by (fastforce simp: registry_def registered_def)
qed

section \<open>Properties\<close>

text \<open>C2: Until one of two events happens, the server is consistent. Take any state that the server reaches from its creation by any order of
  events and requests, however the kernel answered, as long as none of them was a \<open>hazard\<close>: an error on the data channel of a transfer that is
  waiting in the list of deferred transfers, or a \<open>SEND_OPEN\<close> for such a transfer. Then the data structures are consistent: transaction ids are unique, the list of
  deferred transfers has no duplicates and holds live, marked transfers only, it never outgrows its
  array, and there are no more transfers than the table has room for. (The error event does break this, as
  the theory \<open>Sfd_Steps\<close> shows.)\<close>

theorem reachable_inv:
  assumes "reachable s"
  shows "server_inv s \<and>
    (\<forall>p q x y. heap s p = Some (RXfer x) \<and> heap s q = Some (RXfer y) \<and> txnid x = txnid y \<longrightarrow> p = q) \<and>
    distinct (deferred_list (srv s)) \<and> ndeferred_xfers (srv s) \<le> length (deferred_xfers (srv s)) \<and>
    (\<forall>p\<in>set (deferred_list (srv s)). \<exists>x. heap s p = Some (RXfer x) \<and> xdefer x \<noteq> NONE) \<and>
    card (xfer_addrs (heap s)) \<le> unat (capacity (xfers (srv s)))"
proof -
  have inv: "server_inv s" using assms by (rule reachable_server_inv)
  then have sinv: "sinv {} (heap s) (srv s)" by (simp add: server_inv_def)
  have "p = q" if "heap s p = Some (RXfer x)" "heap s q = Some (RXfer y)" "txnid x = txnid y" for p q x y
    using that tbl.find_item [OF sinv_tables(1) [OF sinv], of p] tbl.find_item [OF sinv_tables(1) [OF sinv], of q]
      sinv_tables(2) [OF sinv]
    by (simp add: resrc_xfer_txnid_def)
  moreover have "card (xfer_addrs (heap s)) \<le> unat (capacity (xfers (srv s)))"
    using sinv_size [OF sinv] sinv_size_cap [OF sinv] by simp
  ultimately show ?thesis
    using inv sinv_array [OF sinv] sinv_flagged [OF sinv] by blast
qed

theorem reachable_inv_witness:
  "\<exists>s r. reachable s \<and> heap s 17 = Some r \<and> server_inv s \<and> distinct (deferred_list (srv s))"
proof -
  obtain s r where "reachable s" "heap s 17 = Some r" using served_example by blast
  with reachable_inv show ?thesis by blast
qed



text \<open>C3: An event never reaches freed memory. Whatever batch of events the kernel reports, whatever the
  order in which requests, timers, retried responses and data channels are handled before, every
  event that is still to be handled names a live resource of a type that can be polled, and
  handling it does nothing undefined. This holds although clients share their descriptors with the
  server: a cancelled transfer is freed only after the batch, and a transfer is removed from
  the poller before it is freed. \<open>serving\<close> leaves out what the code is shown not to survive: a second
  \<open>SEND_OPEN\<close> for the same file (\<open>registers_twice\<close>) and an error event for a transfer that waits in the
  deferred list (\<open>enabled\<close>).\<close>

theorem pending_events_live:
  assumes "epoll_ok os sh" and "cmsgs_fit os" and "serving os sh s es" and "e \<in> set es" and "ee_data e = URes p"
  shows "\<exists>r. heap s p = Some r \<and> resrc_wf r \<and> pollable r \<and>
    (enabled s (step_of err p r) \<longrightarrow> wp tolerated (run_step os (step_of err p r)) (\<lambda>_. server_inv) s)"
proof -
  have inv: "turn_inv sh s es" using serving_inv [OF assms(1-3)] .
  then obtain r where r: "heap s p = Some r" "pollable r"
    using assms(4,5) pending_addrs_iff [of p es] by (auto simp: turn_inv_def registry_def)
  moreover have "resrc_wf r" using sinv_heap [of "{}" "heap s" "srv s" p r] inv r by (simp add: turn_inv_def server_inv_def)
  ultimately show ?thesis using run_step_inv [OF assms(2)] inv by (auto simp: turn_inv_def)
qed

theorem pending_events_live_witness:
  "\<exists>s r. serving turn_os {4} s [\<lparr>ee_events = EPOLLOUT, ee_data = URes 17\<rparr>] \<and> heap s 17 = Some r \<and> pollable r"
  using serving_example pending_events_live [OF turn_os_ok(3,2), of _ _ "\<lparr>ee_events = EPOLLOUT, ee_data = URes 17\<rparr>" 17]
  by fastforce

text \<open>C18: The tag of a resource tells its type. In every reachable state, exactly one of \<open>is_xfer\<close>,
  \<open>is_timer\<close> and \<open>is_response\<close> holds of a live address, and it is the one of the structure that is
  stored there, so that the cast that follows the test reads the right structure.\<close>

theorem tags_tell_types:
  assumes "reachable s" and "heap s p = Some r"
  shows "is_xfer p s = Ok (\<exists>x. r = RXfer x) s \<and> is_timer p s = Ok (\<exists>t. r = RTimer t) s \<and> is_response p s = Ok (\<exists>q. r = RResp q) s"
proof -
  have "resrc_wf r" using reachable_server_inv [OF assms(1)] sinv_heap assms(2) by (auto simp: server_inv_def)
  then show ?thesis
    using assms(2) by (cases r) (simp_all add: is_resrc_defs get_tag_def bindP_def getP_def ret_def tag_defs)
qed

theorem tags_tell_types_witness:
  "\<exists>s r. reachable s \<and> heap s 17 = Some r \<and> is_xfer 17 s = Ok (\<exists>x. r = RXfer x) s"
proof -
  obtain s r where "reachable s" "heap s 17 = Some r"
    using served_example by blast
  with tags_tell_types show ?thesis by blast
qed

section \<open>Where the registry breaks\<close>

text \<open>A removal or a close of another descriptor leaves a registration alone.\<close>

lemma registered_stays:
  assumes "registered sh s fd p" and "c \<in> {SysEpollDel ep fd', SysClose fd'}" and "fd' \<noteq> fd"
  shows "registered sh (call_state os c s) fd p"
  using assms by (auto simp: registered_def interest_step_def)

lemma registered_after:
  assumes "registered sh s fd p" and "\<And>c. c \<in> set cs \<Longrightarrow> \<exists>fd' ep. fd' \<noteq> fd \<and> c \<in> {SysEpollDel ep fd', SysClose fd'}"
  shows "registered sh (calls_state os cs s) fd p"
  using assms
proof (induction cs arbitrary: s)
  case (Cons c cs)
  then have "registered sh (call_state os c s) fd p" using registered_stays by (metis list.set_intros(1))
  with Cons show ?case by simp
qed simp

text \<open>C39: A second \<open>SEND_OPEN\<close> for the same file leaves a dangling registration. The request is accepted
  although the transfer is running; its destination is overwritten and the new one registered. When
  the transfer ends, only the new destination is removed from the poller and closed: the old one
  stays registered with the address of the freed transfer, which the next event on it hands back to
  the server.\<close>

theorem send_open_twice_dangles:
  assumes "server_inv s" and "heap s p = Some (RXfer x)" and "xdefer x = NONE" and "registered sh s (dest_fd x) p"
    and "client_pid x \<in> {US_INVALID_PID, pid}" and "dest_fd x \<notin> {fds ! 0, stat_fd x, xf_fd (xfile x)}"
    and "\<forall>h ep fd m ud. fst (sys os h (SysEpollAdd ep fd m ud)) = 0"
  shows "wp never (bindP (request_send_open os (send_open_bytes (prot_marshal_send_open (txnid x)) @ rest) pid fds)
      (\<lambda>ok. seqP (assertP ok ''accepted'') (delete_registered_xfer os p)))
    (\<lambda>_ t. heap t p = None \<and> registered sh t (dest_fd x) p) s"
proof -
  let ?buf = "send_open_bytes (prot_marshal_send_open (txnid x)) @ rest" and ?x = "x\<lparr>cmd := PROT_CMD_SEND, dest_fd := fds ! 0\<rparr>"
  have inv: "sinv {} (heap s) (srv s)" using assms(1) by (simp add: server_inv_def)
  have p: "p \<noteq> 0" "xtag x = XFER_RESRC_TAG" using sinv_heap [OF inv assms(2)] by auto
  have find: "xfer_table_find (xfers (srv s)) (txnid x) = Some (Some p)"
    using tbl.find_item [OF sinv_tables(1) [OF inv], of p] sinv_tables(2) [OF inv] assms(2)
    by (simp add: resrc_xfer_txnid_def)
  obtain t' where t': "xfer_table_erase (xfers (srv s)) (txnid x) = Some t'"
    using erase_slot [OF sinv_tables(1) [OF inv] find] by auto
  have dec: "prot_unmarshal_send_open ?buf = Some (prot_marshal_send_open (txnid x))"
    by (rule send_open.dec_enc) (simp add: prot_marshal_send_open_def)
  have tx: "so_txnid (prot_marshal_send_open (txnid x)) = txnid x" by (simp add: prot_marshal_send_open_def)
  let ?s = "(call_state os (SysEpollAdd (epollfd (poller (srv s))) (fds ! 0) (epoll_mask SYSPOLL_WRITE) (URes p)) s)
    \<lparr>heap := (heap s)(p \<mapsto> RXfer ?x)\<rparr>"
  have reg: "registered sh ?s (dest_fd x) p" using assms(4,6) by (simp add: registered_def interest_step_def)
  have "wp never (request_send_open os ?buf pid fds) (\<lambda>ok t. ok \<and> t = ?s) s"
    using assms(2,3,5,7) find p
    by (auto simp: request_send_open_def dec tx get_open_file_def find_xfer_def register_xfer_def
        syspoll_register_def wp_simps Let_def)
  moreover have "wp never (delete_registered_xfer os p) (\<lambda>_ t. heap t p = None \<and> registered sh t (dest_fd x) p) ?s"
  proof -
    have "registered sh (calls_state os (SysEpollDel (epollfd (poller (srv s))) (fds ! 0) # all_fd_closes ?x) ?s) (dest_fd x) p"
      by (rule registered_after [OF reg]) (use assms(6) in \<open>auto simp: all_fd_closes_def\<close>)
    then show ?thesis
      using p t' by (simp add: delete_registered_xfer_def deregister_xfer_def wp_simps wp_delete_all_fds Let_def registered_def)
  qed
  ultimately show ?thesis
    unfolding wp_bindP by (elim wp_mono) (simp add: wp_simps)
qed

definition registered_state :: sproc where
  "registered_state = (example_state NONE)\<lparr>trace := [(SysEpollAdd 8 5 (epoll_mask SYSPOLL_WRITE) (URes 16), 0)]\<rparr>"

theorem send_open_twice_dangles_witness:
  "wp never (bindP (request_send_open quiet_os (send_open_bytes (prot_marshal_send_open 1) @ []) 42 [11, 0])
      (\<lambda>ok. seqP (assertP ok ''accepted'') (delete_registered_xfer quiet_os 16)))
    (\<lambda>_ t. heap t 16 = None \<and> registered {5} t 5 16) registered_state"
proof -
  have "server_inv registered_state" using example_inv [of NONE] by (simp add: registered_state_def server_inv_def)
  from send_open_twice_dangles [OF this, of 16 "example_xfer NONE" "{5}" 42 "[11, 0]" quiet_os "[]"] show ?thesis
    by (simp add: registered_state_def example_defs registered_def interest_def interest_step_def quiet_os_def)
qed

text \<open>A response that has been sent after a retry is freed and its descriptor closed, but not removed from
  the poller. If the client has kept a copy of the write end of its pipe, the registration survives
  the close, with the address of the freed response.\<close>

lemma response_left_registered:
  assumes "heap s rp = Some (RResp r)" and "registered sh s (rs_stat_fd r) rp" and "rs_stat_fd r \<in> sh"
  shows "wp never (response_event os True rp) (\<lambda>_ t. heap t rp = None \<and> registered sh t (rs_stat_fd r) rp) s"
  using assms by (simp add: response_event_def wp_simps registered_def interest_step_def)

end
