(* ===== verification/Sfd_Loop.thy ===== *)
theory Sfd_Loop
  imports Sfd_Turns Sfd_Frame
begin

text \<open>
  The main loop of \<open>impl/server.c\<close> as the code composes it: \<open>srv_turn\<close> waits, \<open>events_loop\<close> goes over the
  batch, \<open>process_event\<close> dispatches, \<open>reqfd_loop\<close> drains the request socket, \<open>process_deferred\<close> ends the
  turn. The invariant of a turn is carried through every one of these loops, from \<open>srv_new\<close> to
  \<open>srv_delete\<close>, for any number of turns.
\<close>

section \<open>The batch stays as the kernel delivered it\<close>

definition polled :: "epoll_event list \<Rightarrow> 'm sproc_scheme \<Rightarrow> bool" where
  "polled es s \<longleftrightarrow> pevents (poller (srv s)) = es"

lemma polled_call [simp]: "polled es (call_state os c s) = polled es s"
  by (simp add: polled_def)

interpretation batch: server_frame "polled es" for es
  by unfold_locales (simp_all add: polled_def)

lemma polled_step: "stable (polled es) (run_step os (step_of err p r))"
  by (cases r) (simp_all add: run_step_def batch.frame_events batch.frame_quiet_events)

section \<open>The environment\<close>

text \<open>What \<open>epoll_wait(2)\<close> reports: as many events as it says, for distinct registered descriptors, each with
  the data registered for it; of the signal descriptor, that it is readable (\<open>signalfd(2)\<close>).\<close>

definition event_ok :: "epoll_event \<Rightarrow> bool" where
  "event_ok e \<longleftrightarrow> (ee_data e = USignal \<longrightarrow> has (ee_events e) EPOLLIN \<and> \<not> has (ee_events e) EPOLLERR)"

definition epoll_reports :: "os \<Rightarrow> fd set \<Rightarrow> bool" where
  "epoll_reports os sh \<longleftrightarrow> (\<forall>h ep tmo. let n = nat (fst (sys os h (SysEpollWait ep tmo))); es = os_events os h ep
     in n \<le> length es \<and> (\<forall>e\<in>set es. event_ok e) \<and>
        (\<exists>fds. distinct fds \<and> list_all2 (\<lambda>fd e. interest sh ep h fd = Some (ee_data e)) fds (take n es)))"

text \<open>A read of the signal descriptor yields one of the two signals of its mask.\<close>

definition signals_end :: "os \<Rightarrow> bool" where
  "signals_end os \<longleftrightarrow> (\<forall>h fd. fst (sys os h (SysRead fd SIZEOF_SIGINFO)) = int SIZEOF_SIGINFO \<and> os_signo os h \<in> {SIGTERM, SIGINT})"

definition rc_ok :: "received \<Rightarrow> bool" where
  "rc_ok rc \<longleftrightarrow> length (rc_fds rc) = PROT_MAXFDS \<and> rc_buf rc \<noteq> []"

text \<open>The two situations the code does not survive do not arise in any state the server comes to: a
  \<open>SEND_OPEN\<close> for a transfer that is running, and an error on the channel of a transfer that waits in the
  deferred list.\<close>

definition sends_once :: "os \<Rightarrow> fd set \<Rightarrow> bool" where
  "sends_once os sh \<longleftrightarrow> (\<forall>s es rc n rc' t. serving os sh s es \<and> rc_ok rc \<and>
     us_recv os (reqfd (srv s)) (rc\<lparr>rc_nfds := PROT_MAXFDS\<rparr>) s = Ok (n, rc') t \<and> n \<noteq> -1 \<longrightarrow>
       \<not> reopens_running t (rc_buf rc') \<and> \<not> reopens_ready t (rc_buf rc'))"

definition no_late_errors :: "os \<Rightarrow> fd set \<Rightarrow> bool" where
  "no_late_errors os sh \<longleftrightarrow> (\<forall>s e es p r. serving os sh s (e # es) \<and> ee_data e = URes p \<and> heap s p = Some r \<longrightarrow>
     enabled s (step_of (has (ee_events e) EPOLLERR) p r))"

definition benign :: "os \<Rightarrow> fd set \<Rightarrow> bool" where
  "benign os sh \<longleftrightarrow> epoll_ok os sh \<and> cmsgs_fit os \<and> mallocs os \<and> epoll_reports os sh \<and> signals_end os \<and>
     sends_once os sh \<and> no_late_errors os sh"

section \<open>Requests\<close>

definition in_turn :: "os \<Rightarrow> fd set \<Rightarrow> epoll_event list \<Rightarrow> sproc \<Rightarrow> epoll_event list \<Rightarrow> bool" where
  "in_turn os sh evs s es \<longleftrightarrow> serving os sh s es \<and> polled evs s"

lemma benign_inv: "benign os sh \<Longrightarrow> serving os sh s es \<Longrightarrow> turn_inv sh s es"
  by (rule serving_inv) (simp_all add: benign_def)

lemma wp_reaches:
  assumes "wp E m (\<lambda>_ _. True) s" and "\<And>a t. m s = Ok a t \<Longrightarrow> Q a t"
  shows "wp E m Q s"
  using assms by (auto simp: wp_def split: outcome.splits)

lemma step_reaches:
  assumes "benign os sh" and "serving os sh s es" and "enabled s e"
    and "\<And>t. run_step os e s = Ok () t \<Longrightarrow> serving os sh t es'"
  shows "wp tolerated (run_step os e) (\<lambda>_ t. serving os sh t es') s"
proof (rule wp_reaches)
  have "server_inv s" using benign_inv [OF assms(1,2)] by (simp add: turn_inv_def)
  then show "wp tolerated (run_step os e) (\<lambda>_ _. True) s"
    using run_step_inv [of os s e] assms(1,3) by (auto simp: benign_def elim: wp_mono)
qed (use assms(4) in auto)

lemma datagram_in_turn:
  assumes "benign os sh" and "in_turn os sh evs s es" and "\<not> reopens_running s (rc_buf rc)" and "\<not> reopens_ready s (rc_buf rc)"
  shows "wp tolerated (handle_datagram os n rc) (\<lambda>_ t. in_turn os sh evs t es) s"
proof -
  have s: "serving os sh s es" "polled evs s" using assms(2) by (simp_all add: in_turn_def)
  have "wp tolerated (run_step os (EvDatagram n rc)) (\<lambda>_ t. serving os sh t es) s"
    by (rule step_reaches [OF assms(1) s(1)], use assms(4) in simp, rule serving.request [OF s(1)]) (use assms(3,4) in auto)
  then have "wp tolerated (handle_datagram os n rc) (\<lambda>_ t. polled evs t \<and> serving os sh t es) s"
    using s(2) by (intro wp_conj_strong [OF stableD [OF batch.frame_datagram]]) (simp_all add: run_step_def)
  then show ?thesis by (rule wp_mono) (simp add: in_turn_def)
qed

lemma receive_in_turn:
  assumes "benign os sh" and "in_turn os sh evs s es" and "rc_ok rc"
  shows "wp tolerated (us_recv os (reqfd (srv s)) (rc\<lparr>rc_nfds := PROT_MAXFDS\<rparr>)) (\<lambda>(n, rc') t. in_turn os sh evs t es \<and> rc_ok rc' \<and>
    (n \<noteq> -1 \<longrightarrow> \<not> reopens_running t (rc_buf rc') \<and> \<not> reopens_ready t (rc_buf rc'))) s"
proof -
  let ?rc = "rc\<lparr>rc_nfds := PROT_MAXFDS\<rparr>"
  have s: "serving os sh s es" "polled evs s" using assms(2) by (simp_all add: in_turn_def)
  have post: "wp tolerated (us_recv os (reqfd (srv s)) ?rc) (\<lambda>(n, rc') t. calls_only s t \<and> bounded ?rc rc') s"
    by (rule wp_mono [OF tolerates_defined [OF us_recv_post]])
      (use assms(1,3) in \<open>auto simp: benign_def rc_ok_def PROT_MAXFDS_def\<close>)
  show ?thesis
  proof (rule wp_reaches [OF wp_mono [OF post]], simp, clarify)
    fix n rc' t assume Ok: "us_recv os (reqfd (srv s)) ?rc s = Ok (n, rc') t"
    from wp_Ok [OF post Ok] have t: "calls_only s t" "bounded ?rc rc'" by simp_all
    have "run_step os (EvReceive rc) s = Ok () t"
      using Ok by (simp add: run_step_def bindP_def seqP_def getP_def ret_def)
    then have "serving os sh t es"
      using serving.request [OF s(1), of "EvReceive rc" rc] assms(3) by (simp add: rc_ok_def)
    moreover have "polled evs t" using s(2) calls_only_kept [OF t(1)] by (simp add: polled_def)
    moreover have "rc_ok rc'" using t(2) assms(3) by (auto simp: rc_ok_def bounded_def)
    ultimately show "in_turn os sh evs t es \<and> rc_ok rc' \<and> (n \<noteq> -1 \<longrightarrow> \<not> reopens_running t (rc_buf rc') \<and> \<not> reopens_ready t (rc_buf rc'))"
      using assms(1,3) s(1) Ok unfolding benign_def sends_once_def in_turn_def by blast
  qed
qed

lemma reqfd_in_turn:
  assumes "benign os sh" and "in_turn os sh evs s es" and "rc_ok rc"
  shows "wp tolerated (reqfd_loop fuel os rc) (\<lambda>(go_on, rc') t. in_turn os sh evs t es \<and> rc_ok rc') s"
  using assms(2,3)
proof (induction fuel arbitrary: s rc)
  case (Suc fuel)
  have rest: "wp tolerated (seqP (handle_datagram os k rc') (reqfd_loop fuel os rc')) (\<lambda>(go_on, rc') t. in_turn os sh evs t es \<and> rc_ok rc') t"
    if "in_turn os sh evs t es" "rc_ok rc'" "\<not> reopens_running t (rc_buf rc')" "\<not> reopens_ready t (rc_buf rc')" for t rc' k
    unfolding wp_seqP by (rule wp_mono [OF datagram_in_turn [OF assms(1) that(1,3,4)]]) (rule Suc.IH [OF _ that(2)])
  show ?case
    by (subst reqfd_loop.simps)
      (auto simp: wp_bindP wp_getP wp_seqP [of _ "assertP b m" for b m] wp_assertP wp_if wp_ret
        intro!: wp_mono [OF receive_in_turn [OF assms(1) Suc.prems]] rest)
qed (subst reqfd_loop.simps; simp add: wp_simps)

section \<open>Events\<close>

lemma in_turn_tl: "in_turn os sh evs s (e # es) \<Longrightarrow> in_turn os sh evs s es"
  by (auto simp: in_turn_def intro: serving.passed)

lemma in_turn_call: "adds_no_resource c \<Longrightarrow> in_turn os sh evs s es \<Longrightarrow> in_turn os sh evs (call_state os c s) es"
  by (simp add: in_turn_def serving.other_call)

lemma in_turn_live:
  assumes "benign os sh" and "in_turn os sh evs s (e # es)" and "ee_data e = URes p"
  shows "\<exists>r. heap s p = Some r \<and> resrc_wf r"
  using benign_inv [OF assms(1)] assms(2,3)
  by (fastforce simp: in_turn_def turn_inv_def registry_def server_inv_def dest: sinv_heap)

lemma get_in_turn:
  assumes "benign os sh" and "in_turn os sh evs s (e # es)" and "i < length evs" and "evs ! i = e" and "event_ok e"
  shows "wp tolerated (syspoll_get os i) (\<lambda>ev t. in_turn os sh evs t (e # es) \<and> se_udata ev = ee_data e \<and>
    (has (se_events ev) SYSPOLL_TERM \<or> ee_data e \<noteq> USignal \<and> \<not> has (se_events ev) SYSPOLL_TERM \<and>
       has (se_events ev) SYSPOLL_ERROR = has (ee_events e) EPOLLERR)) s"
proof -
  have evs: "pevents (poller (srv s)) = evs" using assms(2) by (simp add: in_turn_def polled_def)
  have sig: "wp tolerated (recvd_term_signal os) Q s = Q True (call_state os (SysRead (sigfd (poller (srv s))) SIZEOF_SIGINFO) s)" for Q
    using assms(1) by (auto simp: recvd_term_signal_def wp_simps benign_def signals_end_def)
  have "has SYSPOLL_TERM SYSPOLL_TERM" by (simp add: has_def event_defs)
  then show ?thesis
    using assms(2-5) in_turn_live [OF assms(1,2)]
    by (auto simp: syspoll_get_def wp_simps evs Let_def udata_ident_def sig event_ok_def in_turn_call adds_no_resource_def
        split: udata.splits option.splits)
qed

lemma wp_udata_ident:
  "wp E (udata_ident URequest) Q s = Q (reqfd (srv s)) s"
  "heap s p = Some r \<Longrightarrow> wp E (udata_ident (URes p)) Q s = Q (resrc_ident r) s"
  by (simp_all add: udata_ident_def wp_simps)

lemma resource_in_turn:
  assumes "benign os sh" and "in_turn os sh evs t (e # es)" and "ee_data e = URes p" and "err = has (ee_events e) EPOLLERR"
  shows "wp tolerated (bindP (is_timer p) (\<lambda>tm. if tm then seqP (timer_event os p) (ret (True, rc))
      else bindP (is_response p) (\<lambda>resp. if resp then seqP (response_event os err p) (ret (True, rc))
      else seqP (xfer_event os err p) (ret (True, rc))))) (\<lambda>r t. r = (True, rc) \<and> in_turn os sh evs t es) t"
proof -
  obtain r where r: "heap t p = Some r" "resrc_wf r" using in_turn_live [OF assms(1-3)] by blast
  have s: "serving os sh t (e # es)" "polled evs t" using assms(2) by (simp_all add: in_turn_def)
  have en: "enabled t (step_of err p r)"
    using assms(1,3,4) s(1) r(1) unfolding benign_def no_late_errors_def by blast
  have "wp tolerated (run_step os (step_of err p r)) (\<lambda>_ t. serving os sh t es) t"
    by (rule step_reaches [OF assms(1) s(1) en]) (use serving.event [OF s(1) assms(3) r(1)] en assms(4) in simp)
  then have "wp tolerated (run_step os (step_of err p r)) (\<lambda>_ t. polled evs t \<and> serving os sh t es) t"
    using s(2) by (intro wp_conj_strong [OF stableD [OF polled_step]])
  then have "wp tolerated (run_step os (step_of err p r)) (\<lambda>_ t. in_turn os sh evs t es) t"
    by (rule wp_mono) (simp add: in_turn_def)
  with r show ?thesis
    by (cases r) (simp_all add: run_step_def wp_bindP wp_seqP wp_ret wp_if is_resrc_defs get_tag_def wp_getP tag_defs)
qed

lemma event_in_turn:
  assumes "benign os sh" and "in_turn os sh evs s (e # es)" and "rc_ok rc" and "i < length evs" and "evs ! i = e" and "event_ok e"
  shows "wp tolerated (process_event fuel os i rc) (\<lambda>(go_on, rc') t. server_inv t \<and>
    (go_on \<longrightarrow> in_turn os sh evs t es \<and> rc_ok rc' \<and> ee_data e \<noteq> USignal)) s"
    (is "wp _ _ ?Q _")
proof -
  have inv: "server_inv t" if "in_turn os sh evs t es'" for t es'
    using that benign_inv [OF assms(1)] by (auto simp: in_turn_def turn_inv_def)
  have req: "wp tolerated (handle_reqfd fuel os k rc) ?Q t" if "in_turn os sh evs t (e # es)" "ee_data e \<noteq> USignal" for t k
  proof -
    have "wp tolerated (reqfd_loop fuel os rc) ?Q t"
      by (rule wp_mono [OF reqfd_in_turn [OF assms(1) in_turn_tl [OF that(1)] assms(3)]]) (use that(2) inv in auto)
    then show ?thesis by (simp add: handle_reqfd_def wp_seqP wp_assertP)
  qed
  have res: "wp tolerated (bindP (is_timer p) (\<lambda>tm. if tm then seqP (timer_event os p) (ret (True, rc))
      else bindP (is_response p) (\<lambda>resp. if resp then seqP (response_event os err p) (ret (True, rc))
      else seqP (xfer_event os err p) (ret (True, rc))))) ?Q t"
    if "in_turn os sh evs t (e # es)" "ee_data e = URes p" "err = has (ee_events e) EPOLLERR" for t p err
    by (rule wp_mono [OF resource_in_turn [OF assms(1) that]]) (use that(2) assms(3) inv in auto)
  show ?thesis
    unfolding process_event_def wp_bindP [of _ "syspoll_get os i"]
  proof (rule wp_mono [OF get_in_turn [OF assms(1,2,4-6)]], goal_cases)
    case (1 ev t)
    then show ?case
      using req [of t] res [of t] in_turn_live [OF assms(1), of evs t e es] inv
      by (cases "ee_data e")
        (auto simp: wp_bindP [of _ "udata_ident ud" for ud] wp_bindP [of _ "getP f" for f] wp_if wp_ret wp_getP wp_udata_ident Let_def)
  qed
qed

lemma events_in_turn:
  assumes "benign os sh" and "n \<le> length evs" and "\<forall>e\<in>set evs. event_ok e"
    and "in_turn os sh evs s (drop i (take n evs))" and "rc_ok rc" and "i \<le> n"
  shows "wp tolerated (events_loop [i..<n] fuel os rc) (\<lambda>(go_on, rc') t. server_inv t \<and>
    (go_on \<longrightarrow> in_turn os sh evs t [] \<and> rc_ok rc' \<and> (\<forall>e\<in>set (drop i (take n evs)). ee_data e \<noteq> USignal))) s"
  using assms(4-6)
proof (induction "n - i" arbitrary: i s rc)
  case 0
  then show ?case using benign_inv [OF assms(1), of s "[]"] by (simp add: wp_simps in_turn_def turn_inv_def)
next
  case (Suc k)
  then have i: "i < n" "i < length evs" using assms(2) by simp_all
  have drop: "drop i (take n evs) = evs ! i # drop (Suc i) (take n evs)"
    using i by (simp add: Cons_nth_drop_Suc [symmetric])
  have "wp tolerated (process_event fuel os i rc) (\<lambda>(go_on, rc') t. server_inv t \<and>
      (go_on \<longrightarrow> in_turn os sh evs t (drop (Suc i) (take n evs)) \<and> rc_ok rc' \<and> ee_data (evs ! i) \<noteq> USignal)) s"
    by (rule event_in_turn [OF assms(1) Suc.prems(1) [unfolded drop] Suc.prems(2) i(2)]) (use assms(3) i(2) in simp_all)
  then show ?case
    unfolding upt_conv_Cons [OF i(1)] events_loop.simps drop
    by (rule wp_seq_rule) (use Suc.hyps i in \<open>auto simp: wp_if wp_ret split: prod.splits elim!: wp_mono\<close>)
qed

section \<open>Turns\<close>

lemma wait_in_turn:
  assumes "benign os sh" and "serving os sh s []"
  shows "wp tolerated (syspoll_epoll os tmo) (\<lambda>n t. let evs = pevents (poller (srv t)) in
    nat n \<le> length evs \<and> (\<forall>e\<in>set evs. event_ok e) \<and> in_turn os sh evs t (take (nat n) evs) \<and>
    take (nat n) evs = ready_events os tmo s) s"
proof -
  let ?ep = "epollfd (poller (srv s))" let ?evs = "os_events os (trace s) ?ep" let ?c = "SysEpollWait ?ep tmo"
  let ?n = "fst (sys os (trace s) ?c)"
  let ?t = "(call_state os ?c s)\<lparr>srv := (srv s)\<lparr>poller := (poller (srv s))\<lparr>pevents := ?evs\<rparr>\<rparr>\<rparr>"
  have rep: "nat ?n \<le> length ?evs" "\<forall>e\<in>set ?evs. event_ok e" "reported sh s (take (nat ?n) ?evs)"
    using assms(1) by (auto simp: benign_def epoll_reports_def reported_def Let_def)
  have ready: "ready_events os tmo s = take (nat ?n) ?evs" by (simp add: ready_events_def)
  have "wp never (run_step os (EvWait tmo)) (\<lambda>_ t. t = ?t) s" by (simp add: run_step_def syspoll_epoll_def wp_simps)
  then have "run_step os (EvWait tmo) s = Ok () ?t" by (simp add: wp_never_iff)
  then have "serving os sh ?t (take (nat ?n) ?evs)"
    using serving.wait [OF assms(2), of tmo ?t] rep(3) unfolding ready by simp
  then have "in_turn os sh ?evs ?t (take (nat ?n) ?evs)" by (simp add: in_turn_def polled_def)
  with rep(1,2) ready show ?thesis by (simp add: syspoll_epoll_def wp_simps)
qed

text \<open>A signal is among the events the next turn gets.\<close>

definition signalled :: "os \<Rightarrow> 'm sproc_scheme \<Rightarrow> bool" where
  "signalled os s \<longleftrightarrow> (\<exists>e\<in>set (ready_events os (if ndeferred_xfers (srv s) = 0 then -1 else 0) s). ee_data e = USignal)"

text \<open>No event before the one of the signal descriptor can keep the loop from seeing it, whatever the kernel does.\<close>

lemma signal_seen:
  assumes "signals_end os" and "polled evs s" and "ee_data (evs ! i) = USignal" and "event_ok (evs ! i)"
  shows "wp anyf (process_event fuel os i rc) (\<lambda>(go_on, _) _. \<not> go_on) s"
proof -
  have "has SYSPOLL_TERM SYSPOLL_TERM" by (simp add: has_def event_defs)
  then show ?thesis
    using assms
    by (auto simp: process_event_def syspoll_get_def recvd_term_signal_def udata_ident_def polled_def event_ok_def signals_end_def
        wp_bindP wp_getP wp_if wp_ret wp_syscall wp_undefP Let_def)
qed

lemma events_stop:
  assumes "signals_end os" and "polled evs s" and "j \<in> set is" and "ee_data (evs ! j) = USignal" and "event_ok (evs ! j)"
  shows "wp anyf (events_loop is fuel os rc) (\<lambda>(go_on, _) _. \<not> go_on) s"
  using assms(2,3)
proof (induction "is" arbitrary: s rc)
  case (Cons i "is")
  show ?case
  proof (cases "i = j")
    case True
    from signal_seen [OF assms(1) Cons.prems(1) assms(4,5)] show ?thesis
      unfolding events_loop.simps True by (rule wp_seq_rule) (auto simp: wp_if wp_ret)
  next
    case False
    with Cons show ?thesis
      unfolding events_loop.simps
      by (intro wp_seq_rule [OF stableD [OF batch.frame_process_event [of evs]]]) (auto simp: wp_if wp_ret split: prod.splits)
  qed
qed simp

lemma turn_stops:
  assumes "signals_end os" and "signalled os s" and "\<forall>e\<in>set (os_events os (trace s) (epollfd (poller (srv s)))). event_ok e"
  shows "wp anyf (srv_turn fuel os rc) (\<lambda>(go_on, _) _. \<not> go_on) s"
proof -
  let ?tmo = "if ndeferred_xfers (srv s) = 0 then -1 else 0" and ?evs = "os_events os (trace s) (epollfd (poller (srv s)))"
  let ?n = "fst (sys os (trace s) (SysEpollWait (epollfd (poller (srv s))) ?tmo))"
  obtain j where j: "j < nat ?n" "j < length ?evs" "ee_data (?evs ! j) = USignal"
    using assms(2) by (auto simp: signalled_def ready_events_def in_set_conv_nth)
  then have ok: "event_ok (?evs ! j)" using assms(3) nth_mem by blast
  have stop: "wp anyf (process_events fuel os ?n rc) (\<lambda>(go_on, _) _. \<not> go_on) t" if "polled ?evs t" for t
    unfolding process_events_def by (rule events_stop [OF assms(1) that _ j(3) ok]) (use j(1) in simp)
  have n: "?n \<noteq> -1" using j(1) by auto
  have wait: "wp anyf (if ndeferred_xfers (srv s) = 0 then syspoll_wait os else syspoll_poll os) (\<lambda>n t. n = ?n \<and> polled ?evs t) s"
    by (simp add: syspoll_wait_def syspoll_poll_def syspoll_epoll_def wp_simps polled_def)
  show ?thesis
    unfolding srv_turn_def wp_bindP [of _ "getP srv"] wp_getP
  proof (rule wp_seq_rule [OF wait], elim conjE, hypsubst, goal_cases)
    case (1 _ t)
    show ?case
      unfolding if_not_P [OF n] by (rule wp_seq_rule [OF stop [OF 1]]) (auto simp: wp_ret)
  qed
qed

lemma turn_kept:
  assumes "benign os sh" and "serving os sh s []" and "rc_ok rc"
  shows "wp tolerated (srv_turn fuel os rc) (\<lambda>(go_on, rc') t. server_inv t \<and>
    (go_on \<longrightarrow> serving os sh t [] \<and> rc_ok rc' \<and> \<not> signalled os s)) s"
    (is "wp _ _ ?Q _")
proof -
  have inv: "server_inv t" if "serving os sh t es" for t es
    using that benign_inv [OF assms(1)] by (auto simp: turn_inv_def)
  let ?tmo = "if ndeferred_xfers (srv s) = 0 then -1 else 0"
  have deferred: "wp tolerated (seqP (process_deferred os) (ret (True, rc')))
      (\<lambda>(go_on, rc') t. server_inv t \<and> (go_on \<longrightarrow> serving os sh t [] \<and> rc_ok rc')) t"
    if "serving os sh t []" "rc_ok rc'" for rc' t
  proof -
    have "wp tolerated (run_step os EvDeferred) (\<lambda>_ t. serving os sh t []) t"
      by (rule step_reaches [OF assms(1) that(1)]) (auto intro: serving.deferred [OF that(1)])
    with that(2) inv show ?thesis by (auto simp: run_step_def wp_seqP wp_ret elim: wp_mono)
  qed
  have events: "wp tolerated (if n = -1 then bindP (getP errno) (\<lambda>e. ret (\<not> (e \<noteq> EINTR \<and> errno_is_fatal e), rc))
        else process_events fuel os n rc) ?Q t"
    if "nat n \<le> length evs" "\<forall>e\<in>set evs. event_ok e" "in_turn os sh evs t (take (nat n) evs)"
      "take (nat n) evs = ready_events os ?tmo s" for n evs t
  proof (cases "n = -1")
    case True
    with that(3,4) inv show ?thesis by (auto simp: wp_simps in_turn_def assms(3) signalled_def)
  next
    case False
    have "wp tolerated (events_loop [0..<nat n] fuel os rc) (\<lambda>(go_on, rc') t. server_inv t \<and>
        (go_on \<longrightarrow> in_turn os sh evs t [] \<and> rc_ok rc' \<and> (\<forall>e\<in>set (drop 0 (take (nat n) evs)). ee_data e \<noteq> USignal))) t"
      by (rule events_in_turn [OF assms(1) that(1,2)]) (use that(3) assms(3) in simp_all)
    with False that(4) show ?thesis by (auto simp: process_events_def in_turn_def signalled_def elim!: wp_mono)
  qed
  have wait: "wp tolerated (if ndeferred_xfers (srv s) = 0 then syspoll_wait os else syspoll_poll os)
    (\<lambda>n t. let evs = pevents (poller (srv t)) in nat n \<le> length evs \<and> (\<forall>e\<in>set evs. event_ok e) \<and>
      in_turn os sh evs t (take (nat n) evs) \<and> take (nat n) evs = ready_events os ?tmo s) s"
    using wait_in_turn [OF assms(1,2)] by (simp add: syspoll_wait_def syspoll_poll_def)
  show ?thesis
    unfolding srv_turn_def wp_bindP [of _ "getP srv"] wp_getP
    by (rule wp_seq_rule [OF wait], rule wp_seq_rule [OF events])
      (auto simp: Let_def wp_ret split: prod.splits intro: deferred)
qed

lemma loop_kept:
  assumes "benign os sh" and "serving os sh s []" and "rc_ok rc"
  shows "wp tolerated (srv_loop fuel os rc) (\<lambda>_. server_inv) s"
  using assms(2,3)
proof (induction fuel arbitrary: s rc)
  case (Suc fuel)
  show ?case
    by (subst srv_loop.simps, simp, rule wp_seq_rule [OF turn_kept [OF assms(1) Suc.prems]])
      (use Suc.IH in \<open>auto simp: wp_if wp_ret split: prod.splits\<close>)
qed (subst srv_loop.simps; simp add: wp_simps)

section \<open>From start to shutdown\<close>

text \<open>No transfer and no timer is left.\<close>

definition shut_down :: "'m sproc_scheme \<Rightarrow> bool" where
  "shut_down s \<longleftrightarrow> (\<forall>p r. heap s p = Some r \<longrightarrow> (\<exists>q. r = RResp q))"

lemma delete_shuts_down:
  fixes s :: "'m sproc_scheme"
  assumes "server_inv s" and "v = srv s"
  shows "wp E (srv_delete os (Some (poller v)) (reqfd v) (Some (xfers v)) (Some (xfer_timers v))) (\<lambda>_. shut_down) s"
  unfolding assms(2)
proof (rule wp_mono [OF srv_delete_post [OF assms(1)]])
  fix a and t :: "'m sproc_scheme"
  assume t: "heap t = (\<lambda>p. if p \<in> xfer_addrs (heap s) \<union> timer_addrs (heap s) then None else heap s p)"
  have "\<exists>q. r = RResp q" if "heap t p = Some r" for p r
    using that t by (cases r) (auto simp: xfer_addrs_def timer_addrs_def split: if_splits)
  then show "shut_down t" by (simp add: shut_down_def)
qed

lemma start_in_turn:
  assumes "mallocs os" and "0 < maxfds" and "maxfds < 2 ^ 31" and "heap s = Map.empty" and "no_resources (trace s)"
  shows "wp tolerated (srv_new os tmo rfd maxfds) (\<lambda>ok t. heap t = Map.empty \<and> (ok \<longrightarrow> serving os sh t [])) s"
proof (rule wp_reaches)
  show "wp tolerated (srv_new os tmo rfd maxfds) (\<lambda>_ _. True) s"
    by (rule wp_mono [OF srv_new_post [OF assms(1-3)]]) simp
  fix ok t assume Ok: "srv_new os tmo rfd maxfds s = Ok ok t"
  have "heap t = Map.empty" using wp_Ok [OF srv_new_post [OF assms(1-3), where s = s] Ok] assms(4) by simp
  then show "heap t = Map.empty \<and> (ok \<longrightarrow> serving os sh t [])" using serving.start [OF assms(1-5)] Ok by auto
qed

lemma started:
  assumes "serving os sh t []" and "\<And>u. serving os sh u [] \<Longrightarrow> wp E fail Q u" and "\<And>u. serving os sh u [] \<Longrightarrow> wp E serve Q u"
  shows "wp E (bindP (getP srv) (\<lambda>v. bindP (syspoll_register os (poller v) (reqfd v) URequest ev) (\<lambda>reg.
    if \<not> reg then fail else bindP (syscall os (SysMalloc n)) (\<lambda>buf. if buf \<le> 0 then fail else serve)))) Q t"
proof -
  have "serving os sh (call_state os c u) []" if "serving os sh u []" "adds_no_resource c" for c u
    using that by (rule serving.other_call)
  then show ?thesis
    unfolding wp_bindP wp_getP wp_syspoll_register Let_def
    using assms by (auto simp: wp_if wp_bindP wp_syscall adds_no_resource_def)
qed

section \<open>Properties\<close>

text \<open>The server never does anything undefined, from its start to its shutdown. For any number of turns,
  any requests of any clients and any answers of the kernel, in a benign environment, \<open>srv_run\<close> reads no
  freed memory, writes past no array and frees nothing twice; when it returns, every transfer and every
  timer has been freed. The environment is benign if memory is available, the poller reports
  registered descriptors, and the two situations the code does not survive never arise: a \<open>SEND_OPEN\<close> for a transfer that is running and an error
  on the channel of a transfer in the deferred list. (The one undefined operation that is
  tolerated is that of memory exhaustion in \<open>send_terminal_resp\<close>.)\<close>

theorem srv_run_safe:
  fixes s :: sproc
  assumes "benign os sh" and "0 < maxfds" and "maxfds < 2 ^ 31" and "heap s = Map.empty" and "no_resources (trace s)"
    and "length (rc_fds junk) = PROT_MAXFDS"
  shows "wp tolerated (srv_run fuel os junk rfd maxfds tmo) (\<lambda>_. shut_down) s"
proof -
  have m: "mallocs os" using assms(1) by (simp add: benign_def)
  have rc: "rc_ok (junk\<lparr>rc_buf := replicate PROT_REQ_MAXSIZE 0\<rparr>)"
    using assms(6) by (simp add: rc_ok_def PROT_REQ_MAXSIZE_def)
  have inv: "server_inv t" if "serving os sh t []" for t using benign_inv [OF assms(1) that] by (simp add: turn_inv_def)
  have serve: "wp tolerated (seqP (srv_loop fuel os (junk\<lparr>rc_buf := replicate PROT_REQ_MAXSIZE 0\<rparr>))
      (bindP (getP srv) (\<lambda>v. seqP (srv_delete os (Some (poller v)) (reqfd v) (Some (xfers v)) (Some (xfer_timers v))) (ret True))))
      (\<lambda>_. shut_down) t" if "serving os sh t []" for t
    unfolding wp_seqP wp_bindP wp_getP wp_ret
    by (rule wp_mono [OF loop_kept [OF assms(1) that rc]]) (simp add: delete_shuts_down)
  have stop: "wp tolerated (bindP (getP srv) (\<lambda>v. seqP (PRESERVE_ERRNO (srv_delete os (Some (poller v)) (reqfd v)
      (Some (xfers v)) (Some (xfer_timers v)))) (ret False))) (\<lambda>_. shut_down) t" if "serving os sh t []" for t
    unfolding wp_seqP wp_bindP wp_getP wp_ret wp_PRESERVE_ERRNO
    by (rule wp_mono [OF delete_shuts_down [OF inv [OF that] refl]]) (simp add: shut_down_def)
  show ?thesis
    unfolding srv_run_def Let_def
    by (rule wp_seq_rule [OF start_in_turn [OF m assms(2-5)]])
      (auto simp: wp_ret shut_down_def [of "s :: sproc" for s] intro!: started serve stop)
qed

text \<open>Two ways for the environment to be benign: the clients send no \<open>SEND_OPEN\<close>, and the kernel reports no
  errors.\<close>

lemma sends_onceI:
  assumes "cmsgs_fit os" and "\<And>h fd. \<exists>c cs. msg_data (os_message os h fd) = c # cs \<and> c \<noteq> PROT_CMD_SEND_OPEN"
  shows "sends_once os sh"
  unfolding sends_once_def
proof (intro allI impI, elim conjE)
  fix s es rc n rc' t
  assume rc: "rc_ok rc" and n: "n \<noteq> -1" and Ok: "us_recv os (reqfd (srv s)) (rc\<lparr>rc_nfds := PROT_MAXFDS\<rparr>) s = Ok (n, rc') t"
  have "delivered (os_message os (trace s) (reqfd (srv s))) (rc\<lparr>rc_nfds := PROT_MAXFDS\<rparr>) rc'"
    using wp_Ok [OF us_recv_post [OF assms(1), of "rc\<lparr>rc_nfds := PROT_MAXFDS\<rparr>"] Ok] rc n
    by (simp add: rc_ok_def PROT_MAXFDS_def)
  moreover obtain c cs where "msg_data (os_message os (trace s) (reqfd (srv s))) = c # cs" "c \<noteq> PROT_CMD_SEND_OPEN"
    using assms(2) by blast
  ultimately have "sfd_get_cmd (rc_buf rc') \<noteq> PROT_CMD_SEND_OPEN"
    using rc by (cases "rc_buf rc") (simp_all add: delivered_def sfd_get_cmd_def rc_ok_def)
  then show "\<not> reopens_running t (rc_buf rc') \<and> \<not> reopens_ready t (rc_buf rc')"
    by (simp add: reopens_running_def reopens_ready_def)
qed

lemma serving_events: "serving os sh s es \<Longrightarrow> e \<in> set es \<Longrightarrow> \<exists>h ep. e \<in> set (os_events os h ep)"
  by (induction rule: serving.induct) (auto simp: ready_events_def dest: in_set_takeD)

lemma no_late_errorsI:
  assumes "\<And>h ep e. e \<in> set (os_events os h ep) \<Longrightarrow> \<not> has (ee_events e) EPOLLERR"
  shows "no_late_errors os sh"
  unfolding no_late_errors_def
proof (intro allI impI, elim conjE)
  fix s e es p r assume s: "serving os sh s (e # es)" and r: "heap s p = Some r"
  have "\<not> has (ee_events e) EPOLLERR" using serving_events [OF s, of e] assms by auto
  with r show "enabled s (step_of (has (ee_events e) EPOLLERR) p r)" by (cases r) simp_all
qed

text \<open>A kernel that reports every registered descriptor up to 10 as readable and delivers requests to cancel.\<close>

definition watched :: "history \<Rightarrow> fd \<Rightarrow> fd list" where
  "watched h ep = filter (\<lambda>fd. interest {} ep h fd \<noteq> None) [0..10]"

definition loop_os :: os where
  "loop_os = turn_os\<lparr>sys := (\<lambda>h c. (case c of SysMalloc n \<Rightarrow> int (length h) + 1 | SysWrite fd bs \<Rightarrow> int (length bs)
     | SysEpollCreate \<Rightarrow> 5 | SysSignalfd \<Rightarrow> 6 | SysOpen nm \<Rightarrow> 12 | SysEpollWait ep tmo \<Rightarrow> int (length (watched h ep))
     | SysRead fd n \<Rightarrow> int n | SysRecvmsg fd n \<Rightarrow> 16 | _ \<Rightarrow> 0, EAGAIN)),
     os_events := (\<lambda>h ep. map (\<lambda>fd. \<lparr>ee_events = EPOLLIN, ee_data = the (interest {} ep h fd)\<rparr>) (watched h ep)),
     os_message := (\<lambda>h fd. \<lparr>msg_data = cancel_bytes (prot_marshal_cancel 1),
       msg_cmsgs = [SCM_CREDENTIALS \<lparr>uc_pid = 42, uc_uid = 0, uc_gid = 0\<rparr>], msg_flags = 0\<rparr>),
     os_signo := (\<lambda>h. SIGTERM)\<rparr>"

lemma loop_os_benign: "benign loop_os {}"
proof -
  have fit: "cmsgs_fit loop_os" by (simp add: cmsgs_fit_def loop_os_def)
  have "\<exists>fds. distinct fds \<and> list_all2 (\<lambda>fd e. interest {} ep h fd = Some (ee_data e)) fds
      (map (\<lambda>fd. \<lparr>ee_events = EPOLLIN, ee_data = the (interest {} ep h fd)\<rparr>) (watched h ep))" for ep h
    by (rule exI [of _ "watched h ep"]) (auto simp: watched_def list_all2_map2 list_all2_same)
  then have "epoll_reports loop_os {}"
    by (simp add: epoll_reports_def loop_os_def Let_def event_ok_def has_def event_defs)
  moreover have "no_late_errors loop_os {}"
    by (rule no_late_errorsI) (auto simp: loop_os_def has_def event_defs)
  moreover have "sends_once loop_os {}"
    by (rule sends_onceI [OF fit]) (simp add: loop_os_def cancel_bytes_def prot_marshal_cancel_def cmd_defs)
  ultimately show ?thesis
    using fit by (simp add: benign_def epoll_ok_def mallocs_def signals_end_def loop_os_def)
qed

theorem srv_run_safe_witness:
  "wp tolerated (srv_run 7 loop_os no_datagram 3 1 1000) (\<lambda>_. shut_down) ((example_state NONE)\<lparr>heap := Map.empty, trace := []\<rparr>)"
  by (rule srv_run_safe [OF loop_os_benign]) (simp_all add: no_resources_def no_datagram_def PROT_MAXFDS_def)

text \<open>C10: A termination signal ends the server in the turn that sees it. When the kernel reports the signal
  descriptor, wherever in the batch its event stands and whatever the events before it do, every turn that returns says to stop,
  and the loop is that turn and no other, so that the shutdown follows; deferred transfers are not
  continued. Of the kernel this needs only that the signal descriptor is reported as readable and yields one of the two signals of its mask. That the turn does nothing undefined and ends in a consistent state is
  claimed for a \<open>benign\<close> environment only: memory is available, \<open>epoll_wait\<close> reports registered descriptors, no client sends a \<open>SEND_OPEN\<close> for a running transfer, and no error is reported
  for a transfer that waits in the deferred list. (An assertion may fail, and clients may
  fill the request socket faster than the server reads it: then the turn does not return.)\<close>

theorem signal_ends_loop:
  fixes s :: sproc
  assumes "signalled os s" and "signals_end os" and "\<forall>e\<in>set (os_events os (trace s) (epollfd (poller (srv s)))). event_ok e"
  shows "wp anyf (srv_turn (Suc fuel) os rc) (\<lambda>(go_on, _) _. \<not> go_on) s \<and>
    srv_loop (Suc fuel) os rc s = bindP (srv_turn (Suc fuel) os rc) (\<lambda>_. ret ()) s \<and>
    (benign os sh \<and> serving os sh s [] \<and> rc_ok rc \<longrightarrow>
       wp tolerated (srv_turn (Suc fuel) os rc) (\<lambda>(go_on, _) t. \<not> go_on \<and> server_inv t) s)"
proof -
  have stop: "wp anyf (srv_turn (Suc fuel) os rc) (\<lambda>(go_on, _) _. \<not> go_on) s" by (rule turn_stops [OF assms(2,1,3)])
  moreover have "srv_loop (Suc fuel) os rc s = bindP (srv_turn (Suc fuel) os rc) (\<lambda>_. ret ()) s"
    using stop by (subst srv_loop.simps) (auto simp: wp_def bindP_def split: outcome.splits)
  moreover have "wp tolerated (srv_turn (Suc fuel) os rc) (\<lambda>(go_on, _) t. \<not> go_on \<and> server_inv t) s"
    if "benign os sh" "serving os sh s []" "rc_ok rc"
    by (rule wp_mono [OF turn_kept [OF that]]) (use assms(1) in auto)
  ultimately show ?thesis by blast
qed

lemma loop_created: "srv_new loop_os 1000 3 1 ((example_state NONE)\<lparr>heap := Map.empty, trace := []\<rparr>) = Ok True created_state"
proof -
  have "clp2 1 = Some 1" by code_simp
  then have "wp never (srv_new loop_os 1000 3 1) (\<lambda>ok t. ok \<and> t = created_state) ((example_state NONE)\<lparr>heap := Map.empty, trace := []\<rparr>)"
    by (simp add: srv_new_def table_alloc_def syspoll_new_def loop_os_def wp_simps Let_def xfer_table_new_def
        xfer_table_construct_def mod_srv_def call_state_def created_state_def SIZEOF_XFER_def)
  then show ?thesis by (auto simp: wp_never_iff)
qed

lemma loop_signalled: "signalled loop_os created_state"
proof -
  have "interest {} 5 (trace created_state) 6 = Some USignal"
    by (simp add: created_state_def interest_def interest_step_def)
  then have "6 \<in> set (watched (trace created_state) 5)" by (simp add: watched_def)
  then have "\<exists>fd\<in>set (watched (trace created_state) 5). the (interest {} 5 (trace created_state) fd) = USignal"
    using \<open>interest {} 5 (trace created_state) 6 = Some USignal\<close> by (metis option.sel)
  moreover have "epollfd (poller (srv created_state)) = 5" by (simp add: created_state_def)
  ultimately show ?thesis by (auto simp: signalled_def ready_events_def loop_os_def)
qed

theorem signal_ends_loop_witness:
  "wp tolerated (srv_turn 8 loop_os (no_datagram\<lparr>rc_buf := [0]\<rparr>)) (\<lambda>(go_on, rc') t. \<not> go_on \<and> server_inv t) created_state"
proof -
  have "mallocs loop_os" using loop_os_benign by (simp add: benign_def)
  then have "serving loop_os {} created_state []"
    by (rule serving.start [OF _ _ _ _ _ loop_created]) (simp_all add: no_resources_def)
  moreover have "signals_end loop_os" "\<forall>e\<in>set (os_events loop_os (trace created_state) (epollfd (poller (srv created_state)))). event_ok e"
    using loop_os_benign by (auto simp: benign_def epoll_reports_def Let_def)
  ultimately show ?thesis
    using signal_ends_loop [OF loop_signalled, of 7 "no_datagram\<lparr>rc_buf := [0]\<rparr>" "{}"] loop_os_benign
    by (simp add: rc_ok_def no_datagram_def PROT_MAXFDS_def)
qed

end
