(* ===== verification/Sfd_Child.thy ===== *)
theory Sfd_Child
  imports Sfd_Sockets
begin

text \<open>
  Child processes: \<open>impl/process.c\<close>. A process started by \<open>sfd_spawn\<close> and a process that becomes a
  daemon redirect their standard descriptors to \<open>/dev/null\<close> and close every other descriptor but the
  ones they are told to keep. Messages printed to the standard error stream are not part of the
  model; the macros that print them restore \<open>errno\<close>.
\<close>

section \<open>The descriptors of a child\<close>

definition PROC_SYNCFD :: fd where "PROC_SYNCFD = 3"
definition STDIN_FILENO :: fd where "STDIN_FILENO = 0"
definition STDOUT_FILENO :: fd where "STDOUT_FILENO = 1"
definition STDERR_FILENO :: fd where "STDERR_FILENO = 2"

lemmas fileno_defs = PROC_SYNCFD_def STDIN_FILENO_def STDOUT_FILENO_def STDERR_FILENO_def

definition dup_to_open_fd :: "os \<Rightarrow> fd \<Rightarrow> fd \<Rightarrow> ('m proc_scheme, bool) prog" where
  "dup_to_open_fd os oldfd newfd =
     bindP (syscall os (SysClose newfd)) (\<lambda>c.
     if c = -1 then ret False
     else bindP (syscall os (SysAdmin (SysDup2 oldfd newfd))) (\<lambda>d. ret (d = newfd)))"

text \<open>The loop over all descriptors above the standard ones.\<close>

primrec close_except :: "fd list \<Rightarrow> os \<Rightarrow> fd list \<Rightarrow> ('m proc_scheme, unit) prog" where
  "close_except [] os excluded_fds = ret ()"
| "close_except (fd # fds) os excluded_fds =
     seqP (whenP (fd \<notin> set excluded_fds) (close_fd os fd)) (close_except fds os excluded_fds)"

text \<open>The limit is a 64-bit number that is cast to \<open>int\<close>; no limit counts as 1024.\<close>

definition fd_limit :: "nat option \<Rightarrow> int" where
  "fd_limit rlim_max = sint (word_of_nat (case rlim_max of None \<Rightarrow> 1024 | Some n \<Rightarrow> n) :: 32 word)"

definition proc_init_child :: "os \<Rightarrow> fd list \<Rightarrow> ('m proc_scheme, bool) prog" where
  "proc_init_child os excluded_fds =
     bindP (syscall os (SysAdmin SysOpenNull)) (\<lambda>nullfd.
     if nullfd = -1 then ret False
     else bindP (dup_to_open_fd os nullfd STDIN_FILENO) (\<lambda>a.
     bindP (if \<not> a then ret False else dup_to_open_fd os nullfd STDOUT_FILENO) (\<lambda>b.
     bindP (if \<not> b then ret False else dup_to_open_fd os nullfd STDERR_FILENO) (\<lambda>c.
     if \<not> c then seqP (PRESERVE_ERRNO (close_fd os nullfd)) (ret False)
     else seqP (close_fd os nullfd)
     (bindP (getP trace) (\<lambda>h.
      bindP (syscall os (SysAdmin SysGetrlimit)) (\<lambda>r.
      if r = -1 then ret False
      else seqP (close_except [STDERR_FILENO + 1 .. fd_limit (os_rlimit os h) - 1] os excluded_fds) (ret True))))))))"

definition proc_chroot :: "os \<Rightarrow> byte list \<Rightarrow> ('m proc_scheme, int) prog" where
  "proc_chroot os path = syscall os (SysAdmin (SysChroot path))"

section \<open>Becoming a daemon\<close>

text \<open>After each \<open>fork\<close> the parent exits; the model follows the process in which the call returned the
  value it did.\<close>

definition proc_daemonise :: "os \<Rightarrow> fd list \<Rightarrow> ('m proc_scheme, bool) prog" where
  "proc_daemonise os noclose_fds =
     seqP (syscall os (SysAdmin (SysUmask 0)))
     (bindP (syscall os (SysAdmin SysGetrlimit)) (\<lambda>r.
      if r < 0 then ret False
      else bindP (syscall os (SysAdmin SysFork)) (\<lambda>pid.
      if pid < 0 then ret False
      else if pid \<noteq> 0 then exitP 0
      else seqP (syscall os (SysAdmin SysSetsid))
      (bindP (syscall os (SysAdmin SysIgnoreHup)) (\<lambda>sa.
       if sa < 0 then ret False
       else bindP (syscall os (SysAdmin SysFork)) (\<lambda>pid.
       if pid < 0 then ret False
       else if pid \<noteq> 0 then exitP 0
       else bindP (syscall os (SysAdmin (SysChdir (cbytes ''/'')))) (\<lambda>cd.
       if cd = -1 then ret False
       else bindP (proc_init_child os noclose_fds) (\<lambda>ok. ret ok))))))))"

section \<open>Rules\<close>

text \<open>\<open>did s cs t\<close>: from \<open>s\<close> to \<open>t\<close> the process made the calls \<open>cs\<close>, in this order.\<close>

definition did :: "'m proc_scheme \<Rightarrow> syscall list \<Rightarrow> 'm proc_scheme \<Rightarrow> bool" where
  "did s cs t \<longleftrightarrow> (\<exists>h. trace t = trace s @ h \<and> map fst h = cs)"

lemma did_refl [simp]: "did s [] s" "did s [] (s\<lparr>errno := e\<rparr>)"
  by (simp_all add: did_def)

lemma did_trans: "did s cs t \<Longrightarrow> did t ds u \<Longrightarrow> did s (cs @ ds) u"
  by (fastforce simp: did_def)

lemma did_call: "did s cs t \<Longrightarrow> did s (cs @ [c]) (call_state os c t)"
  by (fastforce simp: did_def)

lemma did_errno [simp]: "did s cs (t\<lparr>errno := e\<rparr>) \<longleftrightarrow> did s cs t" "did (s\<lparr>errno := e\<rparr>) cs t \<longleftrightarrow> did s cs t"
  by (simp_all add: did_def)

lemma did_first: "did (call_state os c s) cs t \<Longrightarrow> did s (c # cs) t"
  using did_trans [OF did_call [OF did_refl(1)], of os c s cs t] by simp

lemma close_except_calls:
  "wp E (close_except fds os excl) (\<lambda>_. did s (map SysClose (filter (\<lambda>fd. fd \<notin> set excl) fds))) s"
proof (induction fds arbitrary: s)
  case Nil
  then show ?case by (simp add: wp_simps)
next
  case (Cons fd fds)
  show ?case
    using Cons [of s] by (auto simp: wp_simps intro!: did_first wp_mono [OF Cons])
qed

text \<open>The calls \<open>dup2(fd, i)\<close> right after \<open>close(i)\<close>, for the standard descriptors.\<close>

definition redirections :: "fd \<Rightarrow> syscall list" where
  "redirections fd = concat (map (\<lambda>i. [SysClose i, SysAdmin (SysDup2 fd i)]) [STDIN_FILENO, STDOUT_FILENO, STDERR_FILENO])"

text \<open>What the process has done when \<open>proc_init_child\<close> returns.\<close>

definition child_post :: "os \<Rightarrow> fd list \<Rightarrow> 'm proc_scheme \<Rightarrow> bool \<Rightarrow> 'm proc_scheme \<Rightarrow> bool" where
  "child_post os excl s ok t \<longleftrightarrow> (\<exists>nullfd h. trace t = trace s @ (SysAdmin SysOpenNull, nullfd) # h \<and>
     (if ok then nullfd \<noteq> -1 \<and> (\<exists>g. map fst h = redirections nullfd @ [SysClose nullfd, SysAdmin SysGetrlimit] @
          map SysClose (filter (\<lambda>fd. fd \<notin> set excl) [3 .. fd_limit (os_rlimit os g) - 1]))
      else nullfd = -1 \<or> SysClose nullfd \<in> set (map fst h)))"

lemma proc_init_child_post: "wp E (proc_init_child os excl) (child_post os excl s) s"
proof -
  have close: "wp E (close_except [3 .. fd_limit (os_rlimit os g) - 1] os excl) (\<lambda>_. child_post os excl s True) u"
    if "trace u = trace s @ (SysAdmin SysOpenNull, nullfd) # h" "nullfd \<noteq> -1"
      "map fst h = redirections nullfd @ [SysClose nullfd, SysAdmin SysGetrlimit]" for u nullfd h g
    by (rule wp_mono [OF close_except_calls]) (use that in \<open>auto simp: child_post_def did_def\<close>)
  show ?thesis
    unfolding proc_init_child_def dup_to_open_fd_def
    by (auto simp: wp_simps child_post_def [of _ _ _ False] redirections_def fileno_defs intro!: close)
qed

section \<open>Properties\<close>

text \<open>A child process keeps nothing of its parent but what it is told to. When \<open>proc_init_child\<close>
  succeeds, each of the three standard descriptors has been closed and replaced by \<open>/dev/null\<close>, the
  descriptor used for that is closed, and every other descriptor up to the limit has been closed
  once, except exactly those of the list. When it fails, \<open>/dev/null\<close> could not be opened or has been
  closed again.\<close>

theorem child_keeps_excluded_only:
  "wp never (proc_init_child os excl) (\<lambda>ok t. \<exists>nullfd h. trace t = trace s @ (SysAdmin SysOpenNull, nullfd) # h \<and>
     (if ok then nullfd \<noteq> -1 \<and> (\<exists>g. map fst h = redirections nullfd @ [SysClose nullfd, SysAdmin SysGetrlimit] @
          map SysClose (filter (\<lambda>fd. fd \<notin> set excl) [3 .. fd_limit (os_rlimit os g) - 1]))
      else nullfd = -1 \<or> SysClose nullfd \<in> set (map fst h))) s"
  using proc_init_child_post [of never os excl s] unfolding child_post_def .

end
