(* ===== verification/Sfd_Client.thy ===== *)
theory Sfd_Client
  imports Sfd_Child Sfd_Poll
begin

text \<open>
  The client library: \<open>sendfiled.c\<close> with \<open>us_sendv\<close> and \<open>us_attach_fds_and_creds\<close>
  (\<open>impl/unix_socket_client.c\<close>, \<open>impl/unix_socket_client_linux.c\<close>,
  \<open>impl/unix_socket_client_freebsd.c\<close>). A client sends a request with the write end of a fresh pipe
  and reads the answers from the other end; it spawns a server process, waits for its status and
  shuts it down.
\<close>

section \<open>Sending messages\<close>

text \<open>The control data is assembled in a buffer of \<open>bufsize\<close> bytes; an empty list of descriptors stands
  for a null pointer as well.\<close>

definition SIZEOF_UCRED :: nat where "SIZEOF_UCRED = 12"

definition us_attach_fds_and_creds :: "nat \<Rightarrow> fd list \<Rightarrow> ucred option \<Rightarrow> ('s, cmsg list) prog" where
  "us_attach_fds_and_creds bufsize fds creds =
     (let rights_len = (if fds \<noteq> [] then us_cmsg_space (4 * length fds) else 0);
          creds_len = (if creds \<noteq> None then us_cmsg_space SIZEOF_UCRED else 0)
      in if rights_len + creds_len > bufsize then undefP ''control buffer overflow''
         else ret ((if fds \<noteq> [] then [SCM_RIGHTS fds] else []) @
                   (case creds of None \<Rightarrow> [] | Some c \<Rightarrow> [SCM_CREDENTIALS c])))"

text \<open>\<open>data\<close> is the concatenation of the buffers the caller describes.\<close>

definition us_sendv :: "os \<Rightarrow> fd \<Rightarrow> byte list \<Rightarrow> fd list \<Rightarrow> ('m proc_scheme, int) prog" where
  "us_sendv os fd data fds_to_send =
     bindP (syscall os SysGeteuid) (\<lambda>uid.
     bindP (syscall os (SysAdmin SysGetegid)) (\<lambda>gid.
     bindP (syscall os (SysAdmin SysGetpid)) (\<lambda>pid.
     bindP (us_attach_fds_and_creds (us_cmsg_space (4 * PROT_MAXFDS) + us_cmsg_space SIZEOF_UCRED) fds_to_send
              (Some \<lparr>uc_pid = pid, uc_uid = nat uid, uc_gid = nat gid\<rparr>)) (\<lambda>cmsgs.
     syscall os (SysSendmsg fd data cmsgs)))))"

text \<open>On FreeBSD the kernel attaches the credentials itself.\<close>

definition us_sendv_freebsd :: "os \<Rightarrow> fd \<Rightarrow> byte list \<Rightarrow> fd list \<Rightarrow> ('m proc_scheme, int) prog" where
  "us_sendv_freebsd os fd data fds_to_send =
     bindP (syscall os (SysMalloc (us_cmsg_space (4 * PROT_MAXFDS)))) (\<lambda>cmsg_buf.
     if cmsg_buf \<le> 0 then ret (-1)
     else bindP (us_attach_fds_and_creds (us_cmsg_space (4 * PROT_MAXFDS)) fds_to_send None) (\<lambda>cmsgs.
     syscall os (SysSendmsg fd data cmsgs)))"

section \<open>Requests\<close>

text \<open>
  The three functions that ask for a file make a pipe, whose read end is made blocking
  where the caller wants it, and send the request with the write end of the pipe and, for
  \<open>sfd_send\<close>, the destination. A message that cannot be built sets \<open>errno\<close> itself.
\<close>

definition sfd_read ::
  "os \<Rightarrow> fd \<Rightarrow> byte list option \<Rightarrow> off_t \<Rightarrow> size_t \<Rightarrow> bool \<Rightarrow> ('m proc_scheme, fd) prog" where
  "sfd_read os sockfd filename offset len dest_fd_nonblock =
     bindP (sfd_pipe os (O_NONBLOCK OR O_CLOEXEC)) (\<lambda>(r, (rd, wr)).
     if r = -1 then ret (-1)
     else
       let fail = seqP (PRESERVE_ERRNO (close_fd os rd)) (seqP (PRESERVE_ERRNO (close_fd os wr)) (ret (-1)))
       in bindP (if dest_fd_nonblock then ret True else set_nonblock os rd False) (\<lambda>ok.
          if \<not> ok then fail
          else case prot_marshal_read filename offset len of
            Inl e \<Rightarrow> seqP (set_errno e) fail
          | Inr req \<Rightarrow>
              bindP (us_sendv os sockfd (REQ_IOVS req) [wr]) (\<lambda>nsent.
              if nsent = -1 then fail
              else seqP (close_fd os wr) (ret rd))))"

definition sfd_open ::
  "os \<Rightarrow> fd \<Rightarrow> byte list option \<Rightarrow> off_t \<Rightarrow> size_t \<Rightarrow> bool \<Rightarrow> ('m proc_scheme, fd) prog" where
  "sfd_open os srv_sockfd filename offset len stat_fd_nonblock =
     bindP (sfd_pipe os (O_NONBLOCK OR O_CLOEXEC)) (\<lambda>(r, (rd, wr)).
     if r = -1 then ret (-1)
     else
       let fail = seqP (PRESERVE_ERRNO (close_fd os rd)) (seqP (PRESERVE_ERRNO (close_fd os wr)) (ret (-1)))
       in bindP (if stat_fd_nonblock then ret True else set_nonblock os rd False) (\<lambda>ok.
          if \<not> ok then fail
          else case prot_marshal_file_open filename offset len of
            Inl e \<Rightarrow> seqP (set_errno e) fail
          | Inr req \<Rightarrow>
              bindP (us_sendv os srv_sockfd (REQ_IOVS req) [wr]) (\<lambda>nsent.
              if nsent = -1 then fail
              else seqP (close_fd os wr) (ret rd))))"

definition sfd_send ::
  "os \<Rightarrow> fd \<Rightarrow> byte list option \<Rightarrow> fd \<Rightarrow> off_t \<Rightarrow> size_t \<Rightarrow> bool \<Rightarrow> ('m proc_scheme, fd) prog" where
  "sfd_send os srv_sockfd filename dfd offset len stat_fd_nonblock =
     bindP (sfd_pipe os (O_NONBLOCK OR O_CLOEXEC)) (\<lambda>(r, (rd, wr)).
     if r = -1 then ret (-1)
     else
       let fail = seqP (PRESERVE_ERRNO (close_fd os rd)) (seqP (PRESERVE_ERRNO (close_fd os wr)) (ret (-1)))
       in bindP (if stat_fd_nonblock then ret True else set_nonblock os rd False) (\<lambda>ok.
          if \<not> ok then fail
          else case prot_marshal_send filename offset len of
            Inl e \<Rightarrow> seqP (set_errno e) fail
          | Inr req \<Rightarrow>
              bindP (us_sendv os srv_sockfd (REQ_IOVS req) [wr, dfd]) (\<lambda>nsent.
              if nsent = -1 then fail
              else seqP (close_fd os wr) (ret rd))))"

definition sfd_send_open :: "os \<Rightarrow> fd \<Rightarrow> size_t \<Rightarrow> fd \<Rightarrow> ('m proc_scheme, bool) prog" where
  "sfd_send_open os srv_sockfd tx dfd =
     bindP (us_sendv os srv_sockfd (send_open_bytes (prot_marshal_send_open tx)) [dfd]) (\<lambda>n. ret (n \<noteq> -1))"

definition sfd_cancel :: "os \<Rightarrow> fd \<Rightarrow> size_t \<Rightarrow> ('m proc_scheme, bool) prog" where
  "sfd_cancel os srv_sockfd tx =
     bindP (us_sendv os srv_sockfd (cancel_bytes (prot_marshal_cancel tx)) []) (\<lambda>n. ret (n \<noteq> -1))"

text \<open>\<open>mok\<close> says whether the memory for the socket path is available.\<close>

definition sfd_connect :: "os \<Rightarrow> bool \<Rightarrow> byte list \<Rightarrow> byte list \<Rightarrow> ('m proc_scheme, fd) prog" where
  "sfd_connect os mok sockdir name =
     bindP (us_connect os mok sockdir name) (\<lambda>fd.
     seqP (whenP (fd \<noteq> -1) (seqP (syscall os (SysShutdown fd)) (ret ()))) (ret fd))"

section \<open>Server processes\<close>

text \<open>An \<open>int\<close> in memory and its decimal representation.\<close>

definition int_bytes :: "int \<Rightarrow> byte list" where
  "int_bytes i = le_enc 4 (ucast (word_of_int i :: 32 word))"

definition bytes_int :: "byte list \<Rightarrow> int" where
  "bytes_int bs = sint (ucast (le_dec (take 4 bs)) :: 32 word)"

fun digits :: "nat \<Rightarrow> byte list" where
  "digits n = (if n < 10 then [48 + of_nat n] else digits (n div 10) @ [48 + of_nat (n mod 10)])"

declare digits.simps [simp del]

definition decimal :: "int \<Rightarrow> byte list" where
  "decimal i = (if i < 0 then 45 # digits (nat (- i)) else digits (nat i))"

definition wait_child :: "os \<Rightarrow> pid_t \<Rightarrow> ('m proc_scheme, int) prog" where
  "wait_child os pid =
     bindP (getP trace) (\<lambda>h.
     bindP (syscall os (SysAdmin (SysWaitpid pid))) (\<lambda>r.
     if r = -1 then ret (-1) else ret (os_status os h)))"

definition sfd_shutdown :: "os \<Rightarrow> pid_t \<Rightarrow> ('m proc_scheme, int) prog" where
  "sfd_shutdown os pid =
     bindP (syscall os (SysAdmin (SysKill pid SIGTERM))) (\<lambda>r.
     if r = -1 then ret (-1) else wait_child os pid)"

definition SFD_PROGNAME :: "byte list" where "SFD_PROGNAME = cbytes ''sendfiled''"

text \<open>The numbers are printed into buffers of ten bytes. \<open>exec_args\<close> are the arguments that follow the
  name of the program.\<close>

definition exec_args :: "byte list \<Rightarrow> byte list \<Rightarrow> byte list \<Rightarrow> int \<Rightarrow> int \<Rightarrow> byte list list" where
  "exec_args srvname root_dir srv_sockdir maxfiles open_fd_timeout_ms =
     [cbytes ''-S'', cstr srv_sockdir, cbytes ''-s'', cstr srvname, cbytes ''-r'', cstr root_dir,
      cbytes ''-n'', decimal maxfiles, cbytes ''-t'', decimal open_fd_timeout_ms, cbytes ''-p'']"

definition exec_server ::
  "os \<Rightarrow> byte list \<Rightarrow> byte list \<Rightarrow> byte list \<Rightarrow> int \<Rightarrow> int \<Rightarrow> ('m proc_scheme, bool) prog" where
  "exec_server os srvname root_dir srv_sockdir maxfiles open_fd_timeout_ms =
     bindP (syscall os (SysAdmin SysLineMax)) (\<lambda>line_max.
     seqP (assertP (line_max > 0) ''line_max > 0'')
     (if strnlen srvname (nat line_max + 1) = nat line_max + 1 then seqP (set_errno ENAMETOOLONG) (ret False)
      else if length (decimal maxfiles) \<ge> 10 then ret False
      else if length (decimal open_fd_timeout_ms) \<ge> 10 then ret False
      else seqP (syscall os (SysAdmin (SysExecvp SFD_PROGNAME
              (SFD_PROGNAME # exec_args srvname root_dir srv_sockdir maxfiles open_fd_timeout_ms))))
           (ret False)))"

text \<open>The parent reads the status the child writes: 0 once it serves, otherwise the value of \<open>errno\<close>.\<close>

definition spawn_parent :: "os \<Rightarrow> pid_t \<Rightarrow> fd \<Rightarrow> fd \<Rightarrow> ('m proc_scheme, pid_t) prog" where
  "spawn_parent os pid rd wr =
     seqP (close_fd os wr)
     (bindP (getP trace) (\<lambda>h.
      bindP (syscall os (SysRead rd 4)) (\<lambda>n.
      if n \<noteq> 4 then seqP (PRESERVE_ERRNO (close_fd os rd)) (ret (-1))
      else seqP (close_fd os rd)
      (let child_err = bytes_int (os_data os h rd)
       in if child_err = 0 then ret pid
          else if child_err = EADDRINUSE then seqP (wait_child os pid) (ret 0)
          else seqP (wait_child os pid) (seqP (set_errno child_err) (ret (-1)))))))"

text \<open>Reporting the error: the loop ends when the pipe has taken four bytes or refuses them. A write
  that reports zero bytes would be repeated, hence the fuel.\<close>

fun report_errno :: "nat \<Rightarrow> os \<Rightarrow> fd \<Rightarrow> nat \<Rightarrow> ('m proc_scheme, unit) prog" where
  "report_errno fuel os syncfd nsent =
     (if nsent \<ge> 4 then ret ()
      else if fuel = 0 then divergeP
      else bindP (getP errno) (\<lambda>e.
           bindP (syscall os (SysWrite syncfd (int_bytes e))) (\<lambda>n.
           if n < 0 then ret () else report_errno (fuel - 1) os syncfd (nsent + nat n))))"

declare report_errno.simps [simp del]

definition spawn_child ::
  "nat \<Rightarrow> os \<Rightarrow> byte list \<Rightarrow> byte list \<Rightarrow> byte list \<Rightarrow> int \<Rightarrow> int \<Rightarrow> fd \<Rightarrow> fd \<Rightarrow> ('m proc_scheme, pid_t) prog" where
  "spawn_child fuel os srvname root_dir sockdir maxfiles open_fd_timeout_ms rd wr =
     seqP (close_fd os rd)
     (let fail = (\<lambda>syncfd. seqP (report_errno fuel os syncfd 0) (exitP 1));
          rest = bindP (proc_init_child os [PROC_SYNCFD]) (\<lambda>ok.
            if \<not> ok then fail PROC_SYNCFD
            else seqP (exec_server os srvname root_dir sockdir maxfiles open_fd_timeout_ms) (fail PROC_SYNCFD))
      in if wr \<noteq> PROC_SYNCFD then
           bindP (syscall os (SysAdmin (SysDup2 wr PROC_SYNCFD))) (\<lambda>d.
           if d = -1 then fail wr else seqP (close_fd os wr) rest)
         else rest)"

definition sfd_spawn ::
  "nat \<Rightarrow> os \<Rightarrow> byte list \<Rightarrow> byte list \<Rightarrow> byte list \<Rightarrow> int \<Rightarrow> int \<Rightarrow> ('m proc_scheme, pid_t) prog" where
  "sfd_spawn fuel os srvname root_dir sockdir maxfiles open_fd_timeout_ms =
     bindP (sfd_pipe os O_CLOEXEC) (\<lambda>(r, (rd, wr)).
     if r = -1 then ret (-1)
     else bindP (syscall os (SysAdmin SysFork)) (\<lambda>pid.
     if pid = -1 then
       seqP (PRESERVE_ERRNO (close_fd os rd)) (seqP (PRESERVE_ERRNO (close_fd os wr)) (ret (-1)))
     else if pid > 0 then spawn_parent os pid rd wr
     else spawn_child fuel os srvname root_dir sockdir maxfiles open_fd_timeout_ms rd wr))"

section \<open>Rules\<close>

definition attached :: "fd list \<Rightarrow> ucred \<Rightarrow> cmsg list" where
  "attached fds u = (if fds \<noteq> [] then [SCM_RIGHTS fds] else []) @ [SCM_CREDENTIALS u]"

text \<open>The state after the sender has asked for its identity.\<close>

definition identified :: "os \<Rightarrow> 'm proc_scheme \<Rightarrow> 'm proc_scheme" where
  "identified os s = call_state os (SysAdmin SysGetpid) (call_state os (SysAdmin SysGetegid) (call_state os SysGeteuid s))"

definition sender :: "os \<Rightarrow> 'm proc_scheme \<Rightarrow> ucred" where
  "sender os s =
     (let s1 = call_state os SysGeteuid s; s2 = call_state os (SysAdmin SysGetegid) s1
      in \<lparr>uc_pid = fst (sys os (trace s2) (SysAdmin SysGetpid)), uc_uid = nat (fst (sys os (trace s) SysGeteuid)),
          uc_gid = nat (fst (sys os (trace s1) (SysAdmin SysGetegid)))\<rparr>)"

lemma wp_us_sendv:
  assumes "length fds \<le> PROT_MAXFDS"
  shows "wp E (us_sendv os fd data fds) Q s =
    Q (fst (sys os (trace (identified os s)) (SysSendmsg fd data (attached fds (sender os s)))))
      (call_state os (SysSendmsg fd data (attached fds (sender os s))) (identified os s))"
proof -
  have "\<not> us_cmsg_space (4 * PROT_MAXFDS) + us_cmsg_space SIZEOF_UCRED <
     (if fds \<noteq> [] then us_cmsg_space (4 * length fds) else 0) + us_cmsg_space SIZEOF_UCRED"
    using assms by (auto simp: us_cmsg_space_def CMSG_ALIGN_def PROT_MAXFDS_def intro!: div_le_mono)
  then show ?thesis
    by (simp add: us_sendv_def us_attach_fds_and_creds_def wp_simps Let_def attached_def identified_def sender_def)
qed

text \<open>What the three requests have in common.\<close>

definition request_with_pipe ::
  "os \<Rightarrow> fd \<Rightarrow> (errno_t + prot_request) \<Rightarrow> fd list \<Rightarrow> bool \<Rightarrow> ('m proc_scheme, fd) prog" where
  "request_with_pipe os sockfd marshalled dest nonblock =
     bindP (sfd_pipe os (O_NONBLOCK OR O_CLOEXEC)) (\<lambda>(r, (rd, wr)).
     if r = -1 then ret (-1)
     else
       let fail = seqP (PRESERVE_ERRNO (close_fd os rd)) (seqP (PRESERVE_ERRNO (close_fd os wr)) (ret (-1)))
       in bindP (if nonblock then ret True else set_nonblock os rd False) (\<lambda>ok.
          if \<not> ok then fail
          else case marshalled of
            Inl e \<Rightarrow> seqP (set_errno e) fail
          | Inr req \<Rightarrow>
              bindP (us_sendv os sockfd (REQ_IOVS req) (wr # dest)) (\<lambda>nsent.
              if nsent = -1 then fail
              else seqP (close_fd os wr) (ret rd))))"

lemma request_eqs:
  "sfd_read os sock filename off len nonblock = request_with_pipe os sock (prot_marshal_read filename off len) [] nonblock"
  "sfd_open os sock filename off len nonblock = request_with_pipe os sock (prot_marshal_file_open filename off len) [] nonblock"
  "sfd_send os sock filename dfd off len nonblock = request_with_pipe os sock (prot_marshal_send filename off len) [dfd] nonblock"
  by (simp_all add: sfd_read_def sfd_open_def sfd_send_def request_with_pipe_def)

text \<open>What a request with a pipe did, by its result.\<close>

definition pipe_flags :: int where "pipe_flags = O_NONBLOCK OR O_CLOEXEC"

definition block_calls :: "bool \<Rightarrow> fd \<Rightarrow> syscall list \<Rightarrow> bool" where
  "block_calls nonblock rd cs \<longleftrightarrow> (if nonblock then cs = []
     else \<exists>fl. cs = [SysGetfl rd, SysSetfl rd (fl AND NOT O_NONBLOCK)])"

definition asked :: "os \<Rightarrow> fd \<Rightarrow> byte list \<Rightarrow> fd list \<Rightarrow> bool \<Rightarrow> 'm proc_scheme \<Rightarrow> fd \<Rightarrow> 'm proc_scheme \<Rightarrow> bool" where
  "asked os sock data dest nonblock s r t \<longleftrightarrow> (\<exists>rd wr cs u. os_pipe os (trace s) = (rd, wr) \<and> r = rd \<and> block_calls nonblock rd cs \<and>
     did s (SysPipe pipe_flags # cs @ [SysGeteuid, SysAdmin SysGetegid, SysAdmin SysGetpid,
       SysSendmsg sock data (attached (wr # dest) u), SysClose wr]) t)"

definition refused :: "os \<Rightarrow> (errno_t + prot_request) \<Rightarrow> 'm proc_scheme \<Rightarrow> 'm proc_scheme \<Rightarrow> bool" where
  "refused os m s t \<longleftrightarrow>
     trace t = trace s @ [(SysPipe pipe_flags, -1)] \<and> last_failed os (trace s) [(SysPipe pipe_flags, -1)] (errno t) \<or>
     (\<exists>rd wr r h c d. os_pipe os (trace s) = (rd, wr) \<and> r \<noteq> -1 \<and>
        trace t = trace s @ (SysPipe pipe_flags, r) # h @ [(SysClose rd, c), (SysClose wr, d)] \<and>
        (\<forall>fd. SysClose fd \<notin> set (map fst h)) \<and>
        (last_failed os (trace s @ [(SysPipe pipe_flags, r)]) h (errno t) \<or> m = Inl (errno t) \<or>
         (\<exists>fl x. fl \<notin> {0, -1} \<and> (SysSetfl rd x, fl) \<in> set h)))"

lemma request_with_pipe_post:
  assumes "length dest < PROT_MAXFDS"
  shows "wp never (request_with_pipe os sock m dest nonblock) (\<lambda>r t.
     refused os m s t \<and> r = -1 \<or> (\<exists>req. m = Inr req \<and> asked os sock (REQ_IOVS req) dest nonblock s r t)) s"
proof -
  obtain rd wr where p: "os_pipe os (trace s) = (rd, wr)" by (cases "os_pipe os (trace s)")
  have len: "length (wr # dest) \<le> PROT_MAXFDS" using assms by simp
  show ?thesis
    unfolding request_with_pipe_def sfd_pipe_def pipe_flags_def [symmetric]
    by (auto simp: wp_simps Let_def p refused_def asked_def did_def set_nonblock_def block_calls_def identified_def errno_call_state last_failed_def prod_eq_iff
        wp_us_sendv [OF len] split: sum.split)
qed

lemma bytes_int_bytes:
  assumes "- (2 ^ 31) \<le> i" and "i < 2 ^ 31"
  shows "bytes_int (int_bytes i) = i"
proof -
  have "(ucast (take_bit 32 (ucast (w :: 32 word) :: 64 word)) :: 32 word) = w" for w
    by (rule bit_word_eqI) (auto simp: bit_simps)
  then have "bytes_int (int_bytes i) = sint (word_of_int i :: 32 word)"
    by (simp add: bytes_int_def int_bytes_def le_dec_enc)
  also have "\<dots> = i" using assms by (simp add: signed_of_int signed_take_bit_int_eq_self)
  finally show ?thesis .
qed

lemma length_digits: "0 < k \<Longrightarrow> length (digits n) \<le> k \<longleftrightarrow> n < 10 ^ k"
proof (induction k arbitrary: n)
  case (Suc k)
  show ?case
  proof (cases "n < 10")
    case True
    then have "n < 10 ^ Suc k" by (rule order_less_le_trans) simp
    with True show ?thesis by (simp add: digits.simps [of n])
  next
    case False
    have "length (digits m) \<noteq> 0" for m by (simp add: digits.simps [of m])
    with False show ?thesis
      using Suc.IH [of "n div 10"] by (cases "k = 0") (auto simp: digits.simps [of n] div_less_iff_less_mult mult.commute)
  qed
qed simp

text \<open>The server unmarshals the request \<open>data\<close>, at the start of a buffer with any other contents, as the
  command, range and file name given.\<close>

definition understood :: "byte \<Rightarrow> off_t \<Rightarrow> size_t \<Rightarrow> byte list \<Rightarrow> byte list \<Rightarrow> bool" where
  "understood c off len name data \<longleftrightarrow> (\<forall>rest. \<exists>pdu. prot_unmarshal_request (data @ rest) (length data) = Inr pdu \<and>
     rq_cmd pdu = c \<and> rq_offset pdu = off \<and> rq_len pdu = len \<and> map_option cstr (rq_filename pdu) = Some name)"

lemma marshalled_understood:
  assumes "0 \<notin> set name" and "name \<noteq> []" and "length name \<le> PROT_FILENAME_MAX"
    and "c \<in> {PROT_CMD_SEND, PROT_CMD_READ, PROT_CMD_FILE_OPEN}"
    and "marshal_req c off len (Some (name @ 0 # mem)) = Inr req"
  shows "understood c off len name (REQ_IOVS req)"
proof -
  have req: "req = \<lparr>rq_cmd = c, rq_stat = SFD_STAT_OK, rq_offset = off, rq_len = len,
         rq_filename = Some (name @ 0 # mem), rq_filename_len = length name\<rparr>"
    using assms(5) marshal_req_Inr [OF assms(1,3)] by simp
  then have i: "REQ_IOVS req = request_base_bytes req @ name @ [0]" by (simp add: REQ_IOVS_def)
  show ?thesis
    using unmarshal_datagram [of req name] assms(1-4) unfolding understood_def i by (simp add: req)
qed

lemma request_post:
  assumes "0 \<notin> set name" and "name \<noteq> []" and "length name \<le> PROT_FILENAME_MAX"
    and "c \<in> {PROT_CMD_SEND, PROT_CMD_READ, PROT_CMD_FILE_OPEN}" and "length dest < PROT_MAXFDS"
  shows "wp never (request_with_pipe os sock (marshal_req c off len (Some (name @ 0 # mem))) dest nonblock) (\<lambda>r t.
     r = -1 \<or> (\<exists>data. asked os sock data dest nonblock s r t \<and> understood c off len name data)) s"
  by (rule wp_mono [OF request_with_pipe_post [OF assms(5)]]) (use marshalled_understood [OF assms(1-4)] in blast)

section \<open>Properties\<close>

text \<open>A client's request reaches the server as the client meant it. When \<open>sfd_send\<close>, \<open>sfd_read\<close> or
  \<open>sfd_open\<close> succeeds, it has sent one datagram that carries the write end of a fresh pipe (and the
  destination) and its own credentials, has closed its copy of the write end and returns the read
  end; the server unmarshals exactly the command, the range and the file name that were asked for,
  whatever follows the datagram in its buffer. In every other case the result is \<open>-1\<close>.\<close>

theorem request_understood:
  assumes "0 \<notin> set name" and "name \<noteq> []" and "length name \<le> PROT_FILENAME_MAX"
  shows "wp never (sfd_send os sock (Some (name @ 0 # mem)) dfd off len nonblock) (\<lambda>r t. r = -1 \<or>
      (\<exists>data. asked os sock data [dfd] nonblock s r t \<and> understood PROT_CMD_SEND off len name data)) s \<and>
    wp never (sfd_read os sock (Some (name @ 0 # mem)) off len nonblock) (\<lambda>r t. r = -1 \<or>
      (\<exists>data. asked os sock data [] nonblock s r t \<and> understood PROT_CMD_READ off len name data)) s \<and>
    wp never (sfd_open os sock (Some (name @ 0 # mem)) off len nonblock) (\<lambda>r t. r = -1 \<or>
      (\<exists>data. asked os sock data [] nonblock s r t \<and> understood PROT_CMD_FILE_OPEN off len name data)) s"
  unfolding request_eqs prot_marshal_send_def prot_marshal_read_def prot_marshal_file_open_def
  by (intro conjI request_post [OF assms]) (simp_all add: PROT_MAXFDS_def)

theorem request_understood_witness:
  "wp never (sfd_read quiet_os 9 (Some ([97, 98] @ 0 # [])) 5 7 True) (\<lambda>r t. r = -1 \<or>
     (\<exists>data. asked quiet_os 9 data [] True proc0 r t \<and> understood PROT_CMD_READ 5 7 [97, 98] data)) proc0"
  using request_understood [of "[97, 98]" quiet_os 9 "[]" 0 5 7 True proc0] by (simp add: PROT_FILENAME_MAX_def)

text \<open>C37: No request of the client leaks a descriptor: neither \<open>sfd_read\<close> nor \<open>sfd_open\<close> nor \<open>sfd_send\<close>. When
  one fails, the result is \<open>-1\<close> and either the pipe could not be created, and \<open>errno\<close> is its error, or
  both ends of the pipe are closed, once each, after everything else, and \<open>errno\<close> is the error of the
  last call before these two (or \<open>ENAMETOOLONG\<close> for the file name), whatever the closes did; the
  only other case is a kernel that answers \<open>F_SETFL\<close> with something else than 0 or \<open>-1\<close>. When it succeeds, one datagram has been sent
  and exactly the write end is closed.\<close>

theorem request_no_leak:
  "wp never (sfd_read os sock filename off len nonblock) (\<lambda>r t.
     refused os (prot_marshal_read filename off len) s t \<and> r = -1 \<or>
     (\<exists>req. prot_marshal_read filename off len = Inr req \<and> asked os sock (REQ_IOVS req) [] nonblock s r t)) s \<and>
   wp never (sfd_open os sock filename off len nonblock) (\<lambda>r t.
     refused os (prot_marshal_file_open filename off len) s t \<and> r = -1 \<or>
     (\<exists>req. prot_marshal_file_open filename off len = Inr req \<and> asked os sock (REQ_IOVS req) [] nonblock s r t)) s \<and>
   wp never (sfd_send os sock filename dfd off len nonblock) (\<lambda>r t.
     refused os (prot_marshal_send filename off len) s t \<and> r = -1 \<or>
     (\<exists>req. prot_marshal_send filename off len = Inr req \<and> asked os sock (REQ_IOVS req) [dfd] nonblock s r t)) s"
  unfolding request_eqs by (intro conjI request_with_pipe_post) (simp_all add: PROT_MAXFDS_def)

text \<open>C33: The client learns how its server process started. When the server's status \<open>e\<close> comes through
  the pipe, \<open>sfd_spawn\<close> returns the process id if it is 0, 0 if the name is in use, and otherwise
  \<open>-1\<close> with \<open>errno\<close> set to the error of the server process; in the last two cases it has waited for
  the process to end. Both ends of the pipe are closed.\<close>

theorem spawn_reports_status:
  assumes "- (2 ^ 31) \<le> e" and "e < 2 ^ 31" and "0 < pid"
    and "\<forall>h. fst (sys os h (SysPipe O_CLOEXEC)) = 0" and "\<forall>h. os_pipe os h = (rd, wr)"
    and "\<forall>h. fst (sys os h (SysAdmin SysFork)) = pid"
    and "\<forall>h. fst (sys os h (SysRead rd 4)) = 4" and "\<forall>h. os_data os h rd = int_bytes e"
  shows "wp never (sfd_spawn fuel os srvname root_dir sockdir maxfiles tmo) (\<lambda>r t.
     r = (if e = 0 then pid else if e = EADDRINUSE then 0 else -1) \<and> (r = -1 \<longrightarrow> errno t = e) \<and>
     did s ([SysPipe O_CLOEXEC, SysAdmin SysFork, SysClose wr, SysRead rd 4, SysClose rd] @
       (if e = 0 then [] else [SysAdmin (SysWaitpid pid)])) t) s"
  using assms(3-8) bytes_int_bytes [OF assms(1,2)]
  by (auto simp: sfd_spawn_def sfd_pipe_def spawn_parent_def wait_child_def wp_simps Let_def did_def EADDRINUSE_def)

definition spawning_os :: os where
  "spawning_os = quiet_os\<lparr>sys := (\<lambda>h c. (case c of SysAdmin SysFork \<Rightarrow> 77 | SysRead fd n \<Rightarrow> 4 | _ \<Rightarrow> 0, EAGAIN)),
     os_pipe := (\<lambda>h. (4, 5)), os_data := (\<lambda>h fd. int_bytes EACCES)\<rparr>"

theorem spawn_reports_status_witness:
  "wp never (sfd_spawn 0 spawning_os [100, 0] [47, 0] [47, 0] 10 1000) (\<lambda>r t. r = -1 \<and> errno t = EACCES) proc0"
  by (rule wp_mono [OF spawn_reports_status [where e = EACCES and pid = 77 and rd = 4 and wr = 5]])
    (auto simp: spawning_os_def EACCES_def EADDRINUSE_def)

text \<open>A limit of a thousand million files or more (or one below minus a hundred million) does not fit
  the buffer it is printed into. \<open>exec_server\<close> then gives up without executing the server and
  without setting \<open>errno\<close>: what the parent is told is whatever \<open>errno\<close> was before, 0 if no call has
  failed, which the parent takes for success.\<close>

theorem exec_server_silent_failure:
  assumes "10 ^ 9 \<le> maxfiles \<or> maxfiles \<le> - (10 ^ 8)"
    and "0 < fst (sys os (trace s) (SysAdmin SysLineMax))"
    and "strlen srvname \<le> nat (fst (sys os (trace s) (SysAdmin SysLineMax)))"
  shows "wp never (exec_server os srvname root_dir sockdir maxfiles tmo) (\<lambda>r t. \<not> r \<and> errno t = errno s \<and>
     did s [SysAdmin SysLineMax] t) s"
proof -
  have "\<not> length (digits (nat maxfiles)) \<le> 9" if "10 ^ 9 \<le> maxfiles"
    using that length_digits [of 9 "nat maxfiles"] by simp
  moreover have "\<not> length (digits (nat (- maxfiles))) \<le> 8" if "maxfiles \<le> - (10 ^ 8)"
    using that length_digits [of 8 "nat (- maxfiles)"] by simp
  ultimately have "10 \<le> length (decimal maxfiles)" using assms(1) by (auto simp: decimal_def)
  then show ?thesis
    using assms(2,3) by (auto simp: exec_server_def wp_simps strnlen_strlen errno_call_state did_def)
qed

theorem exec_server_silent_failure_witness:
  "wp never (exec_server (quiet_os\<lparr>sys := (\<lambda>h c. (2048, EAGAIN))\<rparr>) [100, 0] [47, 0] [47, 0] 1000000000 1000)
     (\<lambda>r t. \<not> r \<and> errno t = 0) proc0"
  by (rule wp_mono [OF exec_server_silent_failure]) (auto simp: proc0_def strlen_def cstr_def)

end
