(* ===== verification/Sfd_Daemon.thy ===== *)
theory Sfd_Daemon
  imports Sfd_Client Sfd_Server
begin

text \<open>
  The server program: \<open>main.c\<close>. Command-line options, the identity and root directory of the
  process, the status reported to a waiting parent, and the run of the server itself. Messages to the
  system log and the terminal are not part of the model and leave \<open>errno\<close> alone; an argument is the
  list of its bytes without the NUL; the default socket directory, which the build generates, is an
  argument.
\<close>

section \<open>Command-line options\<close>

text \<open>\<open>getopt\<close> with the option string \<open>+s:S:n:t:r:u:g:pd\<close>: the options in order, up to the first argument
  that is not an option. An unknown option and a missing argument end the parse with \<open>?\<close>.\<close>

datatype option_char = Opt_s | Opt_S | Opt_n | Opt_t | Opt_r | Opt_u | Opt_g

datatype parsed = WithArg option_char "byte list" | Opt_p | Opt_d | OptError

definition arg_option :: "byte \<Rightarrow> option_char option" where
  "arg_option c =
     (if c = of_char (CHR ''s'') then Some Opt_s else if c = of_char (CHR ''S'') then Some Opt_S
      else if c = of_char (CHR ''n'') then Some Opt_n else if c = of_char (CHR ''t'') then Some Opt_t
      else if c = of_char (CHR ''r'') then Some Opt_r else if c = of_char (CHR ''u'') then Some Opt_u
      else if c = of_char (CHR ''g'') then Some Opt_g else None)"

function getopt :: "byte list \<Rightarrow> byte list list \<Rightarrow> parsed list" where
  "getopt [] [] = []"
| "getopt [] (a # argv) =
     (if a = cbytes ''--'' then []
      else case a of d # c # cs \<Rightarrow> if d = 45 then getopt (c # cs) argv else [] | _ \<Rightarrow> [])"
| "getopt (c # cs) argv =
     (if c = of_char (CHR ''p'') then Opt_p # getopt cs argv
      else if c = of_char (CHR ''d'') then Opt_d # getopt cs argv
      else case arg_option c of
        None \<Rightarrow> [OptError]
      | Some opt \<Rightarrow>
          if cs \<noteq> [] then WithArg opt cs # getopt [] argv
          else case argv of [] \<Rightarrow> [OptError] | b # argv' \<Rightarrow> WithArg opt b # getopt [] argv')"
  by pat_completeness auto
termination
  by (relation "measure (\<lambda>(cs, argv). length cs + sum_list (map (\<lambda>a. Suc (length a)) argv))") auto

section \<open>Numbers\<close>

definition LONG_MAX :: int where "LONG_MAX = 2 ^ 63 - 1"
definition LONG_MIN :: int where "LONG_MIN = - (2 ^ 63)"

text \<open>\<open>strtol\<close> in base 10: white space, a sign and digits; the flag says that the value was out of range.\<close>

definition is_space :: "byte \<Rightarrow> bool" where
  "is_space c \<longleftrightarrow> c = 32 \<or> (9 \<le> c \<and> c \<le> 13)"

definition is_digit :: "byte \<Rightarrow> bool" where
  "is_digit c \<longleftrightarrow> 48 \<le> c \<and> c \<le> 57"

definition strtol :: "byte list \<Rightarrow> int \<times> bool" where
  "strtol s =
     (let s1 = dropWhile is_space s;
          neg = (s1 \<noteq> [] \<and> hd s1 = 45);
          s2 = (if s1 \<noteq> [] \<and> (hd s1 = 45 \<or> hd s1 = 43) then tl s1 else s1);
          n = foldl (\<lambda>v c. v * 10 + (uint c - 48)) 0 (takeWhile is_digit s2);
          v = (if neg then - n else n)
      in if v > LONG_MAX then (LONG_MAX, True) else if v < LONG_MIN then (LONG_MIN, True) else (v, False))"

definition opt_strtol :: "byte list \<Rightarrow> ('m proc_scheme, int) prog" where
  "opt_strtol s =
     seqP (set_errno 0)
     (let (l, overflow) = strtol s
      in seqP (whenP overflow (set_errno ERANGE))
         (ret (if overflow \<or> l = 0 \<or> l = LONG_MIN \<or> l = LONG_MAX then -1 else l)))"

section \<open>Configuration\<close>

record config =
  c_srvname :: "byte list option"
  c_root_dir :: "byte list option"
  c_sockdir :: "byte list"
  c_uname :: "byte list option"
  c_gname :: "byte list option"
  c_maxfiles :: int
  c_fd_timeout_ms :: int
  c_do_sync :: bool
  c_daemonise :: bool

text \<open>The loop over the options; \<open>None\<close> is the return of the error status on \<open>?\<close>.\<close>

primrec parse_options :: "parsed list \<Rightarrow> config \<Rightarrow> ('m proc_scheme, config option) prog" where
  "parse_options [] cfg = ret (Some cfg)"
| "parse_options (opt # opts) cfg =
     (case opt of
        WithArg oc arg \<Rightarrow>
          (case oc of
             Opt_r \<Rightarrow> parse_options opts (cfg\<lparr>c_root_dir := Some arg\<rparr>)
           | Opt_u \<Rightarrow> parse_options opts (cfg\<lparr>c_uname := Some arg\<rparr>)
           | Opt_g \<Rightarrow> parse_options opts (cfg\<lparr>c_gname := Some arg\<rparr>)
           | Opt_s \<Rightarrow> parse_options opts (cfg\<lparr>c_srvname := Some arg\<rparr>)
           | Opt_S \<Rightarrow> parse_options opts (cfg\<lparr>c_sockdir := arg\<rparr>)
           | Opt_n \<Rightarrow> bindP (opt_strtol arg) (\<lambda>l. parse_options opts (cfg\<lparr>c_maxfiles := l\<rparr>))
           | Opt_t \<Rightarrow> bindP (opt_strtol arg) (\<lambda>l. parse_options opts (cfg\<lparr>c_fd_timeout_ms := l\<rparr>)))
      | Opt_p \<Rightarrow> parse_options opts (cfg\<lparr>c_do_sync := True\<rparr>)
      | Opt_d \<Rightarrow> parse_options opts (cfg\<lparr>c_daemonise := True\<rparr>)
      | OptError \<Rightarrow> ret None)"

definition OPEN_FD_TIMEOUT_MS_MAX :: int where "OPEN_FD_TIMEOUT_MS_MAX = 60 * 60 * 1000"

section \<open>Privileges\<close>

definition chroot_and_drop_privs :: "os \<Rightarrow> byte list \<Rightarrow> uid_t \<Rightarrow> nat \<Rightarrow> ('m proc_scheme, bool) prog" where
  "chroot_and_drop_privs os root_dir new_uid new_gid =
     bindP (syscall os SysGeteuid) (\<lambda>euid.
     bindP (syscall os (SysAdmin SysGetgid)) (\<lambda>gid.
     if new_uid = 0 then seqP (set_errno EPERM) (ret False)
     else if new_gid = 0 then seqP (set_errno EPERM) (ret False)
     else
       bindP (if root_dir \<noteq> cbytes ''/'' then
                (if euid \<noteq> 0 then seqP (set_errno EACCES) (ret False)
                 else bindP (proc_chroot os root_dir) (\<lambda>c.
                      if c = -1 then ret False
                      else bindP (syscall os (SysAdmin (SysChdir (cbytes ''/'')))) (\<lambda>d. ret (d \<noteq> -1))))
              else ret True) (\<lambda>rooted.
       if \<not> rooted then ret False
       else bindP (if int new_gid \<noteq> gid then
                     bindP (syscall os (SysAdmin (SysSetgid new_gid))) (\<lambda>g. ret (g \<noteq> -1))
                   else ret True) (\<lambda>ok.
       if \<not> ok then ret False
       else bindP (syscall os (SysAdmin (SysSetuid new_uid))) (\<lambda>u. ret (u \<noteq> -1))))))"

section \<open>The program\<close>

definition sync_parent :: "os \<Rightarrow> int \<Rightarrow> ('m proc_scheme, bool) prog" where
  "sync_parent os status = bindP (syscall os (SysWrite PROC_SYNCFD (int_bytes status))) (\<lambda>n. ret (n = 4))"

definition EXIT_SUCCESS :: int where "EXIT_SUCCESS = 0"
definition EXIT_FAILURE :: int where "EXIT_FAILURE = 1"

text \<open>The error exit: the parent is told \<open>errno\<close>.\<close>

definition fail1 :: "os \<Rightarrow> config \<Rightarrow> ('m proc_scheme, int) prog" where
  "fail1 os cfg =
     bindP (getP errno) (\<lambda>e.
     seqP (whenP (c_do_sync cfg) (seqP (sync_parent os e) (ret ()))) (ret EXIT_FAILURE))"

text \<open>The user and group to run as, \<open>None\<close> where the name is unknown.\<close>

definition lookup_ids :: "os \<Rightarrow> config \<Rightarrow> ('m proc_scheme, (uid_t \<times> nat) option) prog" where
  "lookup_ids os cfg =
     bindP (syscall os (SysAdmin SysGetuid)) (\<lambda>uid0.
     bindP (syscall os (SysAdmin SysGetgid)) (\<lambda>gid0.
     bindP (case c_uname cfg of None \<Rightarrow> ret (Some uid0)
            | Some n \<Rightarrow> bindP (syscall os (SysAdmin (SysGetpwnam n))) (\<lambda>r. ret (if r = -1 then None else Some r))) (\<lambda>uid.
     case uid of
       None \<Rightarrow> ret None
     | Some uid \<Rightarrow>
         bindP (case c_gname cfg of None \<Rightarrow> ret (Some gid0)
                | Some n \<Rightarrow> bindP (syscall os (SysAdmin (SysGetgrnam n))) (\<lambda>r. ret (if r = -1 then None else Some r))) (\<lambda>gid.
         case gid of None \<Rightarrow> ret None | Some gid \<Rightarrow> ret (Some (nat uid, nat gid))))))"

text \<open>From the request socket on.\<close>

definition serve ::
  "nat \<Rightarrow> os \<Rightarrow> received \<Rightarrow> bool \<Rightarrow> config \<Rightarrow> byte list \<Rightarrow> uid_t \<Rightarrow> nat \<Rightarrow> ('m sproc_scheme, int) prog" where
  "serve fuel os junk mok cfg srvname uid gid =
     bindP (us_serve os mok (c_sockdir cfg) srvname uid gid) (\<lambda>requestfd.
     if requestfd = -1 then fail1 os cfg
     else bindP (if c_do_sync cfg then
                   bindP (sync_parent os 0) (\<lambda>ok.
                   if ok then seqP (close_fd os PROC_SYNCFD) (ret True) else ret False)
                 else ret True) (\<lambda>synced.
     if \<not> synced then seqP (us_stop_serving os mok (c_sockdir cfg) srvname requestfd) (fail1 os cfg)
     else bindP (srv_run fuel os junk requestfd (sint (word_of_int (c_maxfiles cfg) :: 32 word)) (c_fd_timeout_ms cfg)) (\<lambda>success.
     seqP (us_stop_serving os mok (c_sockdir cfg) srvname requestfd)
     (ret (if success then EXIT_SUCCESS else EXIT_FAILURE)))))"

definition main_body ::
  "nat \<Rightarrow> os \<Rightarrow> received \<Rightarrow> bool \<Rightarrow> config \<Rightarrow> ('m sproc_scheme, int) prog" where
  "main_body fuel os junk mok cfg =
     (case (c_root_dir cfg, c_srvname cfg) of
        (Some root_dir, Some srvname) \<Rightarrow>
          if c_maxfiles cfg = 0 then seqP (set_errno EINVAL) (fail1 os cfg)
          else if c_maxfiles cfg = -1 then fail1 os cfg
          else if c_fd_timeout_ms cfg = -1 then fail1 os cfg
          else if c_fd_timeout_ms cfg > OPEN_FD_TIMEOUT_MS_MAX then fail1 os cfg
          else bindP (lookup_ids os cfg) (\<lambda>ids.
          case ids of
            None \<Rightarrow> fail1 os cfg
          | Some (uid, gid) \<Rightarrow>
              bindP (syscall os (SysAdmin SysBlockPipe)) (\<lambda>b.
              if b = -1 then fail1 os cfg
              else bindP (if c_daemonise cfg then proc_daemonise os [] else ret True) (\<lambda>d.
              if \<not> d then fail1 os cfg
              else bindP (chroot_and_drop_privs os root_dir uid gid) (\<lambda>dropped.
              if \<not> dropped then fail1 os cfg
              else serve fuel os junk mok cfg srvname uid gid))))
      | _ \<Rightarrow> seqP (set_errno EINVAL) (fail1 os cfg))"

definition config0 :: "byte list \<Rightarrow> config" where
  "config0 dflt_sockdir =
     \<lparr>c_srvname = None, c_root_dir = None, c_sockdir = dflt_sockdir, c_uname = None, c_gname = None,
      c_maxfiles = 0, c_fd_timeout_ms = 30000, c_do_sync = False, c_daemonise = False\<rparr>"

definition main ::
  "nat \<Rightarrow> os \<Rightarrow> received \<Rightarrow> bool \<Rightarrow> byte list \<Rightarrow> byte list list \<Rightarrow> ('m sproc_scheme, int) prog" where
  "main fuel os junk mok dflt_sockdir args =
     bindP (parse_options (getopt [] args) (config0 dflt_sockdir)) (\<lambda>cfg.
     case cfg of None \<Rightarrow> ret EXIT_FAILURE | Some cfg \<Rightarrow> main_body fuel os junk mok cfg)"

section \<open>Rules\<close>

lemma digit_value:
  assumes "n < 10"
  shows "uint (48 + of_nat n :: byte) = 48 + int n" "is_digit (48 + of_nat n)"
proof -
  have "uint (of_nat n :: byte) = int n" using assms by (simp add: unsigned_of_nat take_bit_nat_eq_self)
  then show *: "uint (48 + of_nat n :: byte) = 48 + int n" using assms by (simp add: uint_word_ariths)
  then show "is_digit (48 + of_nat n)" using assms by (simp add: is_digit_def word_le_def)
qed

lemma digits_ok: "list_all is_digit (digits n) \<and> digits n \<noteq> [] \<and> foldl (\<lambda>v c. v * 10 + (uint c - 48)) 0 (digits n) = int n"
proof (induction n rule: digits.induct)
  case (1 n)
  show ?case
  proof (cases "n < 10")
    case True
    then show ?thesis using digit_value [of n] by (simp add: digits.simps [of n])
  next
    case False
    have "int n = int (n div 10) * 10 + int (n mod 10)" by (metis div_mult_mod_eq of_nat_add of_nat_mult of_nat_numeral)
    with 1 False digit_value [of "n mod 10"] show ?thesis by (simp add: digits.simps [of n])
  qed
qed

lemma strtol_decimal:
  assumes "LONG_MIN \<le> i" and "i \<le> LONG_MAX"
  shows "strtol (decimal i) = (i, False)"
proof -
  have tw: "takeWhile is_digit (digits n) = digits n" for n
    using digits_ok [of n] by (auto simp: takeWhile_eq_all_conv list_all_iff)
  have "\<exists>c cs. digits n = c # cs \<and> is_digit c" for n
    using digits_ok [of n] by (cases "digits n") auto
  then obtain c cs where c: "digits (nat \<bar>i\<bar>) = c # cs" "is_digit c" by blast
  then have sp: "\<not> is_space c" "c \<noteq> 45" "c \<noteq> 43" by (auto simp: is_digit_def is_space_def word_le_def)
  have val: "foldl (\<lambda>v c. v * 10 + (uint c - 48)) 0 (c # cs) = \<bar>i\<bar>" "takeWhile is_digit cs = cs"
    using digits_ok [of "nat \<bar>i\<bar>"] tw [of "nat \<bar>i\<bar>"] c by simp_all
  have "\<not> is_space 45" by (simp add: is_space_def)
  then show ?thesis
    using assms c sp val by (cases "i < 0") (simp_all add: decimal_def strtol_def Let_def del: takeWhile_eq_all_conv)
qed

lemma wp_opt_strtol:
  assumes "strtol a = (l, False)" and "l \<noteq> LONG_MIN" and "l \<noteq> LONG_MAX"
  shows "wp E (opt_strtol a) Q = (\<lambda>s. Q (if l = 0 then -1 else l) (s\<lparr>errno := 0\<rparr>))"
  using assms by (auto simp: opt_strtol_def wp_simps fun_eq_iff)

lemma getopt_exec_args:
  "getopt [] (exec_args srvname root_dir sockdir maxfiles tmo) =
     [WithArg Opt_S (cstr sockdir), WithArg Opt_s (cstr srvname), WithArg Opt_r (cstr root_dir),
      WithArg Opt_n (decimal maxfiles), WithArg Opt_t (decimal tmo), Opt_p]"
  by (simp add: exec_args_def cbytes_def arg_option_def)

definition in_long :: "int \<Rightarrow> bool" where
  "in_long i \<longleftrightarrow> LONG_MIN < i \<and> i < LONG_MAX"

lemma parse_exec_args:
  assumes "in_long maxfiles" and "in_long tmo"
  shows "wp E (parse_options (getopt [] (exec_args srvname root_dir sockdir maxfiles tmo)) (config0 dflt)) Q s =
    Q (Some ((config0 dflt)\<lparr>c_sockdir := cstr sockdir, c_srvname := Some (cstr srvname), c_root_dir := Some (cstr root_dir),
       c_maxfiles := (if maxfiles = 0 then -1 else maxfiles), c_fd_timeout_ms := (if tmo = 0 then -1 else tmo), c_do_sync := True\<rparr>))
      (s\<lparr>errno := 0\<rparr>)"
  using assms by (simp add: getopt_exec_args wp_simps wp_opt_strtol strtol_decimal in_long_def)

section \<open>Properties\<close>

text \<open>C32: The server process is configured as the client asked, but for a limit or a timeout of 0. Whatever the names, the arguments
  \<open>sfd_spawn\<close> passes to the server program are parsed back to the same socket directory, name and root
  directory, with the parent to be told the outcome; and every limit and every timeout other than 0 is
  parsed back to the same number. A 0 becomes \<open>-1\<close>, the value \<open>opt_strtol\<close> gives for no number at all, which the program refuses. The two
  numbers are \<open>int\<close> values in the client, well within the range of \<open>long\<close>.\<close>

theorem spawn_arguments_roundtrip:
  assumes "in_long maxfiles" and "in_long tmo"
  shows "wp never (parse_options (getopt [] (exec_args srvname root_dir sockdir maxfiles tmo)) (config0 dflt)) (\<lambda>c _.
    c = Some \<lparr>c_srvname = Some (cstr srvname), c_root_dir = Some (cstr root_dir), c_sockdir = cstr sockdir,
      c_uname = None, c_gname = None, c_maxfiles = (if maxfiles = 0 then -1 else maxfiles),
      c_fd_timeout_ms = (if tmo = 0 then -1 else tmo), c_do_sync = True, c_daemonise = False\<rparr>) s"
  unfolding parse_exec_args [OF assms] by (simp add: config0_def)

theorem spawn_arguments_roundtrip_witness:
  "wp never (parse_options (getopt [] (exec_args [45, 97, 0] [47, 0] [47, 116, 0] 50 1000)) (config0 [])) (\<lambda>c _.
    \<exists>cfg. c = Some cfg \<and> c_srvname cfg = Some [45, 97] \<and> c_maxfiles cfg = 50) proc0"
  by (rule wp_mono [OF spawn_arguments_roundtrip]) (auto simp: in_long_def LONG_MAX_def LONG_MIN_def cstr_def)

text \<open>The server gives up its privileges before it serves. When \<open>chroot_and_drop_privs\<close> succeeds, the
  new user and group are not root's, every call succeeded, and the calls were, in this order: the
  change of the root directory and into it (unless the root is the one of the system), the change
  of the group where it differs, and last the change of the user.\<close>

theorem privileges_dropped:
  "wp never (chroot_and_drop_privs os root_dir new_uid new_gid) (\<lambda>ok t. if \<not> ok then True
    else new_uid \<noteq> 0 \<and> new_gid \<noteq> 0 \<and> (\<exists>h gid. trace t = trace s @ h \<and> (SysAdmin SysGetgid, gid) \<in> set h \<and>
      -1 \<notin> set (drop 2 (map snd h)) \<and>
      map fst h = [SysGeteuid, SysAdmin SysGetgid] @
        (if root_dir \<noteq> cbytes ''/'' then [SysAdmin (SysChroot root_dir), SysAdmin (SysChdir (cbytes ''/''))] else []) @
        (if int new_gid \<noteq> gid then [SysAdmin (SysSetgid new_gid)] else []) @ [SysAdmin (SysSetuid new_uid)])) s"
  by (auto simp: chroot_and_drop_privs_def proc_chroot_def wp_simps)

text \<open>C40: A spawned server that refuses its arguments tells its parent that it has started. With a limit
  of 0 files the server program exits with the failure status, but the status it has written to the
  pipe is 0, because the number was parsed without an error; \<open>sfd_spawn\<close> takes that for success.\<close>

theorem zero_files_reported_as_success:
  assumes "in_long tmo" and "\<forall>h bs. fst (sys os h (SysWrite PROC_SYNCFD bs)) = int (length bs)"
  shows "wp never (main fuel os junk mok dflt (exec_args srvname root_dir sockdir 0 tmo)) (\<lambda>r t.
    r = EXIT_FAILURE \<and> did s [SysWrite PROC_SYNCFD (int_bytes 0)] t) s"
proof -
  have "in_long 0" by (simp add: in_long_def LONG_MAX_def LONG_MIN_def)
  then show ?thesis
    unfolding main_def wp_bindP parse_exec_args [OF \<open>in_long 0\<close> assms(1)] option.case
    using assms(2) by (simp add: main_body_def fail1_def sync_parent_def wp_simps config0_def did_def)
qed

theorem zero_files_reported_as_success_witness:
  "wp never (main 0 quiet_os \<lparr>rc_buf = [], rc_fds = [], rc_nfds = 0, rc_uid = 0, rc_gid = 0, rc_pid = 0\<rparr> True []
      (exec_args [97, 0] [47, 0] [47, 0] 0 1000)) (\<lambda>r t. r = EXIT_FAILURE)
     \<lparr>errno = 0, trace = [], pipe_c = 0, heap = Map.empty, srv = undefined\<rparr>"
  by (rule wp_mono [OF zero_files_reported_as_success]) (auto simp: in_long_def LONG_MAX_def LONG_MIN_def quiet_os_def)

end
