(* ===== verification/Sfd_Privileges.thy ===== *)
theory Sfd_Privileges
  imports Sfd_Frame Sfd_Daemon
begin

text \<open>
  The order in which the server program (\<open>main.c\<close>) starts: nothing is done for a client, no socket bound
  and no file opened, before the process has become an ordinary user.
\<close>

section \<open>Before the privileges are dropped\<close>

text \<open>Calls that serve clients.\<close>

definition serves :: "syscall \<Rightarrow> bool" where
  "serves c \<longleftrightarrow> (case c of SysBind fd path \<Rightarrow> True | SysRecvmsg fd n \<Rightarrow> True | SysOpen name \<Rightarrow> True | SysEpollCreate \<Rightarrow> True
     | SysSplice a b n \<Rightarrow> True | SysSendfile a b n \<Rightarrow> True | _ \<Rightarrow> False)"

definition idle_since :: "history \<Rightarrow> 'm proc_scheme \<Rightarrow> bool" where
  "idle_since h t \<longleftrightarrow> (\<exists>g. trace t = h @ g \<and> (\<forall>c\<in>set g. \<not> serves (fst c)))"

lemma idle_syscall [stable_intros]: "\<not> serves c \<Longrightarrow> stable (idle_since h) (syscall os c)"
  by (auto simp: stable_def idle_since_def wp_syscall)

lemma idle_errno [stable_intros]: "stable (idle_since h) (set_errno e)"
  by (simp add: stable_def idle_since_def wp_simps)

lemma idle_PRESERVE_ERRNO [stable_intros]: "stable (idle_since h) m \<Longrightarrow> stable (idle_since h) (PRESERVE_ERRNO m)"
  unfolding PRESERVE_ERRNO_def by (intro stable_intros)

lemma idle_close [stable_intros]: "stable (idle_since h) (close_fd os fd)"
  unfolding close_fd_def by (intro stable_intros) (simp add: serves_def)

lemma idle_exit [stable_intros]: "stable P (exitP n)"
  by (simp add: stable_def wp_simps)

lemma idle_daemonise [stable_intros]: "stable (idle_since h) (proc_daemonise os fds)"
proof -
  have "stable (idle_since h) (close_except fds os ex)" for fds ex
    by (induction fds) (auto intro!: stable_intros)
  note close = this
  show ?thesis
    unfolding proc_daemonise_def proc_init_child_def dup_to_open_fd_def by (intro stable_intros close; simp add: serves_def)
qed

lemma idle_main [stable_intros]:
  "stable (idle_since h) (opt_strtol a)" "stable (idle_since h) (parse_options opts cfg)" "stable (idle_since h) (lookup_ids os cfg)"
  "stable (idle_since h) (fail1 os cfg)" "stable (idle_since h) (chroot_and_drop_privs os root_dir uid gid)"
proof -
  show str: "stable (idle_since h) (opt_strtol a)" for a unfolding opt_strtol_def by (intro stable_intros)
  show "stable (idle_since h) (parse_options opts cfg)"
    by (induction opts arbitrary: cfg) (auto intro!: stable_intros str split: parsed.split option_char.split)
  show "stable (idle_since h) (lookup_ids os cfg)"
    unfolding lookup_ids_def by (intro stable_intros; simp add: serves_def)
  show "stable (idle_since h) (fail1 os cfg)"
    unfolding fail1_def sync_parent_def by (intro stable_intros; simp add: serves_def)
  show "stable (idle_since h) (chroot_and_drop_privs os root_dir uid gid)"
    unfolding chroot_and_drop_privs_def proc_chroot_def by (intro stable_intros; simp add: serves_def)
qed

section \<open>After\<close>

definition grown :: "history \<Rightarrow> 'm proc_scheme \<Rightarrow> bool" where
  "grown h t \<longleftrightarrow> (\<exists>g. trace t = h @ g)"

interpretation growing: process_frame "grown h" for h
  by unfold_locales (auto simp: grown_def)

lemma grown_serve: "stable (grown h) (serve fuel os junk mok cfg name uid gid)"
  unfolding serve_def us_serve_def us_stop_serving_def fail1_def sync_parent_def us_socket_def us_set_passcred_option_def copy_sun_path_def
  by (intro stable_intros)

text \<open>Nothing has been served since \<open>h\<close>, or everything since the process became an ordinary user.\<close>

definition unprivileged :: "history \<Rightarrow> 'm proc_scheme \<Rightarrow> bool" where
  "unprivileged h t \<longleftrightarrow> idle_since h t \<or>
     (\<exists>g u n g'. trace t = h @ g @ (SysAdmin (SysSetuid u), n) # g' \<and> u \<noteq> 0 \<and> n \<noteq> -1 \<and> (\<forall>c\<in>set g. \<not> serves (fst c)))"

lemma dropped_setuid:
  "wp anyf (chroot_and_drop_privs os root_dir uid gid) (\<lambda>ok t. ok \<longrightarrow> uid \<noteq> 0 \<and>
     (\<exists>g n. trace t = trace s @ g @ [(SysAdmin (SysSetuid uid), n)] \<and> n \<noteq> -1)) s"
  by (auto simp: chroot_and_drop_privs_def proc_chroot_def wp_simps)

lemma dropped_serve:
  fixes s :: "'m sproc_scheme"
  assumes "idle_since h s"
  shows "wp anyf (bindP (chroot_and_drop_privs os root_dir uid gid) (\<lambda>dropped.
     if \<not> dropped then fail1 os cfg else serve fuel os junk mok cfg name uid gid)) (\<lambda>_. unprivileged h) s"
proof (rule wp_seq_rule [OF wp_conj_strong [OF stableD [OF idle_main(5) assms] dropped_setuid]])
  fix ok and t :: "'m sproc_scheme"
  assume t: "idle_since h t \<and> (ok \<longrightarrow> uid \<noteq> 0 \<and> (\<exists>g n. trace t = trace s @ g @ [(SysAdmin (SysSetuid uid), n)] \<and> n \<noteq> -1))"
  show "wp anyf (if \<not> ok then fail1 os cfg else serve fuel os junk mok cfg name uid gid) (\<lambda>_. unprivileged h) t"
  proof (cases ok)
    case False
    have "wp anyf (fail1 os cfg) (\<lambda>_. idle_since h) t" using t by (intro stableD [OF idle_main(4)]) simp
    then show ?thesis using False by (auto simp: unprivileged_def elim: wp_mono)
  next
    case True
    obtain g0 where "trace s = h @ g0" using assms by (auto simp: idle_since_def)
    with True t obtain g n where g: "uid \<noteq> 0" "trace t = h @ g @ [(SysAdmin (SysSetuid uid), n)]" "n \<noteq> -1"
      by (metis append.assoc)
    then have "\<forall>c\<in>set g. \<not> serves (fst c)" using t by (auto simp: idle_since_def)
    with g have up: "unprivileged h u" if "grown (trace t) u" for u :: "'m sproc_scheme"
      using that unfolding grown_def unprivileged_def by fastforce
    have "wp anyf (serve fuel os junk mok cfg name uid gid) (\<lambda>_. grown (trace t)) t"
      by (rule stableD [OF grown_serve]) (simp add: grown_def)
    then show ?thesis using True up by (auto elim: wp_mono)
  qed
qed

lemma after_idle:
  assumes "stable (idle_since h) m" and "idle_since h s" and "\<And>a t. idle_since h t \<Longrightarrow> wp anyf (f a) Q t"
  shows "wp anyf (bindP m f) Q s"
  by (rule wp_seq_rule [OF stableD [OF assms(1,2)]]) (rule assms(3))

lemma fail1_unprivileged: "idle_since h s \<Longrightarrow> wp anyf (fail1 os cfg) (\<lambda>_. unprivileged h) s"
  by (rule wp_mono [OF stableD [OF idle_main(4), of h s]]) (auto simp: unprivileged_def)

lemma main_body_unprivileged:
  fixes s :: "'m sproc_scheme"
  assumes "idle_since h s"
  shows "wp anyf (main_body fuel os junk mok cfg) (\<lambda>_. unprivileged h) s"
proof -
  have block: "stable (idle_since h) (syscall os (SysAdmin SysBlockPipe))" by (intro stable_intros) (simp add: serves_def)
  have errno: "idle_since h (s\<lparr>errno := e\<rparr>)" for e using assms by (simp add: idle_since_def)
  show ?thesis
    unfolding main_body_def
    by (auto simp: wp_if wp_seqP [of _ "set_errno e" for e] wp_set_errno wp_bindP [of _ "ret a" for a] wp_ret
        split: option.split intro!: fail1_unprivileged after_idle [OF idle_main(3)] after_idle [OF block]
        after_idle [OF idle_daemonise] dropped_serve assms errno)
qed

section \<open>Properties\<close>

text \<open>C34: The server program serves its clients as an ordinary user only. Whatever its arguments, when the
  program has run, the system calls it has made are: first calls that serve no client; then, if there
  are any others at all, a successful change to a user that is not root, and only then the
  request socket is bound, requests are received, files opened and data moved.\<close>

theorem main_unprivileged:
  "wp anyf (main fuel os junk mok dflt args) (\<lambda>_. unprivileged (trace s)) s"
proof -
  have idle: "idle_since (trace s) s" by (simp add: idle_since_def)
  show ?thesis
    unfolding main_def
    by (rule after_idle [OF idle_main(2) idle])
      (auto simp: wp_ret unprivileged_def [of _ "s :: 'm sproc_scheme" for s] split: option.split intro: main_body_unprivileged)
qed

end
