(* ===== verification/Sfd_Program.thy ===== *)
theory Sfd_Program
  imports Sfd_Loop Sfd_Privileges
begin

text \<open>
  The server program from \<open>main\<close> to its exit status (\<open>main.c\<close>), composed of the options, the change of
  user, the request socket and \<open>srv_run\<close>: nothing undefined is done on the way, and a server that has
  run and stopped leaves no socket behind.
\<close>

section \<open>Before the server exists\<close>

definition fresh :: "'m sproc_scheme \<Rightarrow> bool" where
  "fresh s \<longleftrightarrow> heap s = Map.empty \<and> no_resources (trace s)"

lemma fresh_call: "adds_no_resource c \<Longrightarrow> fresh s \<Longrightarrow> fresh (call_state os c s)"
  by (auto simp: fresh_def no_resources_def)

lemma fresh_errno [simp]: "fresh (s\<lparr>errno := e\<rparr>) = fresh s"
  by (simp add: fresh_def)

lemma tolerated_exit [simp]: "tolerated (Exited n)"
  by (simp add: tolerated_def)

text \<open>A part of the program that touches neither the heap nor the poller, and does nothing undefined.\<close>

definition harmless :: "('m sproc_scheme, 'a) prog \<Rightarrow> bool" where
  "harmless m \<longleftrightarrow> (\<forall>s. fresh s \<longrightarrow> wp tolerated m (\<lambda>_. fresh) s)"

lemma harmlessD: "harmless m \<Longrightarrow> fresh s \<Longrightarrow> wp tolerated m (\<lambda>_. fresh) s"
  by (simp add: harmless_def)

named_theorems harmless_intros \<open>rules for parts that touch neither the heap nor the poller\<close>

lemma harmless_basic [harmless_intros]:
  "harmless (ret a)" "harmless (getP f)" "harmless (exitP n)" "harmless (set_errno e)"
  by (simp_all add: harmless_def wp_simps)

lemma harmless_call [harmless_intros]: "adds_no_resource c \<Longrightarrow> harmless (syscall os c)"
  unfolding harmless_def wp_syscall by (blast intro: fresh_call)

lemma harmless_bind [harmless_intros]: "harmless m \<Longrightarrow> (\<And>a. harmless (f a)) \<Longrightarrow> harmless (bindP m f)"
  unfolding harmless_def by (blast intro: wp_seq_rule)

lemma harmless_seq [harmless_intros]: "harmless m \<Longrightarrow> harmless n \<Longrightarrow> harmless (seqP m n)"
  unfolding seqP_def by (rule harmless_bind)

lemma harmless_if [harmless_intros]: "harmless m \<Longrightarrow> harmless n \<Longrightarrow> harmless (if b then m else n)"
  by simp

lemma harmless_when [harmless_intros]: "harmless m \<Longrightarrow> harmless (whenP b m)"
  by (simp add: whenP_def harmless_basic)

lemma harmless_option [harmless_intros]:
  "harmless m \<Longrightarrow> (\<And>a. harmless (f a)) \<Longrightarrow> harmless (case x of None \<Rightarrow> m | Some a \<Rightarrow> f a)"
  by (cases x) auto

lemma harmless_let [harmless_intros]: "harmless (f a) \<Longrightarrow> harmless (let x = a in f x)"
  by simp

lemma harmless_prod [harmless_intros]: "(\<And>a b. harmless (f a b)) \<Longrightarrow> harmless (case x of (a, b) \<Rightarrow> f a b)"
  by (cases x) auto

lemma harmless_close [harmless_intros]: "harmless (close_fd os fd)" "harmless m \<Longrightarrow> harmless (PRESERVE_ERRNO m)"
  unfolding close_fd_def PRESERVE_ERRNO_def by (intro harmless_intros; simp add: adds_no_resource_def)+

lemma harmless_daemonise [harmless_intros]: "harmless (proc_daemonise os fds)"
proof -
  have "harmless (close_except fds os ex)" for fds ex
    by (induction fds) (auto intro!: harmless_intros)
  note close = this
  show ?thesis
    unfolding proc_daemonise_def proc_init_child_def dup_to_open_fd_def
    by (intro harmless_intros close; simp add: adds_no_resource_def)
qed

lemma harmless_main [harmless_intros]:
  "harmless (opt_strtol a)" "harmless (lookup_ids os cfg)" "harmless (sync_parent os e)" "harmless (fail1 os cfg)"
  "harmless (chroot_and_drop_privs os root_dir uid gid)"
proof -
  show sync: "harmless (sync_parent os e)" for e
    unfolding sync_parent_def by (intro harmless_intros; simp add: adds_no_resource_def)
  show "harmless (opt_strtol a)" unfolding opt_strtol_def by (intro harmless_intros)
  show "harmless (lookup_ids os cfg)" unfolding lookup_ids_def by (intro harmless_intros; simp add: adds_no_resource_def)
  show "harmless (fail1 os cfg)" unfolding fail1_def by (intro harmless_intros sync)
  show "harmless (chroot_and_drop_privs os root_dir uid gid)"
    unfolding chroot_and_drop_privs_def proc_chroot_def by (intro harmless_intros; simp add: adds_no_resource_def)
qed

section \<open>The names of the command line\<close>

fun args_of :: "option_char \<Rightarrow> parsed list \<Rightarrow> byte list list" where
  "args_of oc [] = []"
| "args_of oc (WithArg oc' a # opts) = (if oc' = oc then a # args_of oc opts else args_of oc opts)"
| "args_of oc (_ # opts) = args_of oc opts"

text \<open>Every name of a server and directory of sockets the options may select leave room for the slash
  between them, which \<open>us_make_sockpath\<close> does not count.\<close>

definition SOCKNAMES_MAX :: nat where "SOCKNAMES_MAX = SUN_PATH_MAX - length (SFD_PREFIX @ SOCKEXT) - 1"

definition short_names :: "config \<Rightarrow> parsed list \<Rightarrow> bool" where
  "short_names cfg opts \<longleftrightarrow>
     (\<forall>dir\<in>set (c_sockdir cfg # args_of Opt_S opts).
      \<forall>name\<in>set ((case c_srvname cfg of None \<Rightarrow> [] | Some n \<Rightarrow> [n]) @ args_of Opt_s opts).
        strlen dir + strlen name < SOCKNAMES_MAX)"

lemma parse_harmless:
  assumes "short_names cfg opts" and "fresh s"
  shows "wp tolerated (parse_options opts cfg) (\<lambda>c t. fresh t \<and> (case c of None \<Rightarrow> True | Some cfg \<Rightarrow> short_names cfg [])) s"
  using assms
proof (induction opts arbitrary: cfg s)
  case (Cons opt opts)
  have num: "wp tolerated (bindP (opt_strtol a) (\<lambda>l. parse_options opts (f l)))
      (\<lambda>c t. fresh t \<and> (case c of None \<Rightarrow> True | Some cfg \<Rightarrow> short_names cfg [])) s"
    if "\<And>l. short_names (f l) opts" for a f
    by (rule wp_seq_rule [OF harmlessD [OF harmless_main(1) Cons.prems(2)]]) (rule Cons.IH [OF that])
  show ?case
  proof (cases opt)
    case (WithArg oc arg)
    then show ?thesis
      using Cons.prems by (cases oc) (auto intro!: Cons.IH num simp: short_names_def)
  qed (use Cons in \<open>auto intro!: Cons.IH simp: short_names_def wp_ret\<close>)
qed (simp add: wp_ret)

lemma short_path:
  assumes "us_make_sockpath mok dir name = Inr path" and "strlen dir + strlen name < SOCKNAMES_MAX"
  shows "length path \<le> SUN_PATH_MAX"
  using assms by (auto simp: sockpath_parts strlen_def sockpath_consts SOCKNAMES_MAX_def split: if_splits)

section \<open>Serving\<close>

lemma harmless_us_serve:
  assumes "strlen dir + strlen name < SOCKNAMES_MAX"
  shows "harmless (us_serve os mok dir name uid gid)"
proof -
  have "harmless (copy_sun_path path)" if "us_make_sockpath mok dir name = Inr path" for path
    unfolding copy_sun_path_def using short_path [OF that assms] by (simp add: harmless_basic)
  then show ?thesis
    unfolding us_serve_def us_socket_def us_set_passcred_option_def Let_def
    by (cases "us_make_sockpath mok dir name") (auto intro!: harmless_intros simp: adds_no_resource_def)
qed

lemma stop_serving_shut: "shut_down s \<Longrightarrow> wp E (us_stop_serving os mok dir name fd) (\<lambda>_. shut_down) s"
  by (auto simp: us_stop_serving_def wp_simps shut_down_def split: sum.split)

lemma fresh_shut: "harmless m \<Longrightarrow> fresh s \<Longrightarrow> wp tolerated m (\<lambda>_. shut_down) s"
  by (rule wp_mono [OF harmlessD]) (auto simp: fresh_def shut_down_def)

lemma run_any_limit:
  fixes s :: sproc
  assumes "benign os sh" and "fresh s" and "length (rc_fds junk) = PROT_MAXFDS"
  shows "wp tolerated (srv_run fuel os junk rfd (sint (w :: 32 word)) tmo) (\<lambda>_. shut_down) s"
proof (cases "0 < sint w")
  case True
  have "sint w < 2 ^ 31" using sint_lt [of w] by simp
  with True assms show ?thesis by (intro srv_run_safe [OF assms(1)]) (auto simp: fresh_def)
next
  case False
  then show ?thesis by (simp add: srv_run_def srv_new_def wp_bindP wp_seqP wp_assertP)
qed

lemma after_harmless:
  assumes "harmless m" and "fresh s" and "\<And>a t. fresh t \<Longrightarrow> wp tolerated (f a) Q t"
  shows "wp tolerated (bindP m f) Q s"
  by (rule wp_seq_rule [OF harmlessD [OF assms(1,2)]]) (rule assms(3))

lemma fail1_shut: "fresh s \<Longrightarrow> wp tolerated (fail1 os cfg) (\<lambda>_. shut_down) s"
  by (intro fresh_shut harmless_main)

lemma serve_shuts:
  fixes s :: sproc
  assumes "benign os sh" and "length (rc_fds junk) = PROT_MAXFDS" and "fresh s"
    and "strlen (c_sockdir cfg) + strlen name < SOCKNAMES_MAX"
  shows "wp tolerated (serve fuel os junk mok cfg name uid gid) (\<lambda>_. shut_down) s"
proof -
  have run: "wp tolerated (bindP (srv_run fuel os junk fd (sint (w :: 32 word)) tmo) (\<lambda>ok.
      seqP (us_stop_serving os mok dir name fd) (ret (r ok)))) (\<lambda>_. shut_down) t"
    if "fresh t" for t :: sproc and fd w tmo dir and r :: "bool \<Rightarrow> int"
    by (rule wp_seq_rule [OF run_any_limit [OF assms(1) that assms(2)]]) (simp add: wp_seqP wp_ret stop_serving_shut)
  have stop: "harmless (seqP (us_stop_serving os mok dir name fd) (fail1 os cfg))" for dir fd
    unfolding us_stop_serving_def
    by (cases "us_make_sockpath mok dir name") (auto intro!: harmless_intros simp: adds_no_resource_def)
  have sync: "harmless (if c_do_sync cfg then bindP (sync_parent os 0) (\<lambda>ok.
      if ok then seqP (close_fd os PROC_SYNCFD) (ret True) else ret False) else ret True)"
    by (intro harmless_intros)
  have rest: "wp tolerated (bindP (if c_do_sync cfg then bindP (sync_parent os 0) (\<lambda>ok.
        if ok then seqP (close_fd os PROC_SYNCFD) (ret True) else ret False) else ret True) (\<lambda>synced.
      if \<not> synced then seqP (us_stop_serving os mok (c_sockdir cfg) name fd) (fail1 os cfg)
      else bindP (srv_run fuel os junk fd (sint (w :: 32 word)) tmo) (\<lambda>ok.
        seqP (us_stop_serving os mok (c_sockdir cfg) name fd) (ret (r ok))))) (\<lambda>_. shut_down) t"
    if "fresh t" for t :: sproc and fd w tmo and r :: "bool \<Rightarrow> int"
    by (rule after_harmless [OF sync that]) (simp add: fresh_shut [OF stop] run)
  show ?thesis
    unfolding serve_def
    by (rule after_harmless [OF harmless_us_serve [OF assms(4)] assms(3)]) (simp add: fail1_shut rest)
qed

lemma main_body_shuts:
  fixes s :: sproc
  assumes "benign os sh" and "length (rc_fds junk) = PROT_MAXFDS" and "fresh s" and "short_names cfg []"
  shows "wp tolerated (main_body fuel os junk mok cfg) (\<lambda>_. shut_down) s"
proof -
  have block: "harmless (syscall os (SysAdmin SysBlockPipe))" by (intro harmless_intros) (simp add: adds_no_resource_def)
  have serve: "wp tolerated (serve fuel os junk mok cfg name uid gid) (\<lambda>_. shut_down) t"
    if "c_srvname cfg = Some name" "fresh t" for t :: sproc and name uid gid
    using assms(4) that by (intro serve_shuts [OF assms(1,2)]) (simp_all add: short_names_def)
  show ?thesis
    unfolding main_body_def
    by (auto simp: wp_if wp_seqP [of _ "set_errno e" for e] wp_set_errno split: option.split
        intro!: fail1_shut serve after_harmless [OF harmless_main(2)] after_harmless [OF block] after_harmless [OF harmless_daemonise]
          after_harmless [OF harmless_basic(1)] after_harmless [OF harmless_main(5)] assms(3))
qed

section \<open>The request socket\<close>

text \<open>Since \<open>h\<close> a socket has been bound, and the last two calls closed it and removed its name.\<close>

definition socket_removed :: "history \<Rightarrow> 'm proc_scheme \<Rightarrow> bool" where
  "socket_removed h t \<longleftrightarrow> (\<exists>fd path g m g' a b. trace t = h @ g @ (SysBind fd path, m) # g' @ [(SysClose fd, a), (SysUnlink path, b)] \<and> m \<noteq> -1)"

definition socket_bound :: "history \<Rightarrow> fd \<Rightarrow> byte list \<Rightarrow> 'm proc_scheme \<Rightarrow> bool" where
  "socket_bound h fd path t \<longleftrightarrow> (\<exists>g m. trace t = h @ g \<and> (SysBind fd path, m) \<in> set g \<and> m \<noteq> -1)"

interpretation binding: process_frame "socket_bound h fd path" for h fd path
  by unfold_locales (auto simp: socket_bound_def)

lemma us_serve_binds:
  assumes "grown h s"
  shows "wp anyf (us_serve os mok dir name uid gid) (\<lambda>fd t. fd = -1 \<or>
    (\<exists>path. us_make_sockpath mok dir name = Inr path \<and> socket_bound h fd path t)) s"
  using assms
  by (auto simp: us_serve_def us_socket_def us_set_passcred_option_def copy_sun_path_def wp_simps Let_def socket_bound_def grown_def split: sum.splits)

lemma stop_serving_removes:
  assumes "socket_bound h fd path s" and "us_make_sockpath mok dir name = Inr path"
  shows "wp E (us_stop_serving os mok dir name fd) (\<lambda>_. socket_removed h) s"
proof -
  obtain g m where "trace s = h @ g" "(SysBind fd path, m) \<in> set g" "m \<noteq> -1" using assms(1) by (auto simp: socket_bound_def)
  then obtain g1 g2 where g: "trace s = h @ g1 @ (SysBind fd path, m) # g2" "m \<noteq> -1" by (metis split_list)
  then have "socket_removed h t" if "trace t = trace s @ [(SysClose fd, a), (SysUnlink path, b)]" for a b and t :: "'a proc_scheme"
    using that unfolding socket_removed_def by (metis append.assoc append_Cons)
  then show ?thesis using assms(2) by (simp add: us_stop_serving_def wp_simps)
qed

lemma fail1_fails: "wp E (fail1 os cfg) (\<lambda>r t. r = EXIT_SUCCESS \<longrightarrow> Q t) s"
  by (simp add: fail1_def sync_parent_def wp_simps EXIT_SUCCESS_def EXIT_FAILURE_def)

lemma serve_removes:
  fixes s :: "'m sproc_scheme"
  assumes "grown h s"
  shows "wp anyf (serve fuel os junk mok cfg name uid gid) (\<lambda>r t. r = EXIT_SUCCESS \<longrightarrow> socket_removed h t) s"
  unfolding serve_def
proof (rule wp_seq_rule [OF us_serve_binds [OF assms]])
  fix fd and t :: "'m sproc_scheme"
  assume t: "fd = -1 \<or> (\<exists>path. us_make_sockpath mok (c_sockdir cfg) name = Inr path \<and> socket_bound h fd path t)"
  have stop: "wp anyf (seqP (us_stop_serving os mok (c_sockdir cfg) name fd) (fail1 os cfg))
      (\<lambda>r t. r = EXIT_SUCCESS \<longrightarrow> socket_removed h t) u" for u :: "'m sproc_scheme"
    unfolding wp_seqP by (rule wp_mono [OF wp_any]) (simp add: fail1_fails)
  show "wp anyf (if fd = -1 then fail1 os cfg else bindP (if c_do_sync cfg then bindP (sync_parent os 0) (\<lambda>ok.
        if ok then seqP (close_fd os PROC_SYNCFD) (ret True) else ret False) else ret True) (\<lambda>synced.
      if \<not> synced then seqP (us_stop_serving os mok (c_sockdir cfg) name fd) (fail1 os cfg)
      else bindP (srv_run fuel os junk fd (sint (word_of_int (c_maxfiles cfg) :: 32 word)) (c_fd_timeout_ms cfg)) (\<lambda>success.
        seqP (us_stop_serving os mok (c_sockdir cfg) name fd) (ret (if success then EXIT_SUCCESS else EXIT_FAILURE)))))
      (\<lambda>r t. r = EXIT_SUCCESS \<longrightarrow> socket_removed h t) t"
  proof (cases "fd = -1")
    case False
    with t obtain path where path: "us_make_sockpath mok (c_sockdir cfg) name = Inr path" "socket_bound h fd path t" by blast
    have sync: "stable (socket_bound h fd path) (if c_do_sync cfg then bindP (sync_parent os 0) (\<lambda>ok.
        if ok then seqP (close_fd os PROC_SYNCFD) (ret True) else ret False) else ret True :: ('m sproc_scheme, bool) prog)"
      unfolding sync_parent_def by (intro stable_intros)
    have run: "stable (socket_bound h fd path) (srv_run fuel os junk fd n tmo :: ('m sproc_scheme, bool) prog)" for n tmo
      by (intro stable_intros)
    have "wp anyf (bindP (srv_run fuel os junk fd n tmo) (\<lambda>success. seqP (us_stop_serving os mok (c_sockdir cfg) name fd) (ret (r success))))
        (\<lambda>r t. r = EXIT_SUCCESS \<longrightarrow> socket_removed h t) u" if "socket_bound h fd path u" for u :: "'m sproc_scheme" and n tmo and r :: "bool \<Rightarrow> int"
      by (rule wp_seq_rule [OF stableD [OF run that]])
        (auto simp: wp_seqP wp_ret intro: wp_mono [OF stop_serving_removes [OF _ path(1)]])
    with stop show ?thesis
      unfolding if_not_P [OF False] by (intro wp_seq_rule [OF stableD [OF sync path(2)]]) simp
  qed (simp add: fail1_fails)
qed

lemma main_body_removes:
  fixes s :: "'m sproc_scheme"
  assumes "idle_since h s"
  shows "wp anyf (main_body fuel os junk mok cfg) (\<lambda>r t. r = EXIT_SUCCESS \<longrightarrow> socket_removed h t) s"
proof -
  have block: "stable (idle_since h) (syscall os (SysAdmin SysBlockPipe))" by (intro stable_intros) (simp add: serves_def)
  have grown: "grown h t" if "idle_since h t" for t :: "'m sproc_scheme" using that by (auto simp: idle_since_def grown_def)
  show ?thesis
    unfolding main_body_def
    by (auto simp: wp_if wp_seqP [of _ "set_errno e" for e] wp_set_errno split: option.split
        intro!: fail1_fails after_idle [OF idle_main(3) assms] after_idle [OF block] after_idle [OF idle_daemonise]
          after_idle [OF stable_basic(1)] after_idle [OF idle_main(5)] serve_removes grown)
qed

section \<open>Properties\<close>

text \<open>C4: The server program does nothing undefined, from \<open>main\<close> to its exit. Whatever its arguments, for any
  number of turns, any requests of any clients and any answers of the kernel, in a benign
  environment, it reads no freed memory, writes past no array and frees nothing twice; and when it
  returns, every transfer and every timer has been freed. The names on the command line are short
  enough for the slash that is not counted; memory is available, the poller reports registered
  descriptors, and the two situations the code does not survive do not arise: a \<open>SEND_OPEN\<close> for a transfer
  that is running and an error on the channel of a transfer in the deferred list. (The one undefined
  operation that is tolerated is that of memory exhaustion in \<open>send_terminal_resp\<close>.)\<close>

theorem main_safe:
  fixes s :: sproc
  assumes "benign os sh" and "short_names (config0 dflt) (getopt [] args)" and "heap s = Map.empty" and "no_resources (trace s)"
    and "length (rc_fds junk) = PROT_MAXFDS"
  shows "wp tolerated (main fuel os junk mok dflt args) (\<lambda>_. shut_down) s"
proof -
  have "fresh s" using assms(3,4) by (simp add: fresh_def)
  from parse_harmless [OF assms(2) this] show ?thesis
    unfolding main_def
    by (rule wp_seq_rule)
      (auto simp: wp_ret fresh_def [of "s :: sproc" for s] shut_down_def [of "s :: sproc" for s] split: option.splits
        intro!: main_body_shuts [OF assms(1,5)])
qed

theorem main_safe_witness:
  "wp tolerated (main 7 loop_os no_datagram True [47] (exec_args [97, 0] [47, 0] [47, 116, 0] 50 1000)) (\<lambda>_. shut_down)
     ((example_state NONE)\<lparr>heap := Map.empty, trace := []\<rparr>)"
  by (rule main_safe [OF loop_os_benign])
    (simp_all add: getopt_exec_args short_names_def config0_def SOCKNAMES_MAX_def sockpath_consts strlen_def cstr_def
      no_resources_def no_datagram_def PROT_MAXFDS_def)

text \<open>C35: A server that has served leaves no socket behind. When \<open>main\<close> returns \<open>EXIT_SUCCESS\<close>, a socket has been
  bound to a name, and the last two things the program did are to close that socket and to remove
  that very name, so that the next server of this name can bind it.\<close>

theorem main_removes_socket:
  "wp anyf (main fuel os junk mok dflt args) (\<lambda>r t. if r = EXIT_SUCCESS
     then \<exists>fd path g m g' a b. trace t = trace s @ g @ (SysBind fd path, m) # g' @ [(SysClose fd, a), (SysUnlink path, b)] \<and> m \<noteq> -1
     else True) s"
proof -
  have idle: "idle_since (trace s) s" by (simp add: idle_since_def)
  have "wp anyf (main fuel os junk mok dflt args) (\<lambda>r t. r = EXIT_SUCCESS \<longrightarrow> socket_removed (trace s) t) s"
    unfolding main_def
    by (rule after_idle [OF idle_main(2) idle])
      (auto simp: wp_ret EXIT_SUCCESS_def EXIT_FAILURE_def split: option.split intro: main_body_removes [unfolded EXIT_SUCCESS_def])
  then show ?thesis by (rule wp_mono) (auto simp: socket_removed_def)
qed

text \<open>A failure between the bind and the end of \<open>us_serve\<close> leaves the name behind: the socket is closed and its
  name is not removed, so the next server cannot bind it.\<close>

theorem us_serve_leaves_name:
  assumes "us_make_sockpath mok dir name = Inr path" and "length path \<le> SUN_PATH_MAX"
    and "\<forall>h. fst (sys os h SysSocket) = fd \<and> fst (sys os h (SysSetsockopt fd SO_PASSCRED)) = 0 \<and> fst (sys os h (SysBind fd path)) = 0 \<and>
      fst (sys os h (SysChown path uid gid)) = -1" and "fd \<noteq> -1"
  shows "wp never (us_serve os mok dir name uid gid) (\<lambda>r t. r = -1 \<and>
    did s [SysSocket, SysSetsockopt fd SO_PASSCRED, SysBind fd path, SysChown path uid gid, SysClose fd] t) s"
  using assms by (simp add: us_serve_def us_socket_def us_set_passcred_option_def copy_sun_path_def wp_simps did_def)

end
