(* ===== verification/Sfd_Capacity.thy ===== *)
theory Sfd_Capacity
  imports Sfd_File_IO
begin

text \<open>
  The capacity of a pipe (\<open>pipe_capacity\<close> of \<open>impl/util.c\<close>), which is the share of a transfer in one turn
  of the server. It is measured once, by filling a pipe until it refuses a write. Shown: on a kernel
  whose pipes hold a bounded number of bytes the measurement ends, within the fuel of the model, with
  the number of bytes the pipe has taken, and leaves no descriptor open.
\<close>

text \<open>The bytes written to a descriptor.\<close>

fun taken :: "fd \<Rightarrow> history \<Rightarrow> nat" where
  "taken fd [] = 0"
| "taken fd ((SysWrite fd' bs, r) # h) = (if fd' = fd then nat r else 0) + taken fd h"
| "taken fd (c # h) = taken fd h"

definition only_writes :: "fd \<Rightarrow> history \<Rightarrow> bool" where
  "only_writes fd h \<longleftrightarrow> (\<forall>c\<in>set h. \<exists>bs. fst c = SysWrite fd bs)"

lemma taken_append [simp]: "taken fd (h @ g) = taken fd h + taken fd g"
  by (induction fd h rule: taken.induct) auto

lemma only_writes_append [simp]: "only_writes fd (h @ g) \<longleftrightarrow> only_writes fd h \<and> only_writes fd g"
  by (auto simp: only_writes_def)

lemma only_writes_single [simp]: "only_writes fd [(SysWrite fd bs, r)]"
  by (simp add: only_writes_def)

text \<open>What \<open>pipe(7)\<close> says of a non-blocking pipe that nobody reads: an empty pipe takes some bytes, a
  write moves at most what is left of the capacity \<open>cap\<close>, which is an \<open>int\<close>, and a write
  that cannot move any fails with \<open>EAGAIN\<close>.\<close>

definition pipe_holds :: "os \<Rightarrow> nat \<Rightarrow> bool" where
  "pipe_holds os cap \<longleftrightarrow> cap < 2 ^ 31 \<and>
     (\<forall>h r g bs rd wr. os_pipe os h = (rd, wr) \<and> r \<noteq> -1 \<and> only_writes wr g \<and> bs \<noteq> [] \<longrightarrow>
        (case sys os (h @ (SysPipe O_NONBLOCK, r) # g) (SysWrite wr bs) of (n, e) \<Rightarrow>
           n = -1 \<and> e = EAGAIN \<and> 0 < taken wr g \<or> 0 < n \<and> taken wr g + nat n \<le> cap))"

text \<open>The page size is a positive number or unknown.\<close>

definition page_ok :: "os \<Rightarrow> bool" where
  "page_ok os \<longleftrightarrow> (\<forall>h. fst (sys os h SysPageSize) = -1 \<or> 0 < fst (sys os h SysPageSize))"

lemma pipe_holdsD:
  assumes "pipe_holds os cap" and "os_pipe os h = (rd, wr)" and "r \<noteq> -1" and "only_writes wr g" and "bs \<noteq> []"
    and "sys os (h @ (SysPipe O_NONBLOCK, r) # g) (SysWrite wr bs) = (n, e)"
  shows "n = -1 \<and> e = EAGAIN \<and> 0 < taken wr g \<or> 0 < n \<and> taken wr g + nat n \<le> cap"
  using assms(1) [unfolded pipe_holds_def, THEN conjunct2, THEN spec, of h, THEN spec, of r, THEN spec, of g,
    THEN spec, of bs, THEN spec, of rd, THEN spec, of wr] assms(2-6) by simp

lemma pipe_c_call [simp]: "pipe_c (call_state os c s) = pipe_c s"
  by (simp add: call_state_def)

lemma fill_pipe_counts:
  fixes s :: "'m uproc_scheme"
  assumes "pipe_holds os cap" and "os_pipe os h = (rd, wr)" and "r \<noteq> -1" and "0 < k"
    and "trace s = h @ (SysPipe O_NONBLOCK, r) # g" and "only_writes wr g" and "taken wr g \<le> cap"
    and "unat (pipe_c s) = taken wr g" and "cap - taken wr g < fuel"
  shows "wp never (fill_pipe fuel os wr k) (\<lambda>_ t. \<exists>g'. trace t = h @ (SysPipe O_NONBLOCK, r) # g' \<and> only_writes wr g' \<and>
     unat (pipe_c t) = taken wr g' \<and> 0 < taken wr g' \<and> taken wr g' \<le> cap \<and> errno t = EAGAIN) s"
  using assms(5-)
proof (induction fuel arbitrary: s g)
  case (Suc fuel)
  let ?c = "SysWrite wr (replicate k 0)"
  obtain n e where n: "sys os (trace s) ?c = (n, e)" by fastforce
  then have ne: "n = -1 \<and> e = EAGAIN \<and> 0 < taken wr g \<or> 0 < n \<and> taken wr g + nat n \<le> cap"
    using pipe_holdsD [OF assms(1-3) Suc.prems(2), of "replicate k 0" n e] assms(4) Suc.prems(1) by simp
  have word: "unat (pipe_c s + word_of_int n) = taken wr (g @ [(?c, n)])" if "0 < n" "taken wr g + nat n \<le> cap"
  proof -
    have b: "taken wr g + nat n < 2 ^ 64" using that assms(1) by (simp add: pipe_holds_def)
    then have "nat n < 2 ^ 64" by simp
    then have "n mod 2 ^ 64 = n" using that(1) by (simp add: nat_less_iff)
    then have "unat (word_of_int n :: size_t) = nat n" by (simp add: unat_eq_nat_uint uint_word_of_int)
    with b Suc.prems(4) show ?thesis by (simp add: unat_word_ariths)
  qed
  show ?case
    using ne
  proof (elim disjE conjE)
    assume "n = -1" "e = EAGAIN" "0 < taken wr g"
    then show ?thesis
      using n Suc.prems
      by (subst fill_pipe.simps) (auto simp: wp_simps call_state_def intro!: exI [of _ "g @ [(?c, -1)]"])
  next
    assume pos: "0 < n" "taken wr g + nat n \<le> cap"
    let ?s = "(call_state os ?c s)\<lparr>pipe_c := pipe_c s + word_of_int n\<rparr>"
    have "wp never (fill_pipe fuel os wr k) (\<lambda>_ t. \<exists>g'. trace t = h @ (SysPipe O_NONBLOCK, r) # g' \<and> only_writes wr g' \<and>
       unat (pipe_c t) = taken wr g' \<and> 0 < taken wr g' \<and> taken wr g' \<le> cap \<and> errno t = EAGAIN) ?s"
      by (rule Suc.IH [of _ "g @ [(?c, n)]"]) (use Suc.prems n pos word [OF pos] in auto)
    then show ?thesis
      using n pos by (subst fill_pipe.simps) (simp add: wp_simps)
  qed
qed simp

text \<open>The outcome of a measurement: the pipe has been filled and both ends closed, or there was none.\<close>

definition measured :: "os \<Rightarrow> nat \<Rightarrow> 'm uproc_scheme \<Rightarrow> size_t \<Rightarrow> 'm uproc_scheme \<Rightarrow> bool" where
  "measured os cap s c t \<longleftrightarrow> (\<exists>pre r g rd wr a b.
     trace t = trace s @ pre @ (SysPipe O_NONBLOCK, r) # g @ [(SysClose rd, a), (SysClose wr, b)] \<and>
     (\<exists>n. map fst pre = [SysPageSize, SysMalloc n]) \<and> os_pipe os (trace s @ pre) = (rd, wr) \<and> only_writes wr g \<and>
     unat c = taken wr g \<and> 0 < unat c \<and> unat c \<le> cap)"

definition unmeasured :: "'m uproc_scheme \<Rightarrow> 'm uproc_scheme \<Rightarrow> bool" where
  "unmeasured s t \<longleftrightarrow> (\<exists>n. calls_since s t = [SysPageSize] \<or> calls_since s t = [SysPageSize, SysMalloc n] \<or>
     calls_since s t = [SysPageSize, SysMalloc n, SysPipe O_NONBLOCK] \<and> snd (last (trace t)) = -1)"

text \<open>The first call, up to the loop, and from the end of the loop.\<close>

definition after_closes :: "os \<Rightarrow> fd \<Rightarrow> fd \<Rightarrow> 'm uproc_scheme \<Rightarrow> 'm uproc_scheme" where
  "after_closes os rd wr t =
     (call_state os (SysClose wr) ((call_state os (SysClose rd) t)\<lparr>errno := errno t\<rparr>))\<lparr>errno := errno t\<rparr>"

abbreviation page_state :: "os \<Rightarrow> nat \<Rightarrow> 'm uproc_scheme \<Rightarrow> 'm uproc_scheme" where
  "page_state os k s \<equiv> call_state os (SysMalloc k) (call_state os SysPageSize s)"

lemma first_capacity:
  fixes s :: "'m uproc_scheme"
  assumes "page_ok os" and "pipe_c s = 0" and "k = nat (fst (sys os (trace s) SysPageSize))"
    and "os_pipe os (trace (page_state os k s)) = (rd, wr)"
  shows "wp never (pipe_capacity os) Q s = (if fst (sys os (trace s) SysPageSize) = -1 then Q 0 (call_state os SysPageSize s)
      else if fst (sys os (trace (call_state os SysPageSize s)) (SysMalloc k)) \<le> 0 then Q 0 (page_state os k s)
      else if fst (sys os (trace (page_state os k s)) (SysPipe O_NONBLOCK)) = -1
        then Q 0 (call_state os (SysPipe O_NONBLOCK) (page_state os k s))
      else wp never (fill_pipe FILL_FUEL os wr k) (\<lambda>_ t. errno t \<in> {EWOULDBLOCK, EAGAIN} \<and> pipe_c t \<noteq> 0 \<and>
        Q (pipe_c t) (after_closes os rd wr t)) (call_state os (SysPipe O_NONBLOCK) (page_state os k s)))"
  unfolding pipe_capacity_def sfd_pipe_def after_closes_def using assms
  by (auto simp: wp_simps page_ok_def elim: wp_mono)

lemma filled_measured:
  fixes s t :: "'m uproc_scheme"
  assumes "trace t = trace (call_state os (SysPipe O_NONBLOCK) (page_state os k s)) @ g" and "only_writes wr g"
    and "unat (pipe_c t) = taken wr g" and "0 < taken wr g" and "taken wr g \<le> cap"
    and "os_pipe os (trace (page_state os k s)) = (rd, wr)"
  shows "measured os cap s (pipe_c t) (after_closes os rd wr t)"
proof -
  obtain pre where pre: "trace (page_state os k s) = trace s @ pre" "map fst pre = [SysPageSize, SysMalloc k]" by simp
  have "\<exists>r a b. trace (after_closes os rd wr t) =
      trace s @ pre @ (SysPipe O_NONBLOCK, r) # g @ [(SysClose rd, a), (SysClose wr, b)]"
    using assms(1) pre(1) by (simp add: after_closes_def)
  with pre assms show ?thesis unfolding measured_def by metis
qed

lemma capacity_measured:
  fixes s :: "'m uproc_scheme"
  assumes "pipe_holds os cap" and "page_ok os" and "pipe_c s = 0"
  shows "wp never (pipe_capacity os) (\<lambda>c t. pipe_c t = c \<and>
    (c = 0 \<and> unmeasured s t \<or> measured os cap s c t \<and> wp never (pipe_capacity os) (\<lambda>c' t'. c' = c \<and> t' = t) t)) s"
    (is "wp _ _ ?Q _")
proof -
  obtain k where k: "k = nat (fst (sys os (trace s) SysPageSize))" by blast
  let ?s = "page_state os k s" and ?u = "call_state os (SysPipe O_NONBLOCK) (page_state os k s)"
  obtain rd wr where pipe: "os_pipe os (trace ?s) = (rd, wr)" by fastforce
  have loop: "wp never (fill_pipe FILL_FUEL os wr k) (\<lambda>_ t. errno t \<in> {EWOULDBLOCK, EAGAIN} \<and> pipe_c t \<noteq> 0 \<and>
        ?Q (pipe_c t) (after_closes os rd wr t)) ?u"
    if "fst (sys os (trace s) SysPageSize) \<noteq> -1" "fst (sys os (trace ?s) (SysPipe O_NONBLOCK)) \<noteq> -1"
  proof (rule wp_mono [OF fill_pipe_counts [OF assms(1) pipe that(2), of _ _ "[]"]])
    show "0 < k" using that(1) assms(2) k by (auto simp: page_ok_def)
    show "unat (pipe_c ?u) = taken wr []" "only_writes wr []" using assms(3) by (simp_all add: only_writes_def)
    show "cap - taken wr [] < FILL_FUEL" using assms(1) by (simp add: pipe_holds_def FILL_FUEL_def)
    fix t :: "'m uproc_scheme"
    assume "\<exists>g. trace t = trace ?s @ (SysPipe O_NONBLOCK, fst (sys os (trace ?s) (SysPipe O_NONBLOCK))) # g \<and>
      only_writes wr g \<and> unat (pipe_c t) = taken wr g \<and> 0 < taken wr g \<and> taken wr g \<le> cap \<and> errno t = EAGAIN"
    then obtain g where g: "trace t = trace ?u @ g" "only_writes wr g" "unat (pipe_c t) = taken wr g" "0 < taken wr g"
      "taken wr g \<le> cap" "errno t = EAGAIN" by auto
    then have "pipe_c t \<noteq> 0" by auto
    then show "errno t \<in> {EWOULDBLOCK, EAGAIN} \<and> pipe_c t \<noteq> 0 \<and> ?Q (pipe_c t) (after_closes os rd wr t)"
      using filled_measured [OF g(1-5) pipe] g(6) by (simp add: after_closes_def pipe_capacity_def wp_simps)
  qed simp_all
  have "unmeasured s (call_state os SysPageSize s)" "unmeasured s ?s"
    "fst (sys os (trace ?s) (SysPipe O_NONBLOCK)) = -1 \<Longrightarrow> unmeasured s ?u"
    by (simp_all add: unmeasured_def calls_since_def)
  with loop assms(3) show ?thesis unfolding first_capacity [OF assms(2,3) k pipe] by simp
qed

section \<open>Properties\<close>

text \<open>C31: Measuring the capacity of a pipe ends. On a kernel whose pipes hold at most \<open>cap\<close> bytes, the first
  call of \<open>pipe_capacity\<close> returns after filling one pipe: the result is the number of bytes that pipe
  has taken, positive and at most \<open>cap\<close>, both ends have been closed, once each, and the result is
  remembered for later calls, which make no system call. If there is no page size, memory or pipe, the result
  is 0 and no descriptor is open.\<close>

theorem pipe_capacity_measures:
  fixes s :: "'m uproc_scheme"
  assumes "pipe_holds os cap" and "page_ok os" and "pipe_c s = 0"
  shows "wp never (pipe_capacity os) (\<lambda>c t. pipe_c t = c \<and>
    (c = 0 \<and> unmeasured s t \<or> measured os cap s c t \<and> wp never (pipe_capacity os) (\<lambda>c' t'. c' = c \<and> t' = t) t)) s"
  by (rule capacity_measured [OF assms])

text \<open>A kernel with pipes of 65536 bytes, which counts what has been written since the last pipe was made.\<close>

definition pipe_os :: os where
  "pipe_os = \<lparr>sys = (\<lambda>h c. (case c of SysPageSize \<Rightarrow> 4096 | SysMalloc n \<Rightarrow> 16
     | SysWrite fd bs \<Rightarrow>
         (let room = 65536 - taken fd (rev (takeWhile (\<lambda>(c, r). c \<noteq> SysPipe O_NONBLOCK) (rev h)))
          in if room = 0 then -1 else int (min (length bs) room))
     | _ \<Rightarrow> 0, EAGAIN)), os_stat = os_stat quiet_os, os_message = os_message quiet_os, os_events = os_events quiet_os,
     os_pipe = (\<lambda>h. (5, 6)), os_data = os_data quiet_os, os_signo = os_signo quiet_os, os_kevents = os_kevents quiet_os,
     os_rlimit = os_rlimit quiet_os, os_status = os_status quiet_os, os_nsent = os_nsent quiet_os\<rparr>"

lemma since_pipe:
  assumes "only_writes fd g"
  shows "rev (takeWhile (\<lambda>(c, r). c \<noteq> SysPipe f) (rev g @ (SysPipe f, r) # rev h)) = g"
proof -
  have "\<forall>x\<in>set (rev g). (case x of (c, r) \<Rightarrow> c \<noteq> SysPipe f)" using assms by (auto simp: only_writes_def)
  then show ?thesis by (simp add: takeWhile_append)
qed

lemma pipe_os_ok: "pipe_holds pipe_os 65536" "page_ok pipe_os"
  unfolding pipe_holds_def by (auto simp: pipe_os_def page_ok_def since_pipe Let_def)

theorem pipe_capacity_measures_witness:
  "wp never (pipe_capacity pipe_os) (\<lambda>c t. pipe_c t = c \<and>
     (c = 0 \<and> unmeasured \<lparr>errno = 0, trace = [], pipe_c = 0\<rparr> t \<or> measured pipe_os 65536 \<lparr>errno = 0, trace = [], pipe_c = 0\<rparr> c t \<and>
        wp never (pipe_capacity pipe_os) (\<lambda>c' t'. c' = c \<and> t' = t) t)) \<lparr>errno = 0, trace = [], pipe_c = 0\<rparr>"
  by (rule pipe_capacity_measures [OF pipe_os_ok]) simp

end
