(* ===== verification/Sfd_Delivery.thy ===== *)
theory Sfd_Delivery
  imports Sfd_Steps Sfd_Frame Sfd_Capacity
begin

text \<open>
  The whole of a transfer. The steps of the server interleave the turns of all transfers with requests,
  timers and responses; for one transfer, the bytes moved from its file to its destination are counted
  over all of them. The count of bytes left is exact after every step. When the transfer is gone, every byte was moved and the
  completion was announced, or its last attempt to move data had failed, or it was interrupted: its client cancelled it, its
  timer expired, or its destination failed.
\<close>

section \<open>The balance of a transfer\<close>

text \<open>What has become of the transfer \<open>x\<close> at \<open>p\<close> when the calls \<open>g\<close> have been made: it is there with the rest of
  its bytes, or it has come to its end. \<open>d\<close> says whether it was interrupted.\<close>

definition settled :: "bool \<Rightarrow> resrc_xfer \<Rightarrow> history \<Rightarrow> bool" where
  "settled d x g \<longleftrightarrow> sent x g = unat (nbytes_left x) \<and> (stat_fd x \<noteq> dest_fd x \<longrightarrow> made (completion x) g) \<or>
     sent x g < unat (nbytes_left x) \<and> (stopped x g \<or> d)"

definition outcome_of :: "bool \<Rightarrow> addr \<Rightarrow> resrc_xfer \<Rightarrow> history \<Rightarrow> heap_t \<Rightarrow> bool" where
  "outcome_of d p x g h \<longleftrightarrow> (case h p of
     Some (RXfer x') \<Rightarrow> same_xfer x x' \<and> (xdefer x' = CANCEL \<longrightarrow> d) \<and> nbytes_left x' \<noteq> 0 \<and>
       unat (nbytes_left x) = unat (nbytes_left x') + sent x g
   | _ \<Rightarrow> settled d x g)"

text \<open>No other transfer reads the same file descriptor and writes to the same destination.\<close>

definition lone :: "addr \<Rightarrow> resrc_xfer \<Rightarrow> heap_t \<Rightarrow> bool" where
  "lone p x h \<longleftrightarrow> (\<forall>q y. q \<noteq> p \<and> h q = Some (RXfer y) \<longrightarrow> apart x y)"

definition balanced :: "bool \<Rightarrow> addr \<Rightarrow> resrc_xfer \<Rightarrow> history \<Rightarrow> history \<Rightarrow> heap_t \<Rightarrow> bool" where
  "balanced d p x h0 g h \<longleftrightarrow> lone p x h \<and> (\<exists>g'. g = h0 @ g' \<and> outcome_of d p x g' h)"

text \<open>Calls that move no data of \<open>x\<close> change nothing.\<close>

definition spares :: "resrc_xfer \<Rightarrow> history \<Rightarrow> bool" where
  "spares x g \<longleftrightarrow> sent x g = 0 \<and> (\<forall>c\<in>set g. \<forall>v. fst c \<noteq> move_call x v)"

lemma spares_quiet: "quiet g \<Longrightarrow> spares x g"
  using quiet_others by (simp add: spares_def quiet_moved)

lemma spares_other: "own y g \<Longrightarrow> apart x y \<Longrightarrow> spares x g"
  using own_others by (simp add: spares_def sent_other)

lemma settled_later: "settled d x g \<Longrightarrow> spares x g' \<Longrightarrow> settled d x (g @ g')"
  using stopped_after by (auto simp: settled_def spares_def)

lemma outcome_later:
  assumes "outcome_of d p x g h" and "spares x g'" and "h' p = h p \<or> h p = None \<and> (\<exists>r. h' p = Some (RResp r))"
  shows "outcome_of d p x (g @ g') h'"
  using assms settled_later [of d x g g'] by (auto simp: outcome_of_def spares_def split: option.splits resrc.splits)

lemma lone_kept:
  assumes "lone p x h" and "\<And>q y'. h' q = Some (RXfer y') \<Longrightarrow> \<exists>y. h q = Some (RXfer y) \<and> same_xfer y y'"
  shows "lone p x h'"
  unfolding lone_def
proof (intro allI impI, elim conjE)
  fix q y' assume q: "q \<noteq> p" "h' q = Some (RXfer y')"
  then obtain y where y: "h q = Some (RXfer y)" "same_xfer y y'" using assms(2) by blast
  then have "apart x y" using assms(1) q(1) by (simp add: lone_def)
  with same_xferD [OF y(2)] show "apart x y'" by (simp add: apart_def)
qed

lemma sent_same: "same_xfer x y \<Longrightarrow> sent y g = sent x g" "same_xfer x y \<Longrightarrow> stopped y g = stopped x g"
proof -
  assume "same_xfer x y"
  note eq = same_xferD [OF this]
  have "sent_by y c = sent_by x c" for c by (cases "(y, c)" rule: sent_by.cases) (simp_all add: eq)
  then have "sent_by y = sent_by x" by (rule ext)
  then show "sent y g = sent x g" by (simp add: sent_def)
  have "move_call y = move_call x" by (simp add: move_call_def fun_eq_iff eq)
  then show "stopped y g = stopped x g" by (simp add: stopped_def)
qed

section \<open>A turn of a transfer\<close>

lemma lone_turn:
  assumes "lone p x (heap s)" and "heap s q = Some (RXfer y)" and "transfer_post q y s r t"
  shows "lone p x (heap t)" "lone p x ((heap t)(q := None))"
proof -
  have "\<exists>z. heap s u = Some (RXfer z) \<and> same_xfer z z'" if "heap t u = Some (RXfer z')" for u z'
    using that assms(2,3) by (cases "u = q") (fastforce simp: transfer_post_def others_kept_def)+
  then show lone: "lone p x (heap t)" by (rule lone_kept [OF assms(1)])
  then show "lone p x ((heap t)(q := None))" by (rule lone_kept) (auto split: if_splits)
qed

lemma own_turn:
  assumes "outcome_of d p x g (heap s)" and "heap s p = Some (RXfer y)" and "accounted p y 0 s r t"
  shows "\<exists>h. trace t = trace s @ h \<and> outcome_of d p x (g @ h) (if r then heap t else (heap t)(p := None))"
proof -
  have y: "same_xfer x y" "unat (nbytes_left x) = unat (nbytes_left y) + sent x g" using assms(1,2) by (auto simp: outcome_of_def)
  obtain h y' where h: "trace t = trace s @ h" "heap t p = Some (RXfer y')" "same_xfer y y'"
      "unat (nbytes_left y) = unat (nbytes_left y') + moved h" "own y h" "verdict y y' (pipe_c s) (moved h) r h"
    using assms(3) by (auto simp: accounted_def)
  have bal: "unat (nbytes_left x) = unat (nbytes_left y') + sent x (g @ h)"
    using y(2) h(4) sent_own [OF h(5)] sent_same(1) [OF y(1), of h] by simp
  have "outcome_of d p x (g @ h) (heap t)" if r
    using that h(2,6) bal same_xfer_trans [OF y(1) h(3)] by (auto simp: outcome_of_def verdict_def)
  moreover have "settled d x (g @ h)" if "\<not> r"
  proof -
    have "nbytes_left y' = 0 \<and> (stat_fd x \<noteq> dest_fd x \<longrightarrow> made (completion x) h) \<or> nbytes_left y' \<noteq> 0 \<and> stopped x h"
      using that h(6) told_made [of h x] unfolding verdict_def sent_same(2) [OF y(1)] told_same [OF y(1)] by auto
    with bal show ?thesis unfolding settled_def using stopped_before [of x h g] by (auto simp: unat_gt_0)
  qed
  ultimately show ?thesis using h(1) by (auto simp: outcome_of_def)
qed

lemma other_turn:
  assumes "outcome_of d p x g (heap s)" and "heap s q = Some (RXfer y)" and "q \<noteq> p" and "apart x y"
    and "accounted q y 0 s r t" and "transfer_post q y s r t"
  shows "\<exists>h. trace t = trace s @ h \<and> outcome_of d p x (g @ h) (if r then heap t else (heap t)(q := None))"
proof -
  obtain h where h: "trace t = trace s @ h" "own y h" using assms(5) by (auto simp: accounted_def)
  have "heap t p = heap s p \<or> heap s p = None \<and> (\<exists>r. heap t p = Some (RResp r))"
    using assms(3,6) by (auto simp: transfer_post_def others_kept_def)
  then have "outcome_of d p x (g @ h) (if r then heap t else (heap t)(q := None))"
    using assms(3) by (intro outcome_later [OF assms(1) spares_other [OF h(2) assms(4)]]) auto
  with h(1) show ?thesis by blast
qed

lemma turn_balanced:
  assumes "balanced d p x h0 (trace s) (heap s)" and "heap s q = Some (RXfer y)" and "accounted q y 0 s r t" and "transfer_post q y s r t"
  shows "balanced d p x h0 (trace t) (if r then heap t else (heap t)(q := None))"
proof -
  obtain g where g: "trace s = h0 @ g" "outcome_of d p x g (heap s)" "lone p x (heap s)" using assms(1) by (auto simp: balanced_def)
  have "\<exists>h. trace t = trace s @ h \<and> outcome_of d p x (g @ h) (if r then heap t else (heap t)(q := None))"
  proof (cases "q = p")
    case True
    show ?thesis unfolding True by (rule own_turn [OF g(2)]) (use True assms(2,3) in simp_all)
  next
    case False
    then have "apart x y" using g(3) assms(2) by (simp add: lone_def)
    with False other_turn [OF g(2) assms(2)] assms(3,4) show ?thesis by blast
  qed
  with g lone_turn [OF g(3) assms(2,4)] show ?thesis by (auto simp: balanced_def)
qed

lemma balanced_quiet: "balanced d p x h0 g h \<Longrightarrow> quiet g' \<Longrightarrow> balanced d p x h0 (g @ g') h"
  using outcome_later [OF _ spares_quiet] by (fastforce simp: balanced_def)

text \<open>Every transfer that runs has bytes left and a block size.\<close>

definition sound_xfers :: "heap_t \<Rightarrow> bool" where
  "sound_xfers h \<longleftrightarrow> (\<forall>q y. h q = Some (RXfer y) \<and> (xdefer y = READY \<or> cmd y \<noteq> PROT_CMD_FILE_OPEN) \<longrightarrow> ready_ok y)"

lemma ready_ok_same: "same_xfer y y' \<Longrightarrow> ready_ok y \<Longrightarrow> nbytes_left y' \<noteq> 0 \<Longrightarrow> ready_ok y'"
  by (auto simp: ready_ok_def word_greater_zero_iff dest!: same_xferD)

lemma turn_sound:
  assumes "sound_xfers (heap s)" and "heap s q = Some (RXfer y)" and "ready_ok y" and "accounted q y 0 s r t" and "transfer_post q y s r t"
  shows "sound_xfers (if r then heap t else (heap t)(q := None))"
proof -
  obtain y' where y': "heap t q = Some (RXfer y')" "same_xfer y y'" "r \<Longrightarrow> nbytes_left y' \<noteq> 0"
    using assms(4) by (auto simp: accounted_def verdict_def)
  have kept: "heap t u = heap s u \<or> (\<exists>z. heap t u = Some (RResp z))" if "u \<noteq> q" for u
    using assms(5) that by (auto simp: transfer_post_def others_kept_def)
  have "ready_ok z" if "heap t u = Some (RXfer z)" "xdefer z = READY \<or> cmd z \<noteq> PROT_CMD_FILE_OPEN" "u = q \<longrightarrow> r" for u z
  proof (cases "u = q")
    case True
    with that y' ready_ok_same [OF y'(2) assms(3)] show ?thesis by simp
  next
    case False
    with kept [OF False] that assms(1) show ?thesis by (auto simp: sound_xfers_def)
  qed
  then show ?thesis by (auto simp: sound_xfers_def)
qed

text \<open>What one turn of any transfer keeps.\<close>

definition books :: "bool \<Rightarrow> addr \<Rightarrow> resrc_xfer \<Rightarrow> history \<Rightarrow> history \<Rightarrow> heap_t \<Rightarrow> bool" where
  "books d p x h0 g h \<longleftrightarrow> sound_xfers h \<and> balanced d p x h0 g h"

abbreviation in_books :: "bool \<Rightarrow> addr \<Rightarrow> resrc_xfer \<Rightarrow> history \<Rightarrow> 'm sproc_scheme \<Rightarrow> bool" where
  "in_books d p x h0 s \<equiv> books d p x h0 (trace s) (heap s)"

lemma gone_early: "outcome_of d p x g h \<Longrightarrow> q = p \<Longrightarrow> d \<Longrightarrow> h p = Some (RXfer y) \<Longrightarrow> outcome_of d p x g (h(q := None))"
  by (auto simp: outcome_of_def settled_def unat_gt_0)

lemma books_free:
  assumes "books d p x h0 g h" and "h q = Some (RXfer y)" and "q = p \<Longrightarrow> d"
  shows "books d p x h0 g (h(q := None))"
proof -
  obtain g' where g: "g = h0 @ g'" "outcome_of d p x g' h" "lone p x h" "sound_xfers h"
    using assms(1) by (auto simp: books_def balanced_def)
  have "outcome_of d p x g' (h(q := None))"
    using g(2) assms(2,3) gone_early [OF g(2)] by (cases "q = p") (auto simp: outcome_of_def)
  moreover have "lone p x (h(q := None))" "sound_xfers (h(q := None))"
    using g(3,4) by (auto simp: lone_def sound_xfers_def split: if_splits)
  ultimately show ?thesis using g(1) by (auto simp: books_def balanced_def)
qed

lemma books_later: "books d p x h0 g h \<Longrightarrow> books (d \<or> e) p x h0 g h"
  by (fastforce simp: books_def balanced_def outcome_of_def settled_def split: option.splits resrc.splits)

lemma books_quiet: "books d p x h0 g h \<Longrightarrow> quiet g' \<Longrightarrow> books d p x h0 (g @ g') h"
  by (simp add: books_def balanced_quiet)

text \<open>The first turn of all measures the capacity of a pipe, which moves no data of any transfer.\<close>

definition measurable :: "os \<Rightarrow> bool" where
  "measurable os \<longleftrightarrow> (\<exists>cap. pipe_holds os cap) \<and> mallocs os \<and>
     (\<forall>h. 0 < fst (sys os h SysPageSize) \<and> fst (sys os h (SysPipe O_NONBLOCK)) \<noteq> -1)"

lemma only_writes_quiet: "only_writes fd g \<Longrightarrow> quiet g"
  by (fastforce simp: only_writes_def quiet_def)

lemma measured_first:
  fixes s :: "'m sproc_scheme"
  assumes "measurable os" and "pipe_c s = 0"
  obtains c t where "pipe_capacity os s = Ok c t" "c \<noteq> 0" "pipe_c t = c" "heap t = heap s" "srv t = srv s" "\<exists>g. trace t = trace s @ g \<and> quiet g"
proof -
  obtain cap where cap: "pipe_holds os cap" using assms(1) by (auto simp: measurable_def)
  have page: "page_ok os" using assms(1) by (simp add: measurable_def page_ok_def)
  let ?Q = "\<lambda>c t. pipe_c t = c \<and> (c = 0 \<and> unmeasured s t \<or> measured os cap s c t)"
  obtain rd wr where pipe: "os_pipe os (trace (page_state os (nat (fst (sys os (trace s) SysPageSize))) s)) = (rd, wr)" by fastforce
  note first = first_capacity [OF page assms(2) refl pipe]
  have mem: "\<not> fst (sys os h (SysMalloc k)) \<le> 0" "fst (sys os h SysPageSize) \<noteq> -1" "fst (sys os h (SysPipe O_NONBLOCK)) \<noteq> -1" for h k
    using assms(1) by (auto simp: measurable_def mallocs_def not_le dest: spec [of _ h])
  have "wp never (pipe_capacity os) ?Q s" by (rule wp_mono [OF capacity_measured [OF cap page assms(2)]]) auto
  then have "wp never (pipe_capacity os) (\<lambda>c t. ?Q c t \<and> c \<noteq> 0) s"
    unfolding first using mem by (auto elim!: wp_mono)
  then obtain c t where t: "pipe_capacity os s = Ok c t" "pipe_c t = c" "c \<noteq> 0" "measured os cap s c t"
    by (auto simp: wp_never_iff)
  have "\<exists>g. trace t = trace s @ g \<and> quiet g" using t(4) unfolding measured_def
  proof (elim exE conjE)
    fix pre r g rd wr a b n
    assume tr: "trace t = trace s @ pre @ (SysPipe O_NONBLOCK, r) # g @ [(SysClose rd, a), (SysClose wr, b)]"
      and pre: "map fst pre = [SysPageSize, SysMalloc n]" and g: "only_writes wr g"
    have "quiet pre" using pre by (auto simp: map_eq_Cons_conv)
    with tr only_writes_quiet [OF g] show ?thesis by simp
  qed
  moreover have "wp tolerated (pipe_capacity os) (\<lambda>_ t. heap t = heap s \<and> srv t = srv s) s"
    by (rule pipe_capacity_frame) simp
  then have "heap t = heap s \<and> srv t = srv s" using t(1) by (rule wp_Ok)
  ultimately show ?thesis using that t(1-3) by blast
qed

text \<open>Nothing else is different in that turn.\<close>

lemma warm_up:
  fixes s :: "'m sproc_scheme"
  assumes "pipe_capacity os s = Ok c u" and "c \<noteq> 0" and "pipe_c u = c" and "heap u = heap s" and "heap s q = Some (RXfer y)"
    and "cmd y \<in> {PROT_CMD_READ, PROT_CMD_SEND}"
  shows "wp E (transfer_file os q) Q s = wp E (transfer_file os q) Q u"
proof -
  have cap: "wp E (pipe_capacity os) R s = R c u" for R :: "size_t \<Rightarrow> 'm sproc_scheme \<Rightarrow> bool" using assms(1) by (simp add: wp_def)
  have "wp E (read_write_size os y 0) R s = wp E (read_write_size os y 0) R u" for R :: "size_t \<Rightarrow> 'm sproc_scheme \<Rightarrow> bool"
    using assms(2,3) by (simp add: read_write_size_def Let_def wp_simps cap pipe_capacity_known)
  then have "wp E (transfer_round os q 0) R s = wp E (transfer_round os q 0) R u" for R
    using assms(4,5) by (simp add: transfer_round_def wp_bindP [of _ "get_xfer q"] wp_bindP [of _ "read_write_size os y 0"] wp_get_xfer)
  then have "wp E (transfer_loop (Suc n) os q 0) Q s = wp E (transfer_loop (Suc n) os q 0) Q u" for n
    by (subst (1 2) transfer_loop.simps) (simp add: wp_bindP)
  moreover have "XFER_FUEL \<noteq> 0" by (simp add: XFER_FUEL_def)
  ultimately have "wp E (transfer_loop XFER_FUEL os q 0) Q s = wp E (transfer_loop XFER_FUEL os q 0) Q u"
    by (metis not0_implies_Suc)
  then show ?thesis using assms(4-6) by (simp add: transfer_file_def wp_bindP wp_get_xfer wp_if)
qed

lemma books_can_move:
  assumes "pipe_atomic os" and "moves_data os" and "server_inv s" and "in_books d p x h0 s" and "heap s q = Some (RXfer y)"
    and "xdefer y \<noteq> CANCEL" and "xdefer y = READY \<or> cmd y \<noteq> PROT_CMD_FILE_OPEN"
  shows "ready_ok y" "pipe_c s \<noteq> 0 \<Longrightarrow> can_move os q y s"
  using assms by (auto simp: can_move_def books_def sound_xfers_def ready_ok_def)

lemma warm_turn_books:
  assumes "pipe_atomic os" and "moves_data os" and "server_inv s" and "in_books d p x h0 s" and "heap s q = Some (RXfer y)"
    and "xdefer y \<noteq> CANCEL" and "xdefer y = READY \<or> cmd y \<noteq> PROT_CMD_FILE_OPEN" and "pipe_c s \<noteq> 0"
  shows "wp null_resp (transfer_file os q) (\<lambda>r t. transfer_post q y s r t \<and>
    books d p x h0 (trace t) (if r then heap t else (heap t)(q := None))) s"
proof (rule wp_mono [OF wp_conj_strong [OF transfer_file_post [OF assms(3,5,6)] transfer_file_accounted [OF books_can_move(2) [OF assms]]]])
  fix r t assume "transfer_post q y s r t \<and> accounted q y 0 s r t"
  with turn_balanced [of d p x h0 s q y r t] turn_sound [of s q y r t] books_can_move(1) [OF assms(1-7)] assms(4,5)
  show "transfer_post q y s r t \<and> books d p x h0 (trace t) (if r then heap t else (heap t)(q := None))"
    unfolding books_def by blast
qed

text \<open>The kernel keeps its promises.\<close>

definition reliable :: "os \<Rightarrow> bool" where
  "reliable os \<longleftrightarrow> pipe_atomic os \<and> moves_data os \<and> measurable os"

lemma turn_books:
  assumes "reliable os" and "server_inv s" and "in_books d p x h0 s" and "heap s q = Some (RXfer y)"
    and "xdefer y \<noteq> CANCEL" and "xdefer y = READY \<or> cmd y \<noteq> PROT_CMD_FILE_OPEN"
  shows "wp null_resp (transfer_file os q) (\<lambda>r t. transfer_post q y s r t \<and>
    books d p x h0 (trace t) (if r then heap t else (heap t)(q := None))) s"
proof (cases "pipe_c s = 0")
  case False
  with assms show ?thesis by (intro warm_turn_books) (simp_all add: reliable_def)
next
  case True
  have os: "pipe_atomic os" "moves_data os" "measurable os" using assms(1) by (simp_all add: reliable_def)
  from measured_first [OF os(3) True] obtain c u where u: "pipe_capacity os s = Ok c u" "c \<noteq> 0" "pipe_c u = c"
    "heap u = heap s" "srv u = srv s" "\<exists>g. trace u = trace s @ g \<and> quiet g" by metis
  have "ready_ok y" using books_can_move(1) [OF os(1,2) assms(2-6)] .
  then have "cmd y \<in> {PROT_CMD_READ, PROT_CMD_SEND}" by (simp add: ready_ok_def)
  note warm = warm_up [OF u(1-4) assms(4) this]
  have "transfer_post q y u r t = transfer_post q y s r t" for r t using u(4,5) by (simp add: transfer_post_def)
  moreover have "in_books d p x h0 u" using u(4,6) books_quiet [OF assms(3)] by auto
  moreover have "server_inv u" using assms(2) u(4,5) by (simp add: server_inv_def)
  ultimately show ?thesis
    unfolding warm using warm_turn_books [OF os(1,2), of u d p x h0 q y] assms(4-6) u(2-4) by simp
qed

section \<open>The deferred transfers\<close>

lemma delivering_kernel:
  assumes "reliable os"
  shows "deferred_transfers os null_resp (\<lambda>_ g h _. books d p x h0 g h)"
proof (unfold_locales, goal_cases)
  case (1 s D q y)
  then show ?case by (intro turn_books [OF assms]) auto
next
  case (2 D g h c q y)
  then have "q = p \<longrightarrow> d" by (auto simp: books_def balanced_def outcome_of_def)
  with 2 show ?case by (intro books_free) auto
qed (rule books_quiet)

section \<open>The other steps\<close>

definition quiet_since :: "history \<Rightarrow> 'm sproc_scheme \<Rightarrow> bool" where
  "quiet_since h t \<longleftrightarrow> (\<exists>g. trace t = h @ g \<and> quiet g)"

interpretation quieted: quiet_frame "quiet_since h" for h
  by unfold_locales (auto simp: quiet_since_def)

lemma quiet_now: "quiet_since (trace s) s"
  by (simp add: quiet_since_def)

lemma release_books:
  assumes "server_inv t" and "heap t q = Some (RXfer y)" and "xdefer y = NONE" and "books d p x h0 (trace t) ((heap t)(q := None))"
  shows "wp E (PRESERVE_ERRNO (delete_registered_xfer os q)) (\<lambda>_. in_books d p x h0) t"
proof -
  have inv: "sinv {} (heap t) (srv t)" using assms(1) by (simp add: server_inv_def)
  have out: "q \<notin> set (deferred_list (srv t))" using sinv_flag [OF inv assms(2)] assms(3) by simp
  obtain g where "trace (calls_state os (SysEpollDel (epollfd (poller (srv t))) (dest_fd y) # all_fd_closes y) (deleted_state q y t)) = trace t @ g" "quiet g"
    using release_quiet [of os _ _ y "deleted_state q y t"] by (auto simp: deleted_state_def)
  with books_quiet [OF assms(4)] show ?thesis
    unfolding wp_PRESERVE_ERRNO wp_delete_registered [OF inv assms(2) out] by (simp add: deleted_state_def)
qed

lemma xfer_event_books:
  assumes "reliable os" and "server_inv s" and "in_books d p x h0 s" and "heap s q = Some (RXfer y)"
    and "q = p \<Longrightarrow> cmd y \<noteq> PROT_CMD_FILE_OPEN" and "\<not> (err \<and> xdefer y = READY)" and "err \<and> q = p \<Longrightarrow> d"
  shows "wp null_resp (xfer_event os err q) (\<lambda>_. in_books d p x h0) s"
proof -
  let ?gone = "PRESERVE_ERRNO (delete_registered_xfer os q)"
  have tag: "xtag y = XFER_RESRC_TAG" using sinv_heap [of "{}" "heap s" "srv s" q "RXfer y"] assms(2,4) by (simp add: server_inv_def)
  have gone: "wp null_resp ?gone (\<lambda>_. in_books d p x h0) s" if "xdefer y = NONE" "q = p \<Longrightarrow> d"
    using release_books [OF assms(2,4) that(1) books_free [OF assms(3,4) that(2)]] by simp
  have turn: "wp null_resp (bindP (transfer_file os q) (\<lambda>more. ret (\<not> more))) (\<lambda>del.
      wp null_resp (whenP del ?gone) (\<lambda>_. in_books d p x h0)) s" if none: "xdefer y = NONE"
  proof (cases "cmd y = PROT_CMD_FILE_OPEN")
    case True
    then have "q \<noteq> p" using assms(5) by blast
    with True gone [OF none] assms(4) show ?thesis by (simp add: transfer_file_def wp_bindP wp_get_xfer wp_ret wp_whenP cmd_defs)
  next
    case False
    show ?thesis
      unfolding wp_bindP
    proof (rule wp_mono [OF turn_books [OF assms(1-4)]])
      fix r t assume t: "transfer_post q y s r t \<and> books d p x h0 (trace t) (if r then heap t else (heap t)(q := None))"
      then obtain y' where y': "heap t q = Some (RXfer y')" "\<not> r \<longrightarrow> xdefer y' = NONE" using none by (auto simp: transfer_post_def)
      have "server_inv t" using transfer_post_inv [OF conjunct1 [OF t] assms(2,4) y'(1)] none by simp
      with t y' release_books [of t q y' d p x h0 null_resp os]
      show "wp null_resp (ret (\<not> r)) (\<lambda>del. wp null_resp (whenP del ?gone) (\<lambda>_. in_books d p x h0)) t"
        by (cases r) (auto simp: wp_ret wp_whenP)
    qed (use none False in simp_all)
  qed
  show ?thesis
    using assms(3,4,6,7) tag turn gone
    by (cases "xdefer y"; cases err)
      (simp_all add: xfer_event_def wp_bindP
        wp_seqP wp_assertP wp_is_resrc wp_get_xfer wp_if wp_ret wp_whenP)
qed

section \<open>A run of the server\<close>

text \<open>A step from \<open>t\<close> to \<open>u\<close> interrupts the transfer: a \<open>CANCEL\<close> of its own client changed it, its timer fired, or its destination
  failed. (Requests of other clients cannot reach it, nor can its client's requests for other files.)\<close>

definition interrupts :: "addr \<Rightarrow> resrc_xfer \<Rightarrow> sproc \<Rightarrow> server_event \<Rightarrow> sproc \<Rightarrow> bool" where
  "interrupts p x t e u \<longleftrightarrow> (case e of
     EvDatagram n rc \<Rightarrow> rc_pid rc = client_pid x \<and> sfd_get_cmd (rc_buf rc) = PROT_CMD_CANCEL \<and> heap u p \<noteq> heap t p
   | EvTimer tp \<Rightarrow> (\<exists>tm y. heap t tp = Some (RTimer tm) \<and> timer_fires tm t p y)
   | EvData err q \<Rightarrow> err \<and> q = p
   | _ \<Rightarrow> False)"

text \<open>Two restrictions on datagrams: the client does not give the transfer another destination by a \<open>SEND_OPEN\<close>, and a new
  transfer has bytes to send, a block size and a pair of descriptors of its own.\<close>

definition admitted :: "addr \<Rightarrow> resrc_xfer \<Rightarrow> sproc \<Rightarrow> server_event \<Rightarrow> sproc \<Rightarrow> bool" where
  "admitted p x t e u \<longleftrightarrow> (case e of
     EvDatagram n rc \<Rightarrow> (rc_pid rc = client_pid x \<and> sfd_get_cmd (rc_buf rc) = PROT_CMD_SEND_OPEN \<longrightarrow> heap u p = heap t p) \<and>
       sound_xfers (heap u) \<and> lone p x (heap u)
   | _ \<Rightarrow> True)"

text \<open>The runs of the server while the transfer is there, and whether it was interrupted.\<close>

inductive delivery :: "os \<Rightarrow> addr \<Rightarrow> resrc_xfer \<Rightarrow> sproc \<Rightarrow> bool \<Rightarrow> sproc \<Rightarrow> bool" for os p x s where
  start: "delivery os p x s False s"
| step: "delivery os p x s d t \<Longrightarrow> heap t p = Some (RXfer x') \<Longrightarrow> enabled t e \<Longrightarrow> run_step os e t = Ok () u \<Longrightarrow>
    admitted p x t e u \<Longrightarrow> delivery os p x s (d \<or> interrupts p x t e u) u"

text \<open>Steps that move no data.\<close>

definition marked_if :: "bool \<Rightarrow> resrc_xfer \<Rightarrow> resrc option \<Rightarrow> bool" where
  "marked_if d y r \<longleftrightarrow> r = Some (RXfer y) \<or> d \<and> r = Some (RXfer (y\<lparr>xdefer := CANCEL\<rparr>))"

lemma quiet_outcome:
  assumes "in_books d p x h0 t" and "quiet_since (trace t) u" and "heap t p = Some (RXfer y)" and "marked_if d y (heap u p)"
  shows "\<exists>g. trace u = h0 @ g \<and> outcome_of d p x g (heap u)"
proof -
  obtain g g' where g: "trace t = h0 @ g" "outcome_of d p x g (heap t)" "trace u = trace t @ g'" "quiet g'"
    using assms(1,2) by (auto simp: books_def balanced_def quiet_since_def)
  have y: "same_xfer x y" "xdefer y = CANCEL \<longrightarrow> d" "nbytes_left y \<noteq> 0" "unat (nbytes_left x) = unat (nbytes_left y) + sent x g"
    using g(2) assms(3) by (auto simp: outcome_of_def)
  have "sent x (g @ g') = sent x g" using spares_quiet [OF g(4)] by (simp add: spares_def)
  then have "outcome_of d p x (g @ g') (heap u)"
    using assms(4) y same_xfer_trans [OF y(1) same_xfer_refl(3)] by (auto simp: marked_if_def outcome_of_def)
  with g(1,3) show ?thesis by simp
qed

lemma quiet_books:
  assumes "in_books d p x h0 t" and "quiet_since (trace t) u" and "heap t p = Some (RXfer y)" and "marked_if d y (heap u p)"
    and "\<And>q y'. heap u q = Some (RXfer y') \<Longrightarrow> \<exists>y. heap t q = Some (RXfer y) \<and> y' \<in> {y, y\<lparr>xdefer := CANCEL\<rparr>}"
  shows "in_books d p x h0 u"
proof -
  have "ready_ok y'" if y': "heap u r = Some (RXfer y')" "xdefer y' = READY \<or> cmd y' \<noteq> PROT_CMD_FILE_OPEN" for r y'
  proof -
    obtain y where y: "heap t r = Some (RXfer y)" "y' \<in> {y, y\<lparr>xdefer := CANCEL\<rparr>}" using assms(5) [OF y'(1)] by blast
    then have "ready_ok y" using assms(1) y'(2) by (auto simp: books_def sound_xfers_def)
    then show ?thesis using y(2) by (auto simp: ready_ok_def)
  qed
  then have "sound_xfers (heap u)" by (auto simp: sound_xfers_def)
  moreover have "lone p x (heap u)"
  proof (rule lone_kept)
    show "lone p x (heap t)" using assms(1) by (simp add: books_def balanced_def)
    show "\<exists>y. heap t r = Some (RXfer y) \<and> same_xfer y y'" if "heap u r = Some (RXfer y')" for r y'
      using assms(5) [OF that] same_xfer_refl(1,3) by blast
  qed
  ultimately show ?thesis using quiet_outcome [OF assms(1-4)] by (simp add: books_def balanced_def)
qed

lemma unmoved_books:
  "in_books d p x h0 t \<Longrightarrow> quiet_since (trace t) u \<Longrightarrow> heap t p = Some (RXfer y) \<Longrightarrow> heap u = heap t \<Longrightarrow> in_books d p x h0 u"
  by (rule quiet_books) (auto simp: marked_if_def)

text \<open>A \<open>CANCEL\<close> at most marks a transfer.\<close>

lemma cancel_marks:
  assumes "server_inv s" and "sfd_get_cmd (rc_buf rc) = PROT_CMD_CANCEL" and "heap s p = Some (RXfer y)"
  shows "wp tolerated (handle_datagram os n rc) (\<lambda>_ t. marked_if True y (heap t p)) s"
proof -
  have cancel: "wp tolerated (request_cancel buf pid) (\<lambda>_ t. marked_if True y (heap t p)) s" for buf pid
  proof -
    have mark: "wp tolerated (defer_xfer q CANCEL) (\<lambda>_ t. marked_if True y (heap t p)) s" if "heap s q = Some (RXfer z)" for q z
      by (rule wp_mono [OF cancel_exact [OF assms(1) that]]) (use assms(3) that in \<open>auto simp: marked_if_def\<close>)
    show ?thesis
      using assms(1,3) by (auto simp: request_cancel_def wp_simps marked_if_def split: option.splits
          intro!: wp_get_open_file wp_mono [OF mark])
  qed
  show ?thesis
    unfolding handle_datagram_def
    using assms(2,3) by (auto simp: wp_simps process_request_def cmd_defs marked_if_def
        intro!: send_frame close_fds_frame wp_mono [OF cancel])
qed

lemma step_quiet:
  assumes "e \<notin> {EvDeferred} \<union> {EvData err q |err q. True}" and "run_step os e t = Ok () u"
  shows "quiet_since (trace t) u"
proof -
  have stable: "wp anyf m (\<lambda>_. quiet_since (trace t)) t" if "stable (quiet_since (trace t)) m"
    for m :: "(sproc, unit) prog"
    by (rule stableD [OF that]) (rule quiet_now)
  have "wp anyf (run_step os (EvWait tmo)) (\<lambda>_. quiet_since (trace t)) t" for tmo
    by (simp add: run_step_def syspoll_epoll_def wp_simps quiet_since_def)
  moreover have "wp anyf (run_step os (EvReceive rc)) (\<lambda>_. quiet_since (trace t)) t" for rc
    unfolding run_step_def server_event.case by (rule stable) (intro stable_intros)
  ultimately have "wp anyf (run_step os e) (\<lambda>_. quiet_since (trace t)) t"
    using assms(1)
    by (cases e) (simp_all add: run_step_def stable quieted.frame_datagram quieted.frame_quiet_events)
  from wp_Ok [OF this assms(2)] show ?thesis .
qed

text \<open>Every step keeps the books.\<close>

lemma datagram_marks:
  assumes "server_inv t" and "heap t p = Some (RXfer y)" and "client_pid y = client_pid x" and "client_pid x \<noteq> US_INVALID_PID"
    and "enabled t (EvDatagram n rc)" and "handle_datagram os n rc t = Ok () u" and "admitted p x t (EvDatagram n rc) u"
  shows "marked_if (interrupts p x t (EvDatagram n rc) u) y (heap u p)"
proof (cases "rc_pid rc = client_pid x \<and> heap u p \<noteq> heap t p")
  case True
  then have "sfd_get_cmd (rc_buf rc) \<noteq> PROT_CMD_SEND_OPEN" using assms(7) by (auto simp: admitted_def)
  moreover have "sfd_get_cmd (rc_buf rc) \<in> {PROT_CMD_SEND_OPEN, PROT_CMD_CANCEL}"
    using wp_Ok [OF handle_datagram_spares [OF assms(1)] assms(6)] True assms(2) by (auto simp: spared_def)
  ultimately have "sfd_get_cmd (rc_buf rc) = PROT_CMD_CANCEL" by simp
  with True wp_Ok [OF cancel_marks [OF assms(1) this assms(2)] assms(6)] show ?thesis by (simp add: interrupts_def)
next
  case False
  have "isolated (rc_pid rc) t u" using wp_Ok [OF handle_datagram_inv [OF assms(1)] assms(6)] assms(5) by simp
  with False assms(2-4) have "heap u p = heap t p" by (auto simp: isolated_def)
  with assms(2) show ?thesis by (simp add: marked_if_def)
qed

lemma timer_marks:
  assumes "server_inv t" and "heap t p = Some (RXfer y)" and "heap t tp = Some (RTimer tm)" and "timer_event os tp t = Ok () u"
  shows "marked_if (interrupts p x t (EvTimer tp) u) y (heap u p)" "marked_only t u"
proof -
  have "p \<noteq> tp" using assms(2,3) by auto
  then show "marked_if (interrupts p x t (EvTimer tp) u) y (heap u p)"
    using wp_Ok [OF timer_event_exact [OF assms(1,3)] assms(4)] assms(2,3)
    by (cases "p = tm_xfer_addr tm") (auto simp: expired_def marked_if_def interrupts_def timer_fires_def)
  show "marked_only t u" using wp_Ok [OF timer_event_inv [OF assms(1,3)] assms(4)] by simp
qed

lemma step_books:
  assumes "reliable os" and "cmsgs_fit os" and "server_inv t" and "in_books d p x h0 t" and "heap t p = Some (RXfer x')"
    and "enabled t e" and "run_step os e t = Ok () u" and "admitted p x t e u"
    and "client_pid x \<noteq> US_INVALID_PID" and "cmd x \<noteq> PROT_CMD_FILE_OPEN"
  shows "in_books (d \<or> interrupts p x t e u) p x h0 u"
proof -
  let ?d = "d \<or> interrupts p x t e u"
  have books: "in_books ?d p x h0 t" using books_later [OF assms(4)] .
  have "same_xfer x x'" using assms(4,5) by (auto simp: books_def balanced_def outcome_of_def)
  then have same: "client_pid x' = client_pid x" "cmd x' = cmd x" using same_xferD by blast+
  note quiet = step_quiet [OF _ assms(7)]
  show ?thesis
  proof (cases e)
    case (EvData err q)
    then obtain y where y: "heap t q = Some (RXfer y)" "\<not> (err \<and> xdefer y = READY)" using assms(6) by (auto split: option.splits resrc.splits)
    have "wp null_resp (xfer_event os err q) (\<lambda>_. in_books ?d p x h0) t"
      by (rule xfer_event_books [OF assms(1,3) books y(1) _ y(2)])
        (use y(1) assms(5,10) same EvData in \<open>auto simp: interrupts_def\<close>)
    from wp_Ok [OF this] show ?thesis using assms(7) EvData by (simp add: run_step_def)
  next
    case EvDeferred
    have "process_deferred os t = Ok () u" using assms(7) EvDeferred by (simp add: run_step_def)
    with wp_Ok [OF deferred_transfers.all_served [OF delivering_kernel [OF assms(1)] assms(3) books]] show ?thesis by blast
  next
    case (EvWait tmo)
    have "wp anyf (run_step os e) (\<lambda>_ u. heap u = heap t) t" by (simp add: EvWait run_step_def syspoll_epoll_def wp_simps)
    from wp_Ok [OF this assms(7)] show ?thesis by (intro unmoved_books [OF books quiet assms(5)]) (simp_all add: EvWait)
  next
    case (EvReceive rc)
    have len: "length (rc_fds rc) = PROT_MAXFDS" using assms(6) EvReceive by simp
    have "wp defined (us_recv os (reqfd (srv t)) (rc\<lparr>rc_nfds := PROT_MAXFDS\<rparr>)) (\<lambda>_ u. heap u = heap t) t"
      by (rule wp_mono [OF us_recv_post [OF assms(2)]]) (use len in \<open>auto simp: PROT_MAXFDS_def calls_only_kept\<close>)
    then have "wp defined (run_step os e) (\<lambda>_ u. heap u = heap t) t"
      unfolding EvReceive run_step_def server_event.case wp_seqP wp_bindP wp_getP wp_ret .
    from wp_Ok [OF this assms(7)] show ?thesis by (intro unmoved_books [OF books quiet assms(5)]) (simp_all add: EvReceive)
  next
    case (EvDatagram n rc)
    have run: "handle_datagram os n rc t = Ok () u" using assms(7) EvDatagram by (simp add: run_step_def)
    have "marked_if ?d x' (heap u p)"
      using datagram_marks [OF assms(3,5) same(1) assms(9) _ run] assms(6,8) EvDatagram by (auto simp: marked_if_def)
    with quiet_outcome [OF books quiet assms(5)] assms(8) EvDatagram show ?thesis
      by (simp add: books_def balanced_def admitted_def)
  next
    case (EvTimer tp)
    then obtain tm where tm: "heap t tp = Some (RTimer tm)" using assms(6) by (auto split: option.splits resrc.splits)
    have "timer_event os tp t = Ok () u" using assms(7) EvTimer by (simp add: run_step_def)
    from timer_marks [OF assms(3,5) tm this] show ?thesis
      by (intro quiet_books [OF books quiet assms(5)]) (auto simp: EvTimer marked_if_def marked_only_def)
  next
    case (EvResponse err rp)
    then obtain r where r: "heap t rp = Some (RResp r)" using assms(6) by (auto split: option.splits resrc.splits)
    have "heap u \<in> {heap t, (heap t)(rp := None)}"
      using wp_Ok [OF response_event_inv [OF assms(3) r]] assms(7) EvResponse by (simp add: run_step_def)
    with r assms(5) show ?thesis
      by (intro quiet_books [OF books quiet assms(5)]) (auto simp: EvResponse marked_if_def split: if_splits)
  qed
qed

lemma delivery_outcome:
  assumes "reliable os" and "cmsgs_fit os" and "server_inv s" and "heap s p = Some (RXfer x)"
    and "xdefer x \<noteq> CANCEL" and "cmd x \<noteq> PROT_CMD_FILE_OPEN" and "client_pid x \<noteq> US_INVALID_PID"
    and "sound_xfers (heap s)" and "lone p x (heap s)" and "delivery os p x s d t"
  shows "\<exists>g. trace t = trace s @ g \<and> (case heap t p of
      Some (RXfer x') \<Rightarrow> same_xfer x x' \<and> sent x g + unat (nbytes_left x') = unat (nbytes_left x)
    | _ \<Rightarrow> sent x g = unat (nbytes_left x) \<and> (stat_fd x \<noteq> dest_fd x \<longrightarrow> made (completion x) g) \<or>
        sent x g < unat (nbytes_left x) \<and> (stopped x g \<or> d))"
proof -
  have "server_inv t \<and> in_books d p x (trace s) t"
    using assms(10)
  proof (induction rule: delivery.induct)
    case start
    have "ready_ok x" using assms(4,6,8) by (simp add: sound_xfers_def)
    then have "outcome_of False p x [] (heap s)" using assms(4,5) by (auto simp: outcome_of_def ready_ok_def)
    with assms(3,8,9) show ?case by (simp add: books_def balanced_def)
  next
    case (step d t x' e u)
    have "server_inv u" using wp_Ok [OF run_step_inv [OF assms(2)]] step by blast
    moreover have "in_books (d \<or> interrupts p x t e u) p x (trace s) u"
      using step_books [OF assms(1,2) _ _ step.hyps(2-5) assms(7,6)] step.IH by blast
    ultimately show ?case ..
  qed
  then obtain g where "trace t = trace s @ g" "outcome_of d p x g (heap t)" by (auto simp: books_def balanced_def)
  then show ?thesis
    by (intro exI [of _ g]) (auto simp: outcome_of_def settled_def add.commute split: option.splits resrc.splits)
qed

section \<open>Properties\<close>

text \<open>C5: A transfer delivers exactly its bytes. Consider a running transfer and a run of steps of the server from
  there, in any order: its turns are interleaved with those of other transfers, with requests of all clients, with timers,
  responses and errors, until the transfer is gone. After every step, the bytes that were moved from its
  file to its destination and the bytes it has left add up to what it had at the start. If it is
  gone, then every byte has been moved and, where there is a status channel, the completion message has
  been written to it; or else fewer bytes have been moved, and its last attempt to move data had failed or it was interrupted
  (\<open>d\<close>): its own client cancelled it, a timer fired for it before anything was sent, or the poller reported an error on its
  destination. Nothing else ends a transfer. The kernel is \<open>reliable\<close>. Excluded are the following runs: those with one of the two events of \<open>hazard\<close> (an error or a
  \<open>SEND_OPEN\<close> on a transfer in the list of deferred transfers, after which the server is not consistent), those in which its client gives the transfer itself
  another destination by \<open>SEND_OPEN\<close>, and those in which there are transfers of empty files, of files without a block size or with the
  same two descriptors.\<close>

theorem transfer_delivers:
  assumes "reliable os" and "cmsgs_fit os" and "server_inv s" and "heap s p = Some (RXfer x)"
    and "xdefer x \<noteq> CANCEL" and "cmd x \<noteq> PROT_CMD_FILE_OPEN" and "client_pid x \<noteq> US_INVALID_PID"
    and "sound_xfers (heap s)" and "lone p x (heap s)" and "delivery os p x s d t"
  shows "\<exists>g. trace t = trace s @ g \<and> (case heap t p of
      Some (RXfer x') \<Rightarrow> same_xfer x x' \<and> sent x g + unat (nbytes_left x') = unat (nbytes_left x)
    | _ \<Rightarrow> sent x g = unat (nbytes_left x) \<and> (stat_fd x \<noteq> dest_fd x \<longrightarrow> made (completion x) g) \<or>
        sent x g < unat (nbytes_left x) \<and> (stopped x g \<or> d))"
  by (rule delivery_outcome [OF assms])

text \<open>A kernel that moves all the data it is asked to, with pipes of 65536 bytes that nobody reads: small writes succeed
  or fail as a whole.\<close>

definition delivering_os :: os where
  "delivering_os = moving_os\<lparr>sys := (\<lambda>h c. (case c of SysPageSize \<Rightarrow> 4096 | SysMalloc n \<Rightarrow> 48
     | SysSplice a b n \<Rightarrow> uint n | SysSendfile a b n \<Rightarrow> uint n
     | SysWrite fd bs \<Rightarrow>
         (let room = 65536 - taken fd (rev (takeWhile (\<lambda>(c, r). c \<noteq> SysPipe O_NONBLOCK) (rev h)))
          in if length bs \<le> room then int (length bs) else if length bs \<le> PIPE_BUF \<or> room = 0 then -1 else int room)
     | _ \<Rightarrow> 0, EAGAIN))\<rparr>"

lemma delivering_os_ok: "reliable delivering_os"
proof -
  have "pipe_holds delivering_os 65536"
  proof -
    have room: "T + length bs \<le> N" if "length bs \<le> N - T" "bs \<noteq> []" for T N :: nat and bs :: "byte list"
      using that by (cases bs) auto
    show ?thesis unfolding pipe_holds_def by (auto simp: delivering_os_def since_pipe Let_def PIPE_BUF_def room)
  qed
  moreover have "pipe_atomic delivering_os" "moves_data delivering_os"
    by (auto simp: delivering_os_def pipe_atomic_def moves_data_def move_call_def word_less_def Let_def)
  ultimately show ?thesis by (auto simp: reliable_def measurable_def mallocs_def delivering_os_def)
qed

text \<open>A transfer of ten bytes, which one event of its data channel completes.\<close>

lemma example_turn: "wp never (transfer_file delivering_os 16) (\<lambda>r _. \<not> r) (example_state NONE)"
proof -
  have "wp never (transfer_round delivering_os 16 0) (\<lambda>r _. r = Inl False) (example_state NONE)"
    by (simp add: transfer_round_def read_write_size_known wp_simps example_defs delivering_os_def move_call_def Let_def
        write_size_def SFD_MIN_def transfer_finished_def has_stat_channel_def send_terminal_resp_def wp_send_pdu cmd_defs)
  then have "wp never (transfer_loop XFER_FUEL delivering_os 16 0) (\<lambda>r _. \<not> r) (example_state NONE)"
    by (subst transfer_loop.simps) (auto simp: XFER_FUEL_def wp_simps split: sum.splits elim!: wp_mono)
  then show ?thesis by (simp add: transfer_file_def wp_simps example_defs)
qed

lemma example_delivery:
  "\<exists>t. delivery delivering_os 16 (example_xfer NONE) (example_state NONE) False t \<and> heap t 16 = None"
proof -
  let ?s = "example_state NONE" and ?x = "example_xfer NONE"
  have x: "heap ?s 16 = Some (RXfer ?x)" "xdefer ?x = NONE" "xtag ?x = XFER_RESRC_TAG" "cmd ?x \<noteq> PROT_CMD_FILE_OPEN"
    by (simp_all add: example_defs cmd_defs)
  have release: "wp never (PRESERVE_ERRNO (delete_registered_xfer delivering_os 16)) (\<lambda>_ t. heap t 16 = None) t"
    if post: "transfer_post 16 ?x ?s False t" for t
  proof -
    obtain x' where x': "heap t 16 = Some (RXfer x')" "xdefer x' = NONE" using post x(2) by (auto simp: transfer_post_def)
    have inv: "sinv {} (heap t) (srv t)"
      using transfer_post_inv [OF post example_inv x(1) x'(1)] x(2) by (simp add: server_inv_def)
    then have "16 \<notin> set (deferred_list (srv t))" using sinv_flag [OF inv x'(1)] x'(2) by simp
    from wp_delete_registered [OF inv x'(1) this] show ?thesis by (simp add: wp_PRESERVE_ERRNO deleted_state_def)
  qed
  have "wp never (transfer_file delivering_os 16) (\<lambda>r t. transfer_post 16 ?x ?s r t \<and> \<not> r) ?s"
    by (rule wp_conj_strong [OF transfer_file_post [OF example_inv x(1)] example_turn]) (simp add: x(2))
  then have "wp never (run_step delivering_os (EvData False 16)) (\<lambda>_ t. heap t 16 = None) ?s"
    using x release by (auto simp: run_step_def xfer_event_def wp_bindP wp_seqP wp_assertP wp_is_resrc wp_get_xfer wp_if wp_ret wp_whenP elim!: wp_mono)
  then obtain t where t: "run_step delivering_os (EvData False 16) ?s = Ok () t" "heap t 16 = None" by (auto simp: wp_never_iff)
  have "delivery delivering_os 16 ?x ?s (False \<or> interrupts 16 ?x ?s (EvData False 16) t) t"
    by (rule delivery.step [OF delivery.start x(1) _ t(1)]) (use x in \<open>auto simp: admitted_def\<close>)
  then have "delivery delivering_os 16 ?x ?s False t" by (simp add: interrupts_def)
  with t(2) show ?thesis by blast
qed

theorem transfer_delivers_witness:
  "\<exists>t g. delivery delivering_os 16 (example_xfer NONE) (example_state NONE) False t \<and> trace t = trace (example_state NONE) @ g \<and>
     (sent (example_xfer NONE) g = 10 \<and> made (completion (example_xfer NONE)) g \<or> sent (example_xfer NONE) g < 10 \<and> stopped (example_xfer NONE) g)"
proof -
  obtain t where t: "delivery delivering_os 16 (example_xfer NONE) (example_state NONE) False t" "heap t 16 = None"
    using example_delivery by blast
  note delivers = transfer_delivers [OF delivering_os_ok _ example_inv _ _ _ _ _ _ t(1)]
  show ?thesis
    using delivers t
    by (fastforce simp: cmsgs_fit_def delivering_os_def moving_os_def quiet_os_def example_defs US_INVALID_PID_def cmd_defs
        sound_xfers_def ready_ok_def lone_def split: if_splits)
qed

end
