(* ===== verification/Sfd_Dialogue.thy ===== *)
theory Sfd_Dialogue
  imports Sfd_Steps Sfd_Client
begin

text \<open>
  The dialogue of a client with the server. A request for a file is answered with exactly one message on the
  write end of the pipe the client has sent: the metadata of the file and the transaction id, or an
  error; and what the client decodes from the answer is what the server has stored. The exception is a request with an empty name, which the server drops. The rest
  of the theory follows a transaction further: sending an open file.
\<close>

section \<open>Writing\<close>

text \<open>The messages a process has tried to write, with their descriptors.\<close>

fun writes :: "history \<Rightarrow> (fd \<times> byte list) list" where
  "writes [] = []"
| "writes ((SysWrite fd bs, r) # h) = (fd, bs) # writes h"
| "writes (c # h) = writes h"

lemma writes_append [simp]: "writes (h @ g) = writes h @ writes g"
  by (induction h rule: writes.induct) auto

lemma writes_single [simp]:
  "writes [(SysWrite fd bs, r)] = [(fd, bs)]" "\<not> is_write c \<Longrightarrow> writes [(c, r)] = []"
  by (cases c; simp)+

text \<open>Nothing has been written, and \<open>errno\<close> is a value that can be reported.\<close>

definition silent :: "(fd \<times> byte list) list \<Rightarrow> 'm proc_scheme \<Rightarrow> bool" where
  "silent W s \<longleftrightarrow> writes (trace s) = W \<and> 0 < errno s \<and> errno s \<le> 0xFF"

lemma silent_set_errno [stable_intros]: "0 < e \<Longrightarrow> e \<le> 0xFF \<Longrightarrow> stable (silent W) (set_errno e)"
  by (simp add: stable_def silent_def wp_simps)

lemma silent_PRESERVE_ERRNO [stable_intros]: "stable (silent W) m \<Longrightarrow> stable (silent W) (PRESERVE_ERRNO m)"
  unfolding stable_def wp_PRESERVE_ERRNO by (auto simp: silent_def intro: wp_mono)

lemma silent_syscall [stable_intros]: "errno_range os \<Longrightarrow> \<not> is_write c \<Longrightarrow> stable (silent W) (syscall os c)"
  by (simp add: stable_def silent_def wp_syscall errno_call_state errno_range_def)

lemma silent_close [stable_intros]: "errno_range os \<Longrightarrow> stable (silent W) (close_fd os fd)"
  unfolding close_fd_def by (intro stable_intros) simp_all

lemma silent_heap [stable_intros]: "stable (silent W) (modP (\<lambda>s. s\<lparr>heap := f s\<rparr>))"
  by (simp add: stable_def silent_def wp_simps)

lemma silent_mod_srv [stable_intros]: "stable (silent W) (mod_srv f)"
  by (simp add: stable_def silent_def mod_srv_def wp_simps)

lemma silent_get [stable_intros]:
  "stable (silent W) (get_xfer p)" "stable (silent W) (get_timer p)" "stable (silent W) (upd_timer p g)"
  "stable (silent W) (free_obj p)"
  by (auto simp: stable_def silent_def wp_simps split: option.splits resrc.splits)

lemma silent_tables [stable_intros]:
  "stable (silent W) (insert_xfer p)" "stable (silent W) (erase_xfer tx)"
  "stable (silent W) (insert_timer p)" "stable (silent W) (erase_timer tx)"
  unfolding insert_xfer_def erase_xfer_def insert_timer_def erase_timer_def by (intro stable_intros)+

lemma silent_resources [stable_intros]:
  assumes "errno_range os"
  shows "stable (silent W) (malloc_obj os n obj)" "stable (silent W) (xfer_new os c f k pid a b tx)"
    "stable (silent W) (delete_xfer_and_close_file_fd os p)" "stable (silent W) (timer_delete os p)"
    "stable (silent W) (delete_unregistered_xfer os p)" "stable (silent W) (register_xfer os p)"
  unfolding malloc_obj_def xfer_new_def delete_xfer_and_close_file_fd_def xfer_delete_def timer_delete_def
    fio_ctx_delete_def delete_unregistered_xfer_def register_xfer_def syspoll_register_def
  by (intro stable_intros assms; simp add: errno_defs)+

lemma silent_file_open_read [stable_intros]:
  assumes "errno_range os"
  shows "stable (silent W) (file_open_read os name off len)"
  unfolding file_open_read_def stat_file_def lock_file_def Let_def
  by (intro stable_intros assms; simp add: errno_defs)

lemma silent_add [stable_intros]:
  assumes "errno_range os"
  shows "stable (silent W) (add_xfer os req pid a b)"
  unfolding add_xfer_def store_xfer_def
  by (intro stable_intros assms; simp add: errno_defs)

lemma silent_open [stable_intros]:
  assumes "errno_range os"
  shows "stable (silent W) (add_open_file os req pid a)"
  unfolding add_open_file_def open_timer_def syspoll_timer_def syspoll_register_def
  by (intro stable_intros assms; simp)

section \<open>Answers\<close>

text \<open>An answer the client takes for an error, and one that announces the transfer \<open>x\<close>, whatever follows
  in the client's buffer.\<close>

definition error_reply :: "byte list \<Rightarrow> bool" where
  "error_reply bs \<longleftrightarrow> sfd_get_stat bs \<noteq> SFD_STAT_OK \<and> (\<forall>rest. sfd_unmarshal_file_info (bs @ rest) = None)"

definition announces :: "byte list \<Rightarrow> resrc_xfer \<Rightarrow> bool" where
  "announces bs x \<longleftrightarrow> (\<forall>rest. \<exists>info. sfd_unmarshal_file_info (bs @ rest) = Some info \<and>
     fi_size info = nbytes_left x \<and> fi_txnid info = txnid x)"

lemma reportable: "0 < e \<Longrightarrow> e \<le> 0xFF \<Longrightarrow> (word_of_int e :: byte) \<noteq> 0"
proof -
  assume e: "0 < e" "e \<le> 0xFF"
  then have "uint (word_of_int e :: byte) = e" by (simp add: uint_word_of_int)
  with e(1) show ?thesis by (metis less_irrefl unsigned_0)
qed

lemma error_sent:
  fixes s :: "'m sproc_scheme"
  assumes "pipe_atomic os" and "errno_range os" and "silent W s"
    and "\<And>r t bs. heap t = heap s \<Longrightarrow> srv t = srv s \<Longrightarrow> silent (W @ [(fd, bs)]) t \<Longrightarrow> error_reply bs \<Longrightarrow> Q r t"
  shows "wp never (send_req_err os fd (errno s)) Q s"
proof -
  let ?bs = "hdr_bytes \<lparr>hdr_cmd = SFD_FILE_INFO, hdr_stat = word_of_int (errno s)\<rparr>"
  have e: "0 < errno s" "errno s \<le> 0xFF" using assms(3) by (auto simp: silent_def)
  then have "error_reply ?bs"
    by (simp add: reportable error_reply_def hdr_bytes_def hdr_read_defs sfd_unmarshal_file_info_def SFD_STAT_OK_def)
  moreover have "silent (W @ [(fd, bs)]) (call_state os (SysWrite fd bs) s)" for bs
    using assms(2,3) by (simp add: silent_def errno_call_state errno_range_def)
  ultimately show ?thesis
    using e by (auto simp: wp_send [OF assms(1)] Let_def intro!: assms(4))
qed

lemma info_sent:
  fixes s :: "'m sproc_scheme"
  assumes "pipe_atomic os" and "errno_range os" and "silent W s" and "fs_size info = nbytes_left x"
    and "\<And>r t bs. heap t = heap s \<Longrightarrow> srv t = srv s \<Longrightarrow> silent (W @ [(fd, bs)]) t \<Longrightarrow> announces bs x \<Longrightarrow> Q r t"
  shows "wp never (send_file_info os fd (txnid x) info) Q s"
proof -
  let ?pdu = "prot_marshal_file_info (fs_size info) (fs_atime info) (fs_mtime info) (fs_ctime info) (txnid x)"
  have "sfd_unmarshal_file_info (file_info_bytes ?pdu @ rest) = Some ?pdu" for rest
    by (rule file_info.dec_enc) (simp add: prot_marshal_file_info_def)
  then have "announces (file_info_bytes ?pdu) x"
    using assms(4) by (simp add: announces_def prot_marshal_file_info_def)
  moreover have "silent (W @ [(fd, bs)]) (call_state os (SysWrite fd bs) s)" for bs
    using assms(2,3) by (simp add: silent_def errno_call_state errno_range_def)
  ultimately show ?thesis
    by (auto simp: wp_send [OF assms(1)] Let_def intro!: assms(5))
qed

text \<open>A request from process \<open>pid\<close> has been answered on \<open>fd\<close>: one message has been written. If the request
  was accepted, there is one transfer more, which the message announces; otherwise the heap is as it was.\<close>

definition answered :: "byte \<Rightarrow> size_t \<Rightarrow> pid_t \<Rightarrow> fd \<Rightarrow> 'm sproc_scheme \<Rightarrow> bool \<Rightarrow> 'm sproc_scheme \<Rightarrow> bool" where
  "answered c len pid fd s ok t \<longleftrightarrow> server_inv t \<and>
     (\<exists>reply. writes (trace t) = writes (trace s) @ [(fd, reply)] \<and>
        (if ok then \<exists>p x. heap s p = None \<and> heap t p = Some (RXfer x) \<and> announces reply x \<and>
             cmd x = c \<and> client_pid x = pid \<and> stat_fd x = fd \<and> xdefer x = NONE \<and> (len \<noteq> 0 \<longrightarrow> nbytes_left x = len) \<and>
             (\<forall>q. heap s q \<noteq> None \<longrightarrow> heap t q = heap s q) \<and>
             (\<forall>q y. heap t q = Some (RXfer y) \<longrightarrow> q = p \<or> heap s q = Some (RXfer y))
         else error_reply reply \<and> heap t = heap s))"

lemma unregistered_dropped:
  fixes s :: "'m sproc_scheme"
  assumes "server_inv s" and "heap s p = Some (RXfer x)" and "xdefer x = NONE" and "errno_range os" and "silent W s"
    and "\<And>t. server_inv t \<Longrightarrow> heap t = (heap s)(p := None) \<Longrightarrow> silent W t \<Longrightarrow> Q () t"
  shows "wp never (delete_unregistered_xfer os p) Q s"
proof -
  have inv: "sinv {} (heap s) (srv s)" using assms(1) by (simp add: server_inv_def)
  have out: "p \<notin> set (deferred_list (srv s))" using sinv_flag [OF inv assms(2)] assms(3) by simp
  have "wp never (delete_unregistered_xfer os p) (\<lambda>_ t. silent W t \<and> server_inv t \<and> heap t = (heap s)(p := None)) s"
    by (rule wp_conj_strong [OF stableD [OF silent_resources(5) [OF assms(4)] assms(5)]])
      (use sinv_deleted [OF inv assms(2) out] in \<open>simp add: wp_delete_unregistered [OF inv assms(2) out] server_inv_def\<close>)
  then show ?thesis by (rule wp_mono) (use assms(6) in auto)
qed

lemma registered_silently:
  fixes s :: "'m sproc_scheme"
  assumes "heap s p = Some (RXfer x)" and "errno_range os" and "silent W s"
  shows "wp never (register_xfer os p) (\<lambda>_ t. silent W t \<and> heap t = heap s \<and> srv t = srv s) s"
  by (rule wp_conj_strong [OF stableD [OF silent_resources(6) [OF assms(2)] assms(3)]])
    (simp add: register_xfer_def wp_simps Let_def assms(1))

text \<open>The new transfer \<open>x\<close> at \<open>p\<close> is the only change, apart from a timer.\<close>

lemma answered_ok:
  assumes "server_inv t" and "writes (trace t) = writes (trace s) @ [(stat_fd x, reply)]" and "announces reply x"
    and "heap s p = None" and "heap t = (heap s)(p \<mapsto> RXfer x) \<or>
      (\<exists>tp tm. heap s tp = None \<and> tp \<noteq> p \<and> heap t = (heap s)(p \<mapsto> RXfer x, tp \<mapsto> RTimer tm))"
    and "len \<noteq> 0 \<longrightarrow> nbytes_left x = len" and "xdefer x = NONE"
  shows "answered (cmd x) len (client_pid x) (stat_fd x) s True t"
proof -
  have "heap t p = Some (RXfer x)" "\<forall>q. heap s q \<noteq> None \<longrightarrow> heap t q = heap s q"
    "\<forall>q y. heap t q = Some (RXfer y) \<longrightarrow> q = p \<or> heap s q = Some (RXfer y)"
    using assms(4,5) by (auto split: if_splits)
  with assms show ?thesis unfolding answered_def by auto
qed

text \<open>The end of a request for a transfer, once the transfer has been stored.\<close>

lemma stored_answered:
  fixes s t :: "'m sproc_scheme"
  assumes os: "pipe_atomic os" "errno_range os" and t: "silent (writes (trace s)) t" "server_inv t"
    and p: "heap s p = None" "heap t = (heap s)(p \<mapsto> RXfer x)" "fs_size info = nbytes_left x"
    and x: "xdefer x = NONE" "len \<noteq> 0 \<longrightarrow> nbytes_left x = len"
  shows "wp never (bindP (register_xfer os p) (\<lambda>ok. bindP (get_xfer p) (\<lambda>x.
       if \<not> ok then bindP (getP errno) (\<lambda>e. seqP (send_req_err os (stat_fd x) e)
         (seqP (delete_unregistered_xfer os p) (ret False)))
       else seqP (send_file_info os (stat_fd x) (txnid x) info) (ret True))))
    (answered (cmd x) len (client_pid x) (stat_fd x) s) t" (is "wp _ (bindP _ ?rest) ?Q _")
proof (rule wp_seq_rule [OF registered_silently [OF _ os(2) t(1), of p x]])
  show "heap t p = Some (RXfer x)" using p by simp
  fix ok and u :: "'m sproc_scheme"
  assume u: "silent (writes (trace s)) u \<and> heap u = heap t \<and> srv u = srv t"
  then have inv: "server_inv u" and hp: "heap u p = Some (RXfer x)" using t(2) p by (simp_all add: server_inv_def)
  have "wp never (send_req_err os (stat_fd x) (errno u)) (\<lambda>_. wp never (delete_unregistered_xfer os p) (\<lambda>_. ?Q False)) u"
    by (rule error_sent [OF os], use u in blast, rule unregistered_dropped [OF _ _ x(1) os(2)])
      (use u inv p hp in \<open>auto simp: answered_def server_inv_def silent_def fun_upd_idem\<close>)
  moreover have "wp never (send_file_info os (stat_fd x) (txnid x) info) (\<lambda>_. ?Q True) u"
    by (rule info_sent [OF os, of "writes (trace s)"], use u p in blast, use p in simp, rule answered_ok)
      (use u inv p x in \<open>auto simp: server_inv_def silent_def\<close>)
  ultimately show "wp never (?rest ok) ?Q u" using hp by (simp add: wp_simps)
qed

lemma request_transfer_answered:
  fixes s :: "'m sproc_scheme"
  assumes "server_inv s" and os: "pipe_atomic os" "errno_range os" and "silent (writes (trace s)) s"
    and pdu: "prot_unmarshal_request buf sz = Inr pdu" "rq_cmd pdu \<in> {PROT_CMD_READ, PROT_CMD_SEND}"
  shows "wp never (request_transfer os buf sz pid fds) (answered (rq_cmd pdu) (rq_len pdu) pid (fds ! 0) s) s"
    (is "wp _ _ ?Q _")
  unfolding request_transfer_def pdu(1) sum.case
proof (rule wp_seq_rule)
  let ?W = "writes (trace s)" and ?dfd = "if rq_cmd pdu = PROT_CMD_SEND then fds ! 1 else fds ! 0"
  have fit: "fds_fit pdu (fds ! 0) ?dfd" using pdu(2) by (auto simp: fds_fit_def cmd_defs)
  show "wp never (add_xfer os pdu pid (fds ! 0) ?dfd) (\<lambda>r t. silent ?W t \<and> add_post pdu pid (fds ! 0) ?dfd s r t) s"
    by (rule wp_conj_strong [OF stableD [OF silent_add [OF os(2)] assms(4)] add_xfer_post [OF assms(1) fit]])
  fix r and t :: "'m sproc_scheme" assume t: "silent ?W t \<and> add_post pdu pid (fds ! 0) ?dfd s r t"
  show "wp never (case r of None \<Rightarrow> bindP (getP errno) (\<lambda>e. seqP (send_req_err os (fds ! 0) e) (ret False))
       | Some (p, finfo) \<Rightarrow> bindP (register_xfer os p) (\<lambda>ok. bindP (get_xfer p) (\<lambda>x.
           if \<not> ok then bindP (getP errno) (\<lambda>e. seqP (send_req_err os (stat_fd x) e)
             (seqP (delete_unregistered_xfer os p) (ret False)))
           else seqP (send_file_info os (stat_fd x) (txnid x) finfo) (ret True)))) ?Q t"
  proof (cases r)
    case None
    have "wp never (send_req_err os (fds ! 0) (errno t)) (\<lambda>_. ?Q False) t"
      by (rule error_sent [OF os], use t in blast)
        (use t None in \<open>auto simp: add_post_def unchanged_def answered_def server_inv_def silent_def\<close>)
    with None show ?thesis by (simp add: wp_simps)
  next
    case (Some pi)
    with t obtain p info f where pi: "pi = (p, info)" "server_inv t" "heap s p = None" "fs_size info = xf_size f"
      "heap t = (heap s)(p \<mapsto> RXfer (new_xfer (rq_cmd pdu) f pid (fds ! 0) ?dfd (next_txnid (srv s))))"
      "rq_len pdu \<noteq> 0 \<longrightarrow> xf_size f = rq_len pdu"
      by (cases pi) (auto simp: add_post_def added_def stored_def)
    then show ?thesis
      using stored_answered [OF os _ pi(2,3,5), of info "rq_len pdu"] t Some by simp
  qed
qed

lemma request_file_open_answered:
  fixes s :: "'m sproc_scheme"
  assumes "server_inv s" and os: "pipe_atomic os" "errno_range os" and "silent (writes (trace s)) s"
    and pdu: "prot_unmarshal_request buf sz = Inr pdu" "rq_cmd pdu = PROT_CMD_FILE_OPEN"
  shows "wp never (request_file_open os buf sz pid fds) (answered (rq_cmd pdu) (rq_len pdu) pid (fds ! 0) s) s"
    (is "wp _ _ ?Q _")
  unfolding request_file_open_def pdu(1) sum.case
proof (rule wp_seq_rule)
  let ?W = "writes (trace s)"
  show "wp never (add_open_file os pdu pid (fds ! 0)) (\<lambda>r t. silent ?W t \<and> open_post pdu pid (fds ! 0) s r t) s"
    by (rule wp_conj_strong [OF stableD [OF silent_open [OF os(2)] assms(4)] add_open_file_post [OF assms(1) pdu(2)]])
  fix r and t :: "'m sproc_scheme" assume t: "silent ?W t \<and> open_post pdu pid (fds ! 0) s r t"
  show "wp never (case r of None \<Rightarrow> bindP (getP errno) (\<lambda>e. seqP (send_req_err os (fds ! 0) e) (ret False))
       | Some (tp, finfo) \<Rightarrow> bindP (get_timer tp) (\<lambda>tm. seqP (send_file_info os (fds ! 0) (tm_txnid tm) finfo) (ret True))) ?Q t"
  proof (cases r)
    case None
    have "wp never (send_req_err os (fds ! 0) (errno t)) (\<lambda>_. ?Q False) t"
      by (rule error_sent [OF os], use t in blast)
        (use t None in \<open>auto simp: open_post_def answered_def server_inv_def silent_def\<close>)
    with None show ?thesis by (simp add: wp_simps)
  next
    case (Some ti)
    let ?x = "\<lambda>f. new_xfer (rq_cmd pdu) f pid (fds ! 0) (-1) (next_txnid (srv s))"
    from Some t obtain tp info p f id where ti: "ti = (tp, info)" "server_inv t" "heap s p = None" "heap s tp = None" "p \<noteq> tp"
      "heap t = (heap s)(p \<mapsto> RXfer (?x f), tp \<mapsto> RTimer (new_timer id (next_txnid (srv s)) p))"
      "fs_size info = xf_size f" "rq_len pdu \<noteq> 0 \<longrightarrow> xf_size f = rq_len pdu"
      by (cases ti) (auto simp: open_post_def)
    have ans: "?Q True u" if "heap u = heap t" "srv u = srv t" "silent (?W @ [(fds ! 0, bs)]) u" "announces bs (?x f)" for u bs
    proof -
      have "\<exists>tp tm. heap s tp = None \<and> tp \<noteq> p \<and> heap u = (heap s)(p \<mapsto> RXfer (?x f), tp \<mapsto> RTimer tm)"
        using ti that(1) by metis
      then show ?thesis
        using answered_ok [of u s "?x f" bs p "rq_len pdu"] that ti by (simp add: server_inv_def silent_def)
    qed
    have "wp never (send_file_info os (fds ! 0) (txnid (?x f)) info) (\<lambda>_. ?Q True) t"
      by (rule info_sent [OF os, of ?W], use t in blast, use ti in simp, use ans in blast)
    then show ?thesis using Some ti by (simp add: wp_simps new_timer_def)
  qed
qed

text \<open>The dispatch of a request that asks for a file.\<close>

lemma file_request_answered:
  fixes s :: "'m sproc_scheme"
  assumes "server_inv s" and os: "pipe_atomic os" "errno_range os" and "0 < errno s" and "errno s \<le> 0xFF"
    and "understood c off len name data" and c: "c \<in> {PROT_CMD_SEND, PROT_CMD_READ, PROT_CMD_FILE_OPEN}"
  shows "wp never (process_request os (data @ rest) (length data) pid fds) (answered c len pid (fds ! 0) s) s"
proof -
  have silent: "silent (writes (trace s)) s" using assms(4,5) by (simp add: silent_def)
  obtain pdu where pdu: "prot_unmarshal_request (data @ rest) (length data) = Inr pdu" "rq_cmd pdu = c" "rq_len pdu = len"
    using assms(6) unfolding understood_def by blast
  have cmd: "sfd_get_cmd (data @ rest) = c" using unmarshal_request_cmd [OF pdu(1)] pdu(2) by simp
  have stat: "sfd_get_stat (data @ rest) = SFD_STAT_OK"
    using pdu(1) by (auto simp: prot_unmarshal_request_def Let_def split: if_splits)
  show ?thesis
  proof (cases "c = PROT_CMD_FILE_OPEN")
    case True
    then have "(process_request os (data @ rest) (length data) pid fds :: ('m sproc_scheme, bool) prog) =
        request_file_open os (data @ rest) (length data) pid fds"
      unfolding process_request_def cmd stat by (simp add: cmd_defs PROT_IS_REQUEST_def)
    then show ?thesis
      using request_file_open_answered [OF assms(1) os silent pdu(1), of pid fds] pdu True by simp
  next
    case False
    then have "(process_request os (data @ rest) (length data) pid fds :: ('m sproc_scheme, bool) prog) =
        request_transfer os (data @ rest) (length data) pid fds"
      unfolding process_request_def cmd stat using c by (auto simp: cmd_defs PROT_IS_REQUEST_def)
    then show ?thesis
      using request_transfer_answered [OF assms(1) os silent pdu(1), of pid fds] pdu c False by auto
  qed
qed

text \<open>A request for a file with an empty name is shorter than the server accepts: it is dropped without an answer.\<close>

definition handled :: "byte list \<Rightarrow> byte \<Rightarrow> size_t \<Rightarrow> pid_t \<Rightarrow> fd \<Rightarrow> 'm sproc_scheme \<Rightarrow> bool \<Rightarrow> 'm sproc_scheme \<Rightarrow> bool" where
  "handled name c len pid fd s ok t \<longleftrightarrow> (if name = [] then \<not> ok \<and> t = s else answered c len pid fd s ok t)"

lemma nameless_ignored:
  fixes s :: "'m sproc_scheme"
  assumes "marshal_req c off len (Some (0 # mem)) = Inr req" and c: "c \<in> {PROT_CMD_SEND, PROT_CMD_READ, PROT_CMD_FILE_OPEN}"
  shows "wp never (process_request os (REQ_IOVS req @ rest) (length (REQ_IOVS req)) pid fds) (\<lambda>ok t. \<not> ok \<and> t = s) s"
proof -
  have req: "rq_cmd req = c" "rq_stat req = SFD_STAT_OK" "length (REQ_IOVS req) < PROT_REQ_MINSIZE"
    using assms(1) marshal_req_Inr [of "[]" c off len mem]
    by (auto simp: REQ_IOVS_def request_base_bytes_def pad6_def size_defs)
  then have "prot_unmarshal_request (REQ_IOVS req @ rest) (length (REQ_IOVS req)) = Inl None" by (simp add: prot_unmarshal_request_def)
  moreover have "sfd_get_cmd (REQ_IOVS req @ rest) = c" "sfd_get_stat (REQ_IOVS req @ rest) = SFD_STAT_OK"
    using req by (simp_all add: REQ_IOVS_def request_base_bytes_def hdr_read_defs)
  ultimately show ?thesis
    using c by (auto simp: process_request_def request_transfer_def request_file_open_def cmd_defs PROT_IS_REQUEST_def wp_simps)
qed

lemma file_request_handled:
  fixes s :: "'m sproc_scheme"
  assumes "0 \<notin> set name" and "length name \<le> PROT_FILENAME_MAX"
    and "server_inv s" and "pipe_atomic os" and "errno_range os" and "0 < errno s" and "errno s \<le> 0xFF"
    and "c \<in> {PROT_CMD_SEND, PROT_CMD_READ, PROT_CMD_FILE_OPEN}" and "length dest < PROT_MAXFDS"
  shows "wp never (request_with_pipe cos sock (marshal_req c off len (Some (name @ 0 # mem))) dest nonblock) (\<lambda>r c'. r = -1 \<or>
      (\<exists>data. asked cos sock data dest nonblock ct r c' \<and> (\<forall>rest pid fds.
        wp never (process_request os (data @ rest) (length data) pid fds) (handled name c len pid (fds ! 0) s) s))) ct"
proof (cases "name = []")
  case True
  note ignored = nameless_ignored [OF _ assms(8), of off len mem _ os _ _ _ s]
  show ?thesis
    unfolding handled_def True by (rule wp_mono [OF request_with_pipe_post [OF assms(9)]]) (use ignored in auto)
next
  case False
  note answer = file_request_answered [OF assms(3-7) _ assms(8)]
  show ?thesis
    unfolding handled_def
    by (rule wp_mono [OF request_post [OF assms(1) False assms(2,8,9)]]) (use False answer in auto)
qed

section \<open>Sending an open file\<close>

text \<open>The destination of a transfer has been set and registered; or the poller has refused it, and then
  the transfer is gone and its status channel has been told.\<close>

definition sent_open :: "addr \<Rightarrow> resrc_xfer \<Rightarrow> fd \<Rightarrow> 'm sproc_scheme \<Rightarrow> bool \<Rightarrow> 'm sproc_scheme \<Rightarrow> bool" where
  "sent_open p x fd s ok t \<longleftrightarrow> server_inv t \<and>
     (if ok then heap t = (heap s)(p \<mapsto> RXfer (x\<lparr>cmd := PROT_CMD_SEND, dest_fd := fd\<rparr>)) \<and>
        trace t = trace s @ [(SysEpollAdd (epollfd (poller (srv s))) fd (epoll_mask SYSPOLL_WRITE) (URes p), 0)]
      else heap t = (heap s)(p := None) \<and> (\<exists>bs. writes (trace t) = writes (trace s) @ [(stat_fd x, bs)] \<and>
        (\<forall>rest. sfd_unmarshal_xfer_stat (bs @ rest) = None)))"

lemma send_open_received:
  fixes s :: "'m sproc_scheme"
  assumes "server_inv s" and "heap s p = Some (RXfer x)" and "xdefer x = NONE" and "client_pid x \<in> {US_INVALID_PID, pid}"
    and os: "pipe_atomic os" "errno_range os" and "0 < errno s" and "errno s \<le> 0xFF"
  shows "wp never (process_request os (send_open_bytes (prot_marshal_send_open (txnid x)) @ rest) n pid fds)
    (sent_open p x (fds ! 0) s) s"
proof -
  let ?buf = "send_open_bytes (prot_marshal_send_open (txnid x)) @ rest" and ?x = "x\<lparr>cmd := PROT_CMD_SEND, dest_fd := fds ! 0\<rparr>"
  let ?c = "SysEpollAdd (epollfd (poller (srv s))) (fds ! 0) (epoll_mask SYSPOLL_WRITE) (URes p)"
  let ?u = "(call_state os ?c s)\<lparr>heap := (heap s)(p \<mapsto> RXfer ?x)\<rparr>"
  have inv: "sinv {} (heap s) (srv s)" using assms(1) by (simp add: server_inv_def)
  have find: "xfer_table_find (xfers (srv s)) (txnid x) = Some (Some p)"
    using tbl.find_item [OF sinv_tables(1) [OF inv], of p] sinv_tables(2) [OF inv] assms(2)
    by (simp add: resrc_xfer_txnid_def)
  have p: "p \<noteq> 0" using sinv_heap [OF inv assms(2)] by simp
  have "resrc_wf (RXfer ?x)" using sinv_heap [OF inv assms(2)] by (auto simp: cmd_defs)
  then have upd: "sinv {} ((heap s)(p \<mapsto> RXfer ?x)) (srv s)" by (intro sinv_upd_xfer [OF inv assms(2)]) simp_all
  have dec: "prot_unmarshal_send_open ?buf = Some (prot_marshal_send_open (txnid x))"
    by (rule send_open.dec_enc) (simp add: prot_marshal_send_open_def)
  have hdr: "sfd_get_cmd ?buf = PROT_CMD_SEND_OPEN" "sfd_get_stat ?buf = SFD_STAT_OK"
    by (simp_all add: send_open_bytes_def prot_marshal_send_open_def hdr_read_defs)
  have disp: "(process_request os ?buf n pid fds :: ('m sproc_scheme, bool) prog) = request_send_open os ?buf pid fds"
    unfolding process_request_def hdr by (simp add: cmd_defs PROT_IS_REQUEST_def)
  have tx: "so_txnid (prot_marshal_send_open (txnid x)) = txnid x" by (simp add: prot_marshal_send_open_def)
  have silent: "silent (writes (trace s)) ?u"
    using assms(7,8) os(2) by (simp add: silent_def errno_call_state errno_range_def)
  then have "wp never (send_xfer_err os (stat_fd x) (errno ?u))
      (\<lambda>_. wp never (delete_unregistered_xfer os p) (\<lambda>_. sent_open p x (fds ! 0) s False)) ?u"
    unfolding wp_send [OF os(1)] Let_def
    by (intro unregistered_dropped [where x = ?x and os = os, OF _ _ _ os(2)])
      (use upd assms(3) os(2) in \<open>auto simp: server_inv_def silent_def sent_open_def errno_call_state errno_range_def reportable
        hdr_bytes_def hdr_read_defs sfd_unmarshal_xfer_stat_def SFD_STAT_OK_def\<close>)
  moreover have "sent_open p x (fds ! 0) s True ?u" if "fst (sys os (trace s) ?c) = 0"
    using upd that by (simp add: sent_open_def server_inv_def)
  ultimately show ?thesis
    using assms(2,3,4) find p
    by (auto simp: disp request_send_open_def dec tx get_open_file_def find_xfer_def register_xfer_def
        wp_simps Let_def)
qed

section \<open>Properties\<close>

text \<open>C14: Asking for a file works from end to end, for every file name a client can give (\<open>length name \<le> PROT_FILENAME_MAX\<close>;
  longer ones are refused by the client library). When \<open>sfd_read\<close>, \<open>sfd_send\<close> or \<open>sfd_open\<close> returns a
  descriptor, it has sent one datagram with the write end of its pipe. When the server handles that
  datagram, whatever the rest of its buffer holds, one of two things happens (\<open>handled\<close>). If the name is not empty, the server writes
  exactly one message to the descriptor it received (\<open>answered\<close>). Either the request is refused: then the client takes the message for an error, and no
  resource has been kept; or there is one new transfer, that of the client, and the
  transaction id and the size the client reads from the message are those of that transfer, the size
  being the length asked for if one was given. If the name is empty, the client library sends the request all the same, and the
  server drops it: its handling writes no message, makes no call and changes no state; the result tells the caller to close the descriptors, so the client reads the end of its pipe and no error.\<close>

theorem request_end_to_end:
  assumes "0 \<notin> set name" and "length name \<le> PROT_FILENAME_MAX"
    and "server_inv s" and "pipe_atomic os" and "errno_range os" and "0 < errno s" and "errno s \<le> 0xFF"
  shows "wp never (sfd_read cos sock (Some (name @ 0 # mem)) off len nonblock) (\<lambda>r c'. r = -1 \<or>
      (\<exists>data. asked cos sock data [] nonblock c r c' \<and> (\<forall>rest pid fds.
        wp never (process_request os (data @ rest) (length data) pid fds) (handled name PROT_CMD_READ len pid (fds ! 0) s) s))) c \<and>
    wp never (sfd_send cos sock (Some (name @ 0 # mem)) dfd off len nonblock) (\<lambda>r c'. r = -1 \<or>
      (\<exists>data. asked cos sock data [dfd] nonblock c r c' \<and> (\<forall>rest pid fds.
        wp never (process_request os (data @ rest) (length data) pid fds) (handled name PROT_CMD_SEND len pid (fds ! 0) s) s))) c \<and>
    wp never (sfd_open cos sock (Some (name @ 0 # mem)) off len nonblock) (\<lambda>r c'. r = -1 \<or>
      (\<exists>data. asked cos sock data [] nonblock c r c' \<and> (\<forall>rest pid fds.
        wp never (process_request os (data @ rest) (length data) pid fds) (handled name PROT_CMD_FILE_OPEN len pid (fds ! 0) s) s))) c"
  unfolding request_eqs prot_marshal_send_def prot_marshal_read_def prot_marshal_file_open_def
  by (intro conjI file_request_handled [OF assms]) (simp_all add: PROT_MAXFDS_def)

definition serving_state :: sproc where
  "serving_state = (example_state READY)\<lparr>errno := EAGAIN\<rparr>"

theorem request_end_to_end_witness:
  "wp never (sfd_read quiet_os 9 (Some ([97, 98] @ 0 # [])) 5 7 True) (\<lambda>r c'. r = -1 \<or>
     (\<exists>data. asked quiet_os 9 data [] True proc0 r c' \<and> (\<forall>rest pid fds.
       wp never (process_request quiet_os (data @ rest) (length data) pid fds)
         (answered PROT_CMD_READ 7 pid (fds ! 0) serving_state) serving_state))) proc0 \<and>
   wp never (sfd_read quiet_os 9 (Some ([] @ 0 # [])) 5 7 True) (\<lambda>r c'. r = -1 \<or>
     (\<exists>data. asked quiet_os 9 data [] True proc0 r c' \<and> (\<forall>rest pid fds.
       wp never (process_request quiet_os (data @ rest) (length data) pid fds) (\<lambda>ok t. \<not> ok \<and> t = serving_state) serving_state))) proc0"
proof -
  have "server_inv serving_state" using example_inv [of READY] by (simp add: serving_state_def server_inv_def)
  note served = request_end_to_end [OF _ _ this quiet_os_ok, of _ quiet_os 9 "[]" 5 7 True proc0 0]
  from served [of "[97, 98]"] served [of "[]"] show ?thesis
    by (simp add: PROT_FILENAME_MAX_def serving_state_def EAGAIN_def handled_def [abs_def])
qed

text \<open>C16: Sending an open file works from end to end. When \<open>sfd_send_open\<close> returns true it has sent a
  datagram with the destination; when the server handles that datagram and the transaction id names
  an open file of the same client that is neither cancelled nor waiting, then either that transfer, and nothing
  else, has become a transfer to the destination received, by one call that registers it with the
  poller; or the poller has refused it: then the transfer has been deleted and the client is told by an
  error on its status channel.\<close>

theorem send_open_end_to_end:
  assumes "server_inv s" and "heap s p = Some (RXfer x)" and "xdefer x = NONE" and "client_pid x \<in> {US_INVALID_PID, pid}"
    and "pipe_atomic os" and "errno_range os" and "0 < errno s" and "errno s \<le> 0xFF"
  shows "wp never (sfd_send_open cos sock (txnid x) dfd) (\<lambda>sent c'. sent \<longrightarrow>
    (\<exists>data u. SysSendmsg sock data [SCM_RIGHTS [dfd], SCM_CREDENTIALS u] \<in> set (calls_since c c') \<and>
       (\<forall>rest. wp never (process_request os (data @ rest) (length data) pid fds) (sent_open p x (fds ! 0) s) s))) c"
proof -
  have "length [dfd] \<le> PROT_MAXFDS" by (simp add: PROT_MAXFDS_def)
  then show ?thesis
    using send_open_received [OF assms] by (auto simp: sfd_send_open_def wp_simps wp_us_sendv attached_def identified_def)
qed

theorem send_open_end_to_end_witness:
  "wp never (sfd_send_open quiet_os 9 1 3) (\<lambda>sent c'. sent \<longrightarrow>
    (\<exists>data u. SysSendmsg 9 data [SCM_RIGHTS [3], SCM_CREDENTIALS u] \<in> set (calls_since proc0 c') \<and>
       (\<forall>rest. wp never (process_request quiet_os (data @ rest) (length data) 42 [7]) (sent_open 16 (example_xfer NONE) 7
         ((example_state NONE)\<lparr>errno := EAGAIN\<rparr>)) ((example_state NONE)\<lparr>errno := EAGAIN\<rparr>)))) proc0"
proof -
  have "server_inv ((example_state NONE)\<lparr>errno := EAGAIN\<rparr>)" using example_inv [of NONE] by (simp add: server_inv_def)
  from send_open_end_to_end [OF this _ _ _ quiet_os_ok, of 16 "example_xfer NONE" 42 quiet_os 9 3 proc0 "[7]"] show ?thesis
    by (simp add: example_defs EAGAIN_def)
qed

end
