(* ===== verification/Sfd_Splice.thy ===== *)
theory Sfd_Splice
  imports Sfd_File_IO
begin

text \<open>
  Moving data on systems without \<open>splice(2)\<close>: \<open>impl/file_io_userspace_splice.c\<close> and
  \<open>impl/file_io_freebsd.c\<close>. The data passes through a buffer with a read and a write index, which
  start over when the buffer is drained. The locale \<open>byte_queue\<close> is the contract of the buffer; it is
  interpreted on the buffer of the code, and the operations of the code are shown to move bytes in
  order, losing and repeating none.
\<close>

section \<open>The buffer\<close>

text \<open>The capacity of the buffer is the length of \<open>fc_data\<close>; the two pointers are indices.\<close>

record fio_buf =
  fc_data :: "byte list"
  fc_rp :: nat
  fc_wp :: nat

definition fio_buf_new :: "bool \<Rightarrow> bool \<Rightarrow> nat \<Rightarrow> byte list \<Rightarrow> fio_buf option" where
  "fio_buf_new mok dok cap junk =
     (if \<not> mok then None
      else if \<not> dok then None
      else Some \<lparr>fc_data = take cap (junk @ replicate cap 0), fc_rp = 0, fc_wp = 0\<rparr>)"

definition fio_buf_valid :: "fio_buf option \<Rightarrow> bool" where
  "fio_buf_valid c \<longleftrightarrow> c \<noteq> None"

text \<open>Deleting a context reads its \<open>data\<close> pointer first.\<close>

definition fio_buf_delete :: "fio_buf option \<Rightarrow> ('s, unit) prog" where
  "fio_buf_delete c = (case c of None \<Rightarrow> undefP ''fio_ctx_delete(NULL)'' | Some _ \<Rightarrow> ret ())"

text \<open>Bytes read from a descriptor are stored at the write index; after a write the read index
  advances, and both start over when they meet.\<close>

definition buf_put :: "byte list \<Rightarrow> fio_buf \<Rightarrow> fio_buf" where
  "buf_put bs c = c\<lparr>fc_data := take (fc_wp c) (fc_data c) @ bs @ drop (fc_wp c + length bs) (fc_data c),
     fc_wp := fc_wp c + length bs\<rparr>"

definition buf_get :: "nat \<Rightarrow> fio_buf \<Rightarrow> fio_buf" where
  "buf_get n c = (let rp = fc_rp c + n in if rp = fc_wp c then c\<lparr>fc_rp := 0, fc_wp := 0\<rparr> else c\<lparr>fc_rp := rp\<rparr>)"

definition buf_room :: "fio_buf \<Rightarrow> nat" where
  "buf_room c = length (fc_data c) - fc_wp c"

definition buf_queue :: "fio_buf \<Rightarrow> byte list" where
  "buf_queue c = take (fc_wp c - fc_rp c) (drop (fc_rp c) (fc_data c))"

definition buf_inv :: "fio_buf \<Rightarrow> bool" where
  "buf_inv c \<longleftrightarrow> fc_rp c \<le> fc_wp c \<and> fc_wp c \<le> length (fc_data c)"

section \<open>The contract of a queue\<close>

locale byte_queue =
  fixes inv :: "'c \<Rightarrow> bool"
    and queue :: "'c \<Rightarrow> byte list"
    and room :: "'c \<Rightarrow> nat"
    and put :: "byte list \<Rightarrow> 'c \<Rightarrow> 'c"
    and get :: "nat \<Rightarrow> 'c \<Rightarrow> 'c"
  assumes put_inv: "inv c \<Longrightarrow> length bs \<le> room c \<Longrightarrow> inv (put bs c)"
    and put_queue: "inv c \<Longrightarrow> length bs \<le> room c \<Longrightarrow> queue (put bs c) = queue c @ bs"
    and get_inv: "inv c \<Longrightarrow> n \<le> length (queue c) \<Longrightarrow> inv (get n c)"
    and get_queue: "inv c \<Longrightarrow> n \<le> length (queue c) \<Longrightarrow> queue (get n c) = drop n (queue c)"
begin

text \<open>One transfer through the queue: bytes in, then a prefix of the contents out.\<close>

lemma through:
  assumes "inv c" and "length bs \<le> room c" and "n \<le> length (queue c) + length bs"
  shows "inv (get n (put bs c)) \<and> queue c @ bs = take n (queue c @ bs) @ queue (get n (put bs c))"
proof -
  have "n \<le> length (queue (put bs c))" using assms by (simp add: put_queue)
  then show ?thesis
    using assms append_take_drop_id [of n "queue (put bs c)"]
    by (metis get_inv get_queue put_inv put_queue)
qed

end

lemma buf_put_queue:
  assumes "buf_inv c" and "length bs \<le> buf_room c"
  shows "buf_queue (buf_put bs c) = buf_queue c @ bs"
proof -
  let ?k = "fc_wp c - fc_rp c"
  have le: "fc_rp c \<le> fc_wp c" "fc_wp c + length bs \<le> length (fc_data c)"
    using assms by (auto simp: buf_inv_def buf_room_def)
  then have "drop (fc_rp c) (take (fc_wp c) (fc_data c) @ bs @ drop (fc_wp c + length bs) (fc_data c)) =
      buf_queue c @ bs @ drop (fc_wp c + length bs) (fc_data c)"
    by (simp add: buf_queue_def drop_take)
  moreover have "length (buf_queue c) = ?k" using le by (simp add: buf_queue_def)
  ultimately show ?thesis
    using le unfolding buf_queue_def [of "buf_put bs c"] by (simp add: buf_put_def)
qed

lemma length_buf_queue: "buf_inv c \<Longrightarrow> length (buf_queue c) = fc_wp c - fc_rp c"
  by (auto simp: buf_queue_def buf_inv_def min_def)

interpretation buf: byte_queue buf_inv buf_queue buf_room buf_put buf_get
proof
  fix c bs n
  show "buf_inv (buf_put bs c)" if "buf_inv c" "length bs \<le> buf_room c"
    using that by (auto simp: buf_inv_def buf_put_def buf_room_def)
  show "buf_queue (buf_put bs c) = buf_queue c @ bs" if "buf_inv c" "length bs \<le> buf_room c"
    using that by (rule buf_put_queue)
  assume n: "buf_inv c" "n \<le> length (buf_queue c)"
  then show "buf_inv (buf_get n c)"
    by (auto simp: buf_inv_def buf_get_def length_buf_queue Let_def)
  show "buf_queue (buf_get n c) = drop n (buf_queue c)"
    using n by (auto simp: buf_get_def buf_queue_def Let_def drop_take add.commute)
qed

section \<open>Operations\<close>

record fproc = proc +
  fbuf :: fio_buf

text \<open>The first half: fill the buffer. \<open>None\<close> means go on, \<open>Some n\<close> that the function returns \<open>n\<close>.\<close>

definition splice_in :: "os \<Rightarrow> fd \<Rightarrow> nat \<Rightarrow> ('m fproc_scheme, int option) prog" where
  "splice_in os fd_in nbytes =
     bindP (getP fbuf) (\<lambda>ctx.
     if buf_room ctx > 0 then
       bindP (getP trace) (\<lambda>h.
       bindP (syscall os (SysRead fd_in (min nbytes (buf_room ctx)))) (\<lambda>nread.
       if nread = -1 \<or> nread = 0 then ret (Some nread)
       else let bs = take (nat nread) (os_data os h fd_in)
            in if length bs > buf_room ctx then undefP ''buffer overflow''
               else seqP (modP (\<lambda>s. s\<lparr>fbuf := buf_put bs (fbuf s)\<rparr>)) (ret None)))
     else ret None)"

definition splice_out :: "os \<Rightarrow> fd \<Rightarrow> ('m fproc_scheme, int) prog" where
  "splice_out os fd_out =
     bindP (getP fbuf) (\<lambda>ctx.
     if fc_rp ctx < fc_wp ctx then
       bindP (syscall os (SysWrite fd_out (buf_queue ctx))) (\<lambda>nwritten.
       if nwritten > 0 then
         seqP (modP (\<lambda>s. s\<lparr>fbuf := buf_get (nat nwritten) (fbuf s)\<rparr>)) (ret nwritten)
       else seqP (assertP (nwritten = 0 \<or> nwritten = -1) ''nwritten == 0 || nwritten == -1'') (ret nwritten))
     else ret 0)"

definition file_splice_userspace :: "os \<Rightarrow> fd \<Rightarrow> fd \<Rightarrow> nat \<Rightarrow> ('m fproc_scheme, int) prog" where
  "file_splice_userspace os fd_in fd_out nbytes =
     seqP (assertP (nbytes > 0) ''nbytes > 0'')
     (bindP (splice_in os fd_in nbytes) (\<lambda>r.
      case r of Some n \<Rightarrow> ret n | None \<Rightarrow> splice_out os fd_out))"

text \<open>FreeBSD's \<open>sendfile\<close> takes the offset as an argument, which is 0 here, and reports the number of
  bytes sent through a pointer.\<close>

definition file_sendfile_freebsd :: "os \<Rightarrow> fd \<Rightarrow> fd \<Rightarrow> size_t \<Rightarrow> ('m proc_scheme, int) prog" where
  "file_sendfile_freebsd os fd_in fd_out nbytes =
     seqP (assertP (nbytes > 0) ''nbytes > 0'')
     (bindP (getP trace) (\<lambda>h.
      bindP (syscall os (SysAdmin (SysSendfileBsd fd_in fd_out nbytes))) (\<lambda>r.
      if r = -1 then ret (-1) else ret (os_nsent os h))))"

section \<open>Rules\<close>

text \<open>\<open>read(2)\<close> and \<open>write(2)\<close> transfer no more than they are asked to, and \<open>read\<close> stores as many bytes as
  it reports.\<close>

definition io_bounded :: "os \<Rightarrow> bool" where
  "io_bounded os \<longleftrightarrow>
     (\<forall>h fd n. let r = fst (sys os h (SysRead fd n)) in -1 \<le> r \<and> r \<le> int n \<and> (0 < r \<longrightarrow> nat r \<le> length (os_data os h fd))) \<and>
     (\<forall>h fd bs. let r = fst (sys os h (SysWrite fd bs)) in -1 \<le> r \<and> r \<le> int (length bs))"

text \<open>The bytes that went in and out: the data of the reads and what the kernel took of the writes.\<close>

fun bytes_in :: "os \<Rightarrow> history \<Rightarrow> history \<Rightarrow> byte list" where
  "bytes_in os pre [] = []"
| "bytes_in os pre ((c, r) # h) =
     (case c of SysRead fd n \<Rightarrow> if 0 < r then take (nat r) (os_data os pre fd) else [] | _ \<Rightarrow> []) @ bytes_in os (pre @ [(c, r)]) h"

fun bytes_out :: "history \<Rightarrow> byte list" where
  "bytes_out [] = []"
| "bytes_out ((c, r) # h) = (case c of SysWrite fd bs \<Rightarrow> if 0 < r then take (nat r) bs else [] | _ \<Rightarrow> []) @ bytes_out h"

lemma bytes_append [simp]:
  "bytes_in os pre (g @ h) = bytes_in os pre g @ bytes_in os (pre @ g) h" "bytes_out (g @ h) = bytes_out g @ bytes_out h"
proof -
  show "bytes_in os pre (g @ h) = bytes_in os pre g @ bytes_in os (pre @ g) h"
    by (induction g arbitrary: pre) auto
  show "bytes_out (g @ h) = bytes_out g @ bytes_out h" by (induction g) auto
qed

text \<open>Everything that was in the buffer or has come in has gone out or is in the buffer, in this order.\<close>

definition conserved :: "os \<Rightarrow> 'm fproc_scheme \<Rightarrow> 'm fproc_scheme \<Rightarrow> bool" where
  "conserved os s t \<longleftrightarrow> buf_inv (fbuf t) \<and> (\<exists>h. trace t = trace s @ h \<and>
     buf_queue (fbuf s) @ bytes_in os (trace s) h = bytes_out h @ buf_queue (fbuf t))"

lemma conserved_trans: "conserved os s t \<Longrightarrow> conserved os t u \<Longrightarrow> conserved os s u"
proof -
  assume "conserved os s t" and u: "conserved os t u"
  then obtain h g where hg: "trace t = trace s @ h" "buf_queue (fbuf s) @ bytes_in os (trace s) h = bytes_out h @ buf_queue (fbuf t)"
    "trace u = trace t @ g" "buf_queue (fbuf t) @ bytes_in os (trace t) g = bytes_out g @ buf_queue (fbuf u)"
    by (auto simp: conserved_def)
  then have "buf_queue (fbuf s) @ bytes_in os (trace s) (h @ g) = bytes_out (h @ g) @ buf_queue (fbuf u)"
    by (metis append.assoc bytes_append)
  with hg u show "conserved os s u" by (auto simp: conserved_def)
qed

lemma conserved_inv: "conserved os s t \<Longrightarrow> buf_inv (fbuf t)"
  by (simp add: conserved_def)

lemma splice_in_post:
  assumes "io_bounded os" and "buf_inv (fbuf s)"
  shows "wp never (splice_in os fd n) (\<lambda>_ t. conserved os s t) s"
proof -
  let ?c = "SysRead fd (min n (buf_room (fbuf s)))"
  let ?r = "fst (sys os (trace s) ?c)"
  have r: "-1 \<le> ?r" "?r \<le> int (min n (buf_room (fbuf s)))" "0 < ?r \<Longrightarrow> nat ?r \<le> length (os_data os (trace s) fd)"
    using assms(1) unfolding io_bounded_def Let_def by blast+
  then have "length (take (nat ?r) (os_data os (trace s) fd)) \<le> buf_room (fbuf s)" by auto
  with assms(2) r show ?thesis
    by (auto simp: splice_in_def wp_simps Let_def conserved_def buf.put_inv buf.put_queue call_state_def)
qed

lemma splice_out_post:
  assumes "io_bounded os" and "buf_inv (fbuf s)"
  shows "wp never (splice_out os fd) (\<lambda>_ t. conserved os s t) s"
proof -
  let ?c = "SysWrite fd (buf_queue (fbuf s))"
  let ?r = "fst (sys os (trace s) ?c)"
  have r: "-1 \<le> ?r" "nat ?r \<le> length (buf_queue (fbuf s))"
    using assms(1) unfolding io_bounded_def Let_def by (simp_all add: nat_le_iff)
  with assms(2) show ?thesis
    by (auto simp: splice_out_def wp_simps conserved_def buf.get_inv buf.get_queue call_state_def)
qed

lemma file_splice_post:
  assumes "io_bounded os" and "buf_inv (fbuf s)" and "0 < n"
  shows "wp never (file_splice_userspace os fd_in fd_out n) (\<lambda>_ t. conserved os s t) s"
proof -
  have "wp never (splice_out os fd_out) (\<lambda>_ t. conserved os s t) u" if "conserved os s u" for u
    by (rule wp_mono [OF splice_out_post [OF assms(1)]]) (use that conserved_trans conserved_inv in blast)+
  then show ?thesis
    using assms(3)
    by (auto simp: file_splice_userspace_def wp_simps split: option.split intro!: wp_mono [OF splice_in_post [OF assms(1,2)]])
qed

text \<open>A sequence of calls, as the transfer loop makes them.\<close>

primrec splices :: "nat list \<Rightarrow> os \<Rightarrow> fd \<Rightarrow> fd \<Rightarrow> ('m fproc_scheme, unit) prog" where
  "splices [] os fd_in fd_out = ret ()"
| "splices (n # ns) os fd_in fd_out = seqP (file_splice_userspace os fd_in fd_out n) (splices ns os fd_in fd_out)"

lemma splices_post:
  assumes "io_bounded os" and "buf_inv (fbuf s)" and "0 \<notin> set ns"
  shows "wp never (splices ns os fd_in fd_out) (\<lambda>_ t. conserved os s t) s"
  using assms(2,3)
proof (induction ns arbitrary: s)
  case Nil
  then show ?case by (simp add: wp_simps conserved_def)
next
  case (Cons n ns)
  have "wp never (splices ns os fd_in fd_out) (\<lambda>_ t. conserved os s t) u" if "conserved os s u" for u
    by (rule wp_mono [OF Cons.IH]) (use that Cons.prems(2) conserved_trans conserved_inv in auto)
  then show ?case
    unfolding splices.simps wp_seqP
    by (rule wp_mono [OF file_splice_post [OF assms(1)], rotated 2]) (use Cons.prems in auto)
qed

section \<open>Properties\<close>

text \<open>C28: Copying through the buffer preserves the data. Over any number of calls with any sizes, and
  however short the reads and writes turn out, the bytes written to the destination followed by
  those still in the buffer are exactly the bytes that were in the buffer followed by those read:
  the buffer refines a queue, nothing is lost, repeated or reordered, and no index leaves the
  buffer.\<close>

theorem userspace_splice_fifo:
  assumes "io_bounded os" and "buf_inv (fbuf s)" and "0 \<notin> set ns"
  shows "wp never (splices ns os fd_in fd_out) (\<lambda>_ t. buf_inv (fbuf t) \<and> (\<exists>h. trace t = trace s @ h \<and>
    buf_queue (fbuf s) @ bytes_in os (trace s) h = bytes_out h @ buf_queue (fbuf t))) s"
  using splices_post [OF assms] unfolding conserved_def .

definition feeding_os :: os where
  "feeding_os = quiet_os\<lparr>sys := (\<lambda>h c. (case c of SysRead fd n \<Rightarrow> int (min n 3) | SysWrite fd bs \<Rightarrow> int (min (length bs) 2) | _ \<Rightarrow> 0, EAGAIN)),
     os_data := (\<lambda>h fd. [1, 2, 3])\<rparr>"

definition splice_state :: fproc where
  "splice_state = \<lparr>errno = 0, trace = [], fbuf = \<lparr>fc_data = replicate 4 0, fc_rp = 0, fc_wp = 0\<rparr>\<rparr>"

theorem userspace_splice_fifo_witness:
  "wp never (splices [3, 1, 2] feeding_os 5 6) (\<lambda>_ t. \<exists>h. trace t = h \<and>
     bytes_in feeding_os [] h = bytes_out h @ buf_queue (fbuf t)) splice_state"
  by (rule wp_mono [OF userspace_splice_fifo])
    (auto simp: io_bounded_def feeding_os_def splice_state_def buf_inv_def buf_queue_def Let_def)

text \<open>The number of bytes moved is not bounded by the number asked for, and the end of the file hides
  what is pending. When bytes of an earlier short write are in the buffer, a call for one byte can
  write and report more than one; and when the read reports the end of the file, the call reports
  0 although the buffer still holds bytes, which are not written.\<close>

theorem userspace_splice_pending:
  assumes "buf_inv (fbuf s)" and "buf_queue (fbuf s) = [a, b]" and "0 < buf_room (fbuf s)"
    and "\<forall>h fd. os_data os h fd = [d]" and "\<forall>h fd bs. fst (sys os h (SysWrite fd bs)) = int (length bs)"
    and "fst (sys os (trace s) (SysRead fd_in 1)) = r" and "r \<in> {0, 1}"
  shows "wp never (file_splice_userspace os fd_in fd_out 1) (\<lambda>n t.
     if r = 1 then n = 3 \<and> bytes_out (drop (length (trace s)) (trace t)) = [a, b, d] else n = 0 \<and> buf_queue (fbuf t) = [a, b]) s"
proof -
  have m: "min 1 (buf_room (fbuf s)) = 1" using assms(3) by simp
  have put: "buf_queue (buf_put [d] (fbuf s)) = [a, b, d]" using assms(1-3) by (simp add: buf.put_queue)
  then have "fc_rp (buf_put [d] (fbuf s)) < fc_wp (buf_put [d] (fbuf s))"
    by (metis buf_queue_def diff_is_0_eq leI list.distinct(1) take0 take_0)
  then show ?thesis
    using assms m put
    by (auto simp: file_splice_userspace_def splice_in_def splice_out_def wp_simps Let_def call_state_def)
qed

theorem userspace_splice_pending_witness:
  "wp never (file_splice_userspace (feeding_os\<lparr>sys := (\<lambda>h c. (case c of SysRead fd n \<Rightarrow> 1 | SysWrite fd bs \<Rightarrow> int (length bs) | _ \<Rightarrow> 0, EAGAIN)),
      os_data := (\<lambda>h fd. [9])\<rparr>) 5 6 1) (\<lambda>n t. n = 3) (splice_state\<lparr>fbuf := \<lparr>fc_data = [7, 8, 0, 0], fc_rp = 0, fc_wp = 2\<rparr>\<rparr>)"
  by (rule wp_mono [OF userspace_splice_pending [where r = 1 and a = 7 and b = 8 and d = 9]])
    (auto simp: feeding_os_def splice_state_def buf_inv_def buf_queue_def buf_room_def)

end
