(* ===== verification/Sfd_Kqueue.thy ===== *)
theory Sfd_Kqueue
  imports Sfd_Poll Sfd_Sockets
begin

text \<open>
  FreeBSD: the poller on \<open>kqueue(2)\<close> (\<open>impl/syspoll_kqueue.c\<close>) and the socket functions of
  \<open>impl/unix_sockets_freebsd.c\<close> and \<open>impl/unix_socket_server_freebsd.c\<close>. The poller collects changes
  in an array and submits them with the next wait, which fills the same array with events. The
  locale \<open>change_list\<close> is the contract of the array; it is interpreted on the array of the code.
\<close>

section \<open>The array of changes\<close>

definition EV_ADD :: nat where "EV_ADD = 0x1"
definition EV_DELETE :: nat where "EV_DELETE = 0x2"
definition EV_ONESHOT :: nat where "EV_ONESHOT = 0x10"
definition EV_CLEAR :: nat where "EV_CLEAR = 0x20"
definition EV_ERROR :: nat where "EV_ERROR = 0x4000"
definition EVFILT_READ :: int where "EVFILT_READ = -1"
definition EVFILT_WRITE :: int where "EVFILT_WRITE = -2"
definition EVFILT_SIGNAL :: int where "EVFILT_SIGNAL = -6"
definition EVFILT_TIMER :: int where "EVFILT_TIMER = -7"

lemmas kqueue_defs = EV_ADD_def EV_DELETE_def EV_ONESHOT_def EV_CLEAR_def EV_ERROR_def
  EVFILT_READ_def EVFILT_WRITE_def EVFILT_SIGNAL_def EVFILT_TIMER_def

text \<open>The capacity is the length of the array.\<close>

record kq_syspoll =
  kqfd :: fd
  kq_events :: "kevent list"
  kq_capacity :: nat
  kq_size :: nat

record kproc = proc +
  kq :: kq_syspoll

definition kq_push :: "kevent \<Rightarrow> kq_syspoll \<Rightarrow> kq_syspoll" where
  "kq_push ev this = this\<lparr>kq_events := (kq_events this)[kq_size this := ev], kq_size := kq_size this + 1\<rparr>"

definition kq_changes :: "kq_syspoll \<Rightarrow> kevent list" where
  "kq_changes this = take (kq_size this) (kq_events this)"

definition kq_inv :: "kq_syspoll \<Rightarrow> bool" where
  "kq_inv this \<longleftrightarrow> kq_size this \<le> kq_capacity this \<and> length (kq_events this) = kq_capacity this"

definition kq_room :: "kq_syspoll \<Rightarrow> nat" where
  "kq_room this = kq_capacity this - kq_size this"

locale change_list =
  fixes inv :: "'q \<Rightarrow> bool"
    and changes :: "'q \<Rightarrow> 'e list"
    and room :: "'q \<Rightarrow> nat"
    and push :: "'e \<Rightarrow> 'q \<Rightarrow> 'q"
  assumes push_inv: "inv q \<Longrightarrow> 0 < room q \<Longrightarrow> inv (push e q)"
    and push_changes: "inv q \<Longrightarrow> 0 < room q \<Longrightarrow> changes (push e q) = changes q @ [e]"
    and push_room: "inv q \<Longrightarrow> 0 < room q \<Longrightarrow> room (push e q) = room q - 1"
begin

lemma push_all:
  "inv q \<Longrightarrow> length es \<le> room q \<Longrightarrow>
   inv (fold push es q) \<and> changes (fold push es q) = changes q @ es \<and> room (fold push es q) = room q - length es"
proof (induction es arbitrary: q)
  case (Cons e es)
  then have "0 < room q" by simp
  with Cons Cons.IH [of "push e q"] show ?case by (simp add: push_inv push_changes push_room)
qed simp

end

interpretation kq: change_list kq_inv kq_changes kq_room kq_push
  by unfold_locales
    (auto simp: kq_inv_def kq_changes_def kq_room_def kq_push_def take_Suc_conv_app_nth)

section \<open>Operations\<close>

definition upd_kq :: "(kq_syspoll \<Rightarrow> kq_syspoll) \<Rightarrow> ('m kproc_scheme, unit) prog" where
  "upd_kq f = modP (\<lambda>s. s\<lparr>kq := f (kq s)\<rparr>)"

definition kq_add ::
  "int \<Rightarrow> udata \<Rightarrow> int \<Rightarrow> nat \<Rightarrow> int \<Rightarrow> nat \<Rightarrow> ('m kproc_scheme, unit) prog" where
  "kq_add ident ud filt flags data fflags =
     bindP (getP kq) (\<lambda>this.
     seqP (assertP (kq_size this < kq_capacity this) ''this->size < this->capacity'')
     (upd_kq (kq_push \<lparr>kv_ident = ident, kv_filter = filt, kv_flags = EV_ADD OR EV_CLEAR OR flags,
        kv_fflags = fflags, kv_data = data, kv_udata = ud\<rparr>)))"

definition kq_syspoll_delete :: "os \<Rightarrow> ('m kproc_scheme, unit) prog" where
  "kq_syspoll_delete os = bindP (getP kq) (\<lambda>this. close_fd os (kqfd this))"

text \<open>Both registrations name \<open>SIGTERM\<close>.\<close>

definition kq_syspoll_new :: "os \<Rightarrow> int \<Rightarrow> kevent \<Rightarrow> ('m kproc_scheme, bool) prog" where
  "kq_syspoll_new os maxevents junk =
     seqP (assertP (maxevents > 0) ''maxevents > 0'')
     (bindP (syscall os (SysMalloc 32)) (\<lambda>m.
      if m \<le> 0 then ret False
      else bindP (syscall os (SysAdmin SysKqueue)) (\<lambda>fd.
      seqP (upd_kq (\<lambda>_. \<lparr>kqfd = fd, kq_events = [], kq_capacity = nat maxevents * 2, kq_size = 0\<rparr>))
      (let fail = seqP (kq_syspoll_delete os) (ret False)
       in if fd = -1 then fail
          else bindP (syscall os (SysMalloc (32 * (nat maxevents * 2)))) (\<lambda>ev.
          if ev \<le> 0 then fail
          else seqP (upd_kq (\<lambda>this. this\<lparr>kq_events := replicate (kq_capacity this) junk\<rparr>))
          (bindP (syscall os SysSigmask) (\<lambda>sm.
           if sm = -1 then fail
           else seqP (kq_add (int SIGTERM) USignal EVFILT_SIGNAL 0 0 0)
                (seqP (kq_add (int SIGTERM) USignal EVFILT_SIGNAL 0 0 0) (ret True)))))))))"

definition kq_register1 :: "int \<Rightarrow> udata \<Rightarrow> nat \<Rightarrow> nat \<Rightarrow> ('m kproc_scheme, unit) prog" where
  "kq_register1 ident ud events ev =
     bindP (getP kq) (\<lambda>this.
     seqP (assertP (kq_size this < kq_capacity this) ''this->size < this->capacity'')
     (whenP (has events ev)
       (kq_add ident ud (if ev = SYSPOLL_READ then EVFILT_READ else EVFILT_WRITE)
          (if has events SYSPOLL_ONESHOT then EV_ONESHOT else 0) 0 0)))"

definition kq_syspoll_register :: "int \<Rightarrow> udata \<Rightarrow> nat \<Rightarrow> ('m kproc_scheme, bool) prog" where
  "kq_syspoll_register ident ud events =
     seqP (kq_register1 ident ud events SYSPOLL_READ) (seqP (kq_register1 ident ud events SYSPOLL_WRITE) (ret True))"

definition kq_syspoll_timer :: "int \<Rightarrow> udata \<Rightarrow> 32 word \<Rightarrow> ('m kproc_scheme, bool) prog" where
  "kq_syspoll_timer ident ud millis =
     seqP (kq_add ident ud EVFILT_TIMER EV_ONESHOT (uint millis) 0) (ret True)"

definition kq_syspoll_deregister :: "fd \<Rightarrow> ('m kproc_scheme, bool) prog" where
  "kq_syspoll_deregister fd =
     bindP (getP kq) (\<lambda>this.
     seqP (assertP (kq_size this < kq_capacity this) ''this->size < this->capacity'')
     (seqP (upd_kq (kq_push \<lparr>kv_ident = fd, kv_filter = 0, kv_flags = EV_DELETE, kv_fflags = 0, kv_data = 0, kv_udata = URes 0\<rparr>))
      (ret True)))"

text \<open>The events the kernel reports replace the beginning of the array. Size and capacity are passed as \<open>int\<close>;
  the model has them as they are, which is the same below \<open>2 ^ 31\<close>.\<close>

definition syspoll_kevent :: "os \<Rightarrow> bool \<Rightarrow> ('m kproc_scheme, int) prog" where
  "syspoll_kevent os forever =
     bindP (getP kq) (\<lambda>this.
     bindP (getP trace) (\<lambda>h.
     bindP (syscall os (SysAdmin (SysKevent (kqfd this) (kq_changes this) (kq_capacity this) forever))) (\<lambda>nevents.
     let evs = take (kq_capacity this) (os_kevents os h (kqfd this))
     in seqP (upd_kq (\<lambda>this. this\<lparr>kq_events := evs @ drop (length evs) (kq_events this), kq_size := 0\<rparr>))
        (ret nevents))))"

definition kq_syspoll_wait :: "os \<Rightarrow> ('m kproc_scheme, int) prog" where
  "kq_syspoll_wait os = syspoll_kevent os True"

definition kq_syspoll_poll :: "os \<Rightarrow> ('m kproc_scheme, int) prog" where
  "kq_syspoll_poll os = syspoll_kevent os False"

definition kq_syspoll_get :: "nat \<Rightarrow> ('m kproc_scheme, syspoll_events) prog" where
  "kq_syspoll_get eventnum =
     bindP (getP kq) (\<lambda>this.
     seqP (assertP (eventnum < kq_capacity this) ''eventnum < this->capacity'')
     (let ev = kq_events this ! eventnum
      in if kv_filter ev = EVFILT_SIGNAL then
           seqP (assertP (kv_ident ev = int SIGTERM \<or> kv_ident ev = int SIGINT) ''SIGTERM or SIGINT'')
           (ret \<lparr>se_events = SYSPOLL_TERM, se_udata = URes 0\<rparr>)
         else
           seqP (assertP (kv_flags ev = EV_ERROR \<or> kv_filter ev = EVFILT_READ \<or> kv_filter ev = EVFILT_WRITE \<or>
                          kv_filter ev = EVFILT_TIMER) ''known filter'')
           (if kv_flags ev = EV_ERROR then ret \<lparr>se_events = SYSPOLL_ERROR, se_udata = kv_udata ev\<rparr>
            else if kv_filter ev = EVFILT_READ then ret \<lparr>se_events = SYSPOLL_READ, se_udata = kv_udata ev\<rparr>
            else if kv_filter ev = EVFILT_WRITE then ret \<lparr>se_events = SYSPOLL_WRITE, se_udata = kv_udata ev\<rparr>
            else ret \<lparr>se_events = SYSPOLL_READ, se_udata = kv_udata ev\<rparr>)))"

section \<open>Sockets on FreeBSD\<close>

definition us_socket_freebsd :: "os \<Rightarrow> ('m proc_scheme, fd) prog" where
  "us_socket_freebsd os =
     bindP (syscall os SysSocket) (\<lambda>fd.
     if fd = -1 then ret fd
     else bindP (set_nonblock os fd True) (\<lambda>nb.
     bindP (if nb then set_cloexec os fd True else ret False) (\<lambda>ok.
     if \<not> ok then seqP (PRESERVE_ERRNO (close_fd os fd)) (ret (-1)) else ret fd)))"

definition LOCAL_CREDS :: nat where "LOCAL_CREDS = 2"

definition us_set_passcred_option_freebsd :: "os \<Rightarrow> fd \<Rightarrow> ('m proc_scheme, bool) prog" where
  "us_set_passcred_option_freebsd os fd = bindP (syscall os (SysSetsockopt fd LOCAL_CREDS)) (\<lambda>r. ret (r = 0))"

text \<open>The buffers are allocated; \<open>cmsg_size\<close> and \<open>creds_size\<close> are their sizes. The first descriptor is
  made non-blocking whether or not one was received, and the process id is unknown.\<close>

definition us_recv_freebsd :: "os \<Rightarrow> nat \<Rightarrow> nat \<Rightarrow> fd \<Rightarrow> received \<Rightarrow> ('m proc_scheme, int \<times> received) prog" where
  "us_recv_freebsd os cmsg_size creds_size srv_fd rc =
     seqP (assertP (rc_nfds rc > 0) ''recvd_fds && nfds && *nfds > 0'')
     (bindP (syscall os (SysMalloc cmsg_size)) (\<lambda>cb.
      if cb \<le> 0 then ret (-1, rc)
      else bindP (syscall os (SysMalloc creds_size)) (\<lambda>cr.
      if cr \<le> 0 then ret (-1, rc)
      else bindP (getP trace) (\<lambda>h.
      bindP (syscall os (SysRecvmsg srv_fd (length (rc_buf rc)))) (\<lambda>nrecvd.
      if nrecvd = -1 then ret (-1, rc)
      else
        let m = os_message os h srv_fd;
            data = take (length (rc_buf rc)) (msg_data m);
            rc1 = rc\<lparr>rc_buf := data @ drop (length data) (rc_buf rc)\<rparr>
        in if msg_flags m = MSG_TRUNC \<or> msg_flags m = MSG_CTRUNC then
             seqP (set_errno ERANGE) (ret (-1, rc1))
           else bindP (us_get_fds_and_creds (msg_cmsgs m) (rc_fds rc1) (rc_nfds rc1)) (\<lambda>st.
             let rc2 = rc1\<lparr>rc_fds := cs_fds st, rc_nfds := cs_nfds st\<rparr>
             in case cs_creds st of
                  None \<Rightarrow> ret (-1, rc2)
                | Some u \<Rightarrow>
                    seqP (set_nonblock os (cs_fds st ! 0) True)
                    (seqP (whenP (cs_nfds st = 2) (seqP (set_nonblock os (cs_fds st ! 1) True) (ret ())))
                    (ret (nrecvd, rc2\<lparr>rc_uid := uc_uid u, rc_gid := uc_gid u, rc_pid := US_INVALID_PID\<rparr>)))))))))"

section \<open>Rules\<close>

definition aborts :: "failure \<Rightarrow> bool" where
  "aborts e \<longleftrightarrow> e = Aborted ''this->size < this->capacity''"

lemma wp_kq_add:
  "wp aborts (kq_add i ud f fl d ff) Q s \<longleftrightarrow> (kq_size (kq s) < kq_capacity (kq s) \<longrightarrow>
     Q () (s\<lparr>kq := kq_push \<lparr>kv_ident = i, kv_filter = f, kv_flags = EV_ADD OR EV_CLEAR OR fl, kv_fflags = ff,
       kv_data = d, kv_udata = ud\<rparr> (kq s)\<rparr>))"
  by (simp add: kq_add_def upd_kq_def wp_simps aborts_def)

text \<open>The changes a registration asks for.\<close>

definition filters :: "int \<Rightarrow> udata \<Rightarrow> nat \<Rightarrow> kevent list" where
  "filters i ud ev = map (\<lambda>f. \<lparr>kv_ident = i, kv_filter = f,
       kv_flags = EV_ADD OR EV_CLEAR OR (if has ev SYSPOLL_ONESHOT then EV_ONESHOT else 0), kv_fflags = 0, kv_data = 0, kv_udata = ud\<rparr>)
     ((if has ev SYSPOLL_READ then [EVFILT_READ] else []) @ (if has ev SYSPOLL_WRITE then [EVFILT_WRITE] else []))"

lemma register_pushes:
  "wp aborts (kq_syspoll_register i ud ev) (\<lambda>ok t. ok \<and> length (filters i ud ev) \<le> kq_room (kq s) \<and>
     t = s\<lparr>kq := fold kq_push (filters i ud ev) (kq s)\<rparr>) s"
  by (auto simp: kq_syspoll_register_def kq_register1_def wp_seqP wp_bindP wp_getP wp_assertP wp_whenP wp_ret wp_kq_add
      filters_def event_defs kq_room_def aborts_def kq_push_def)

text \<open>A sequence of requests to the poller between two waits.\<close>

datatype kq_request = Register int udata nat | Timer int udata "32 word" | Deregister fd

fun requested :: "kq_request \<Rightarrow> kevent list" where
  "requested (Register i ud ev) = filters i ud ev"
| "requested (Timer i ud ms) = [\<lparr>kv_ident = i, kv_filter = EVFILT_TIMER, kv_flags = EV_ADD OR EV_CLEAR OR EV_ONESHOT,
     kv_fflags = 0, kv_data = uint ms, kv_udata = ud\<rparr>]"
| "requested (Deregister fd) = [\<lparr>kv_ident = fd, kv_filter = 0, kv_flags = EV_DELETE, kv_fflags = 0, kv_data = 0, kv_udata = URes 0\<rparr>]"

fun run_request :: "kq_request \<Rightarrow> ('m kproc_scheme, bool) prog" where
  "run_request (Register i ud ev) = kq_syspoll_register i ud ev"
| "run_request (Timer i ud ms) = kq_syspoll_timer i ud ms"
| "run_request (Deregister fd) = kq_syspoll_deregister fd"

primrec run_requests :: "kq_request list \<Rightarrow> ('m kproc_scheme, unit) prog" where
  "run_requests [] = ret ()"
| "run_requests (r # rs) = seqP (run_request r) (run_requests rs)"

lemma run_request_post:
  "wp aborts (run_request r) (\<lambda>_ t. length (requested r) \<le> kq_room (kq s) \<and> t = s\<lparr>kq := fold kq_push (requested r) (kq s)\<rparr>) s"
proof (cases r)
  case (Register i ud ev)
  then show ?thesis by (auto intro: wp_mono [OF register_pushes])
qed (auto simp: kq_syspoll_timer_def kq_syspoll_deregister_def wp_seqP wp_bindP wp_getP wp_assertP wp_ret wp_kq_add upd_kq_def
    wp_modP kq_room_def aborts_def)

lemma run_requests_post:
  "kq_inv (kq s) \<Longrightarrow> wp aborts (run_requests rs) (\<lambda>_ t. kq_inv (kq t) \<and> kqfd (kq t) = kqfd (kq s) \<and> kq_capacity (kq t) = kq_capacity (kq s) \<and>
     kq_changes (kq t) = kq_changes (kq s) @ concat (map requested rs) \<and> trace t = trace s) s"
proof (induction rs arbitrary: s)
  case Nil
  then show ?case by (simp add: wp_simps)
next
  case (Cons r rs)
  have same: "kqfd (fold kq_push es q) = kqfd q \<and> kq_capacity (fold kq_push es q) = kq_capacity q" for es q
    by (induction es arbitrary: q) (auto simp: kq_push_def)
  show ?case
    unfolding run_requests.simps wp_seqP
  proof (rule wp_mono [OF run_request_post], elim conjE)
    fix t assume t: "length (requested r) \<le> kq_room (kq s)" "t = s\<lparr>kq := fold kq_push (requested r) (kq s)\<rparr>"
    have "kq_inv (kq t)" "kq_changes (kq t) = kq_changes (kq s) @ requested r"
      using kq.push_all [OF Cons.prems t(1)] t(2) by auto
    then show "wp aborts (run_requests rs) (\<lambda>_ t. kq_inv (kq t) \<and> kqfd (kq t) = kqfd (kq s) \<and> kq_capacity (kq t) = kq_capacity (kq s) \<and>
       kq_changes (kq t) = kq_changes (kq s) @ concat (map requested (r # rs)) \<and> trace t = trace s) t"
      by (intro wp_mono [OF Cons.IH]) (auto simp: t(2) same)
  qed
qed

lemma new_poller_full:
  "wp never (kq_syspoll_new os 1 junk) (\<lambda>ok t. ok \<longrightarrow> kq_size (kq t) = kq_capacity (kq t)) s"
  by (simp add: kq_syspoll_new_def kq_add_def kq_syspoll_delete_def upd_kq_def kq_push_def wp_simps Let_def call_state_def)

section \<open>Properties\<close>

text \<open>C29: The poller submits every change it was asked for, once and in order. Whatever sequence of
  registrations, timers and deregistrations is made between two waits, either an assertion stops
  the process because the array is full, or the next wait passes exactly the pending changes
  followed by those requested to the kernel and leaves none pending; the array is never overrun.\<close>

theorem kqueue_submits_changes:
  assumes "kq_inv (kq s)"
  shows "wp aborts (seqP (run_requests rs) (kq_syspoll_wait os)) (\<lambda>_ t. kq_inv (kq t) \<and> kq_changes (kq t) = [] \<and>
    (\<exists>r. trace t = trace s @ [(SysAdmin (SysKevent (kqfd (kq s)) (kq_changes (kq s) @ concat (map requested rs))
       (kq_capacity (kq s)) True), r)])) s"
proof -
  have "wp aborts (kq_syspoll_wait os) (\<lambda>_ t. kq_inv (kq t) \<and> kq_changes (kq t) = [] \<and>
      (\<exists>r. trace t = trace u @ [(SysAdmin (SysKevent (kqfd (kq u)) (kq_changes (kq u)) (kq_capacity (kq u)) True), r)])) u"
    if "kq_inv (kq u)" for u :: "'a kproc_scheme"
    using that by (auto simp: kq_syspoll_wait_def syspoll_kevent_def wp_simps upd_kq_def Let_def kq_inv_def kq_changes_def call_state_def)
  then show ?thesis
    unfolding wp_seqP by (intro wp_mono [OF run_requests_post [OF assms]]) fastforce
qed

definition kq_example :: kproc where
  "kq_example = \<lparr>errno = 0, trace = [], kq = \<lparr>kqfd = 5, kq_events = replicate 4
     \<lparr>kv_ident = 0, kv_filter = 0, kv_flags = 0, kv_fflags = 0, kv_data = 0, kv_udata = URes 0\<rparr>, kq_capacity = 4, kq_size = 0\<rparr>\<rparr>"

theorem kqueue_submits_changes_witness:
  "wp aborts (seqP (run_requests [Register 7 (URes 16) SYSPOLL_WRITE, Deregister 7]) (kq_syspoll_wait quiet_os))
     (\<lambda>_ t. kq_inv (kq t) \<and> length (trace t) = 1) kq_example"
  by (rule wp_mono [OF kqueue_submits_changes]) (auto simp: kq_example_def kq_inv_def)

text \<open>A server for one file cannot start on \<open>kqueue\<close>. Room is made for two changes, and both places are
  taken by the registration of \<open>SIGTERM\<close>, made twice; the first registration of a descriptor then
  fails the assertion on the size of the array.\<close>

theorem kqueue_one_file_aborts:
  "wp never (kq_syspoll_new os 1 junk) (\<lambda>ok t. if ok
     then kq_syspoll_register i ud ev t = Fail (Aborted ''this->size < this->capacity'') else True) s"
  by (rule wp_mono [OF new_poller_full])
    (auto simp: kq_syspoll_register_def kq_register1_def bindP_def seqP_def getP_def assertP_def)

end
