(* ===== verification/Sfd_Interpose.thy ===== *)
theory Sfd_Interpose
  imports Sfd_Process
begin

text \<open>
  The functions that take the place of \<open>read\<close>, \<open>write\<close>, \<open>splice\<close> and \<open>sendfile\<close> in test builds
  (\<open>impl/test_interpose.h\<close>, \<open>test_interpose_impl.h\<close>, \<open>test_interpose_linux.c\<close> and
  \<open>test_interpose_freebsd.c\<close>). Each has a script of results; a call takes the next result of its
  script, or goes to the kernel when there is none. Shown: a script is replayed result by result
  without a call of the kernel, and the calls after it reach the kernel again.
\<close>

section \<open>Scripts of results\<close>

definition MOCK_NVALS :: nat where "MOCK_NVALS = 32"
definition MOCK_REALRV :: int where "MOCK_REALRV = -1"

datatype mocked = MockRead | MockWrite | MockSplice | MockSendfile

text \<open>The arrays have \<open>MOCK_NVALS\<close> elements; \<open>md_i\<close> is \<open>-1\<close> when no script is set.\<close>

record mock_data =
  md_retvals :: "int list"
  md_fds :: "fd list"
  md_i :: int
  md_size :: int

record mproc = proc +
  mocks :: "mocked \<Rightarrow> mock_data"

definition mock_data0 :: mock_data where
  "mock_data0 = \<lparr>md_retvals = replicate MOCK_NVALS 0, md_fds = replicate MOCK_NVALS 0, md_i = -1, md_size = 0\<rparr>"

definition upd_mock :: "mocked \<Rightarrow> (mock_data \<Rightarrow> mock_data) \<Rightarrow> ('m mproc_scheme, unit) prog" where
  "upd_mock name f = modP (\<lambda>s. s\<lparr>mocks := (mocks s)(name := f (mocks s name))\<rparr>)"

definition mock_reset :: "mocked \<Rightarrow> ('m mproc_scheme, unit) prog" where
  "mock_reset name = upd_mock name (\<lambda>d. d\<lparr>md_i := -1\<rparr>)"

definition mock_set_retval :: "mocked \<Rightarrow> int \<Rightarrow> ('m mproc_scheme, unit) prog" where
  "mock_set_retval name r =
     upd_mock name (\<lambda>d. d\<lparr>md_retvals := (md_retvals d)[0 := r], md_i := 0, md_size := 1\<rparr>)"

definition mock_set_retval_n :: "mocked \<Rightarrow> int list \<Rightarrow> ('m mproc_scheme, unit) prog" where
  "mock_set_retval_n name vals =
     seqP (assertP (length vals \<le> MOCK_NVALS) ''nvals <= MOCK_NVALS'')
     (upd_mock name (\<lambda>d. d\<lparr>md_retvals := vals @ drop (length vals) (md_retvals d), md_i := 0,
        md_size := int (length vals)\<rparr>))"

definition mock_set_retval_except_fd :: "mocked \<Rightarrow> int \<Rightarrow> fd \<Rightarrow> ('m mproc_scheme, unit) prog" where
  "mock_set_retval_except_fd name r fd =
     upd_mock name (\<lambda>d. d\<lparr>md_retvals := (md_retvals d)[0 := r], md_fds := (md_fds d)[0 := fd],
       md_i := 0, md_size := 1\<rparr>)"

section \<open>The functions in place of the system calls\<close>

text \<open>The conversions to the types of the results, \<open>int\<close> and \<open>ssize_t\<close>.\<close>

definition as_int :: "int \<Rightarrow> int" where "as_int n = sint (word_of_int n :: 32 word)"
definition as_ssize_t :: "int \<Rightarrow> int" where "as_ssize_t n = sint (word_of_int n :: 64 word)"

text \<open>The macro returns from the function it stands in with a scripted result, or falls through
  (\<open>None\<close>).\<close>

definition MOCK_RETURN_IMPL :: "mocked \<Rightarrow> (int \<Rightarrow> int) \<Rightarrow> fd \<Rightarrow> ('m mproc_scheme, int option) prog" where
  "MOCK_RETURN_IMPL name return_type fd_out =
     seqP (bindP (getP mocks) (\<lambda>m. whenP (md_i (m name) = md_size (m name) \<or> md_i (m name) = int MOCK_NVALS)
       (upd_mock name (\<lambda>d. d\<lparr>md_i := -1\<rparr>))))
     (bindP (getP mocks) (\<lambda>m.
      let d = m name; i = nat (md_i d)
      in if md_i d = -1 then ret None
         else if md_i d < 0 \<or> i \<ge> length (md_fds d) \<or> i \<ge> length (md_retvals d) then undefP ''mock_data index''
         else if md_fds d ! i = 0 \<or> md_fds d ! i \<noteq> fd_out then
           seqP (upd_mock name (\<lambda>d. d\<lparr>md_fds := (md_fds d)[i := 0], md_i := md_i d + 1\<rparr>))
           (let rv = return_type (md_retvals d ! i)
            in if rv = MOCK_REALRV then ret None
               else if rv < 0 then seqP (set_errno (as_int (- rv))) (ret (Some (-1)))
               else ret (Some rv))
         else ret None))"

definition MOCK_RETURN_SSIZE_T :: "mocked \<Rightarrow> fd \<Rightarrow> ('m mproc_scheme, int option) prog" where
  "MOCK_RETURN_SSIZE_T name fd_out = MOCK_RETURN_IMPL name as_ssize_t fd_out"

definition MOCK_RETURN_INT :: "mocked \<Rightarrow> fd \<Rightarrow> ('m mproc_scheme, int option) prog" where
  "MOCK_RETURN_INT name fd_out = MOCK_RETURN_IMPL name as_int fd_out"

definition or_real :: "os \<Rightarrow> syscall \<Rightarrow> int option \<Rightarrow> ('m mproc_scheme, int) prog" where
  "or_real os c r = (case r of None \<Rightarrow> syscall os c | Some rv \<Rightarrow> ret rv)"

definition mocked_read :: "os \<Rightarrow> fd \<Rightarrow> nat \<Rightarrow> ('m mproc_scheme, int) prog" where
  "mocked_read os fd len = bindP (MOCK_RETURN_SSIZE_T MockRead fd) (or_real os (SysRead fd len))"

definition mocked_write :: "os \<Rightarrow> fd \<Rightarrow> byte list \<Rightarrow> ('m mproc_scheme, int) prog" where
  "mocked_write os fd bs = bindP (MOCK_RETURN_SSIZE_T MockWrite fd) (or_real os (SysWrite fd bs))"

definition mocked_splice :: "os \<Rightarrow> fd \<Rightarrow> fd \<Rightarrow> size_t \<Rightarrow> ('m mproc_scheme, int) prog" where
  "mocked_splice os fd_in fd_out len = bindP (MOCK_RETURN_SSIZE_T MockSplice fd_out) (or_real os (SysSplice fd_in fd_out len))"

definition mocked_sendfile :: "os \<Rightarrow> fd \<Rightarrow> fd \<Rightarrow> size_t \<Rightarrow> ('m mproc_scheme, int) prog" where
  "mocked_sendfile os sock fd n = bindP (MOCK_RETURN_SSIZE_T MockSendfile sock) (or_real os (SysSendfile sock fd n))"

definition mocked_sendfile_bsd :: "os \<Rightarrow> fd \<Rightarrow> fd \<Rightarrow> size_t \<Rightarrow> ('m mproc_scheme, int) prog" where
  "mocked_sendfile_bsd os fd sock n =
     bindP (MOCK_RETURN_INT MockSendfile sock) (or_real os (SysAdmin (SysSendfileBsd fd sock n)))"

section \<open>A script is replayed\<close>

text \<open>A script without exceptions: what is left of it is the part of the array from \<open>md_i\<close> on.\<close>

definition plain_mock :: "mock_data \<Rightarrow> bool" where
  "plain_mock d \<longleftrightarrow> length (md_retvals d) = MOCK_NVALS \<and> md_fds d = replicate MOCK_NVALS 0 \<and>
     md_size d \<le> int MOCK_NVALS \<and> (md_i d = -1 \<or> 0 \<le> md_i d \<and> md_i d \<le> md_size d)"

definition script :: "mock_data \<Rightarrow> int list" where
  "script d = (if md_i d = -1 then [] else drop (nat (md_i d)) (take (nat (md_size d)) (md_retvals d)))"

definition scripted :: "int \<Rightarrow> int" where
  "scripted v = (if v < 0 then -1 else v)"

definition scriptable :: "int \<Rightarrow> bool" where
  "scriptable v \<longleftrightarrow> v \<noteq> MOCK_REALRV \<and> - (2 ^ 63) \<le> v \<and> v < 2 ^ 63"

fun mocked_writes :: "os \<Rightarrow> (fd \<times> byte list) list \<Rightarrow> ('m mproc_scheme, int list) prog" where
  "mocked_writes os [] = ret []"
| "mocked_writes os ((fd, bs) # cs) =
     bindP (mocked_write os fd bs) (\<lambda>r. bindP (mocked_writes os cs) (\<lambda>rs. ret (r # rs)))"

lemma as_ssize_t_id: "scriptable v \<Longrightarrow> as_ssize_t v = v"
  by (simp add: scriptable_def as_ssize_t_def sint_sbintrunc' signed_take_bit_int_eq_self)

lemma wp_upd_mock [wp_simps]:
  "wp E (upd_mock name f) Q = (\<lambda>s. Q () (s\<lparr>mocks := (mocks s)(name := f (mocks s name))\<rparr>))"
  by (simp add: upd_mock_def wp_simps)

lemma script_Cons:
  assumes "plain_mock d" and "script d = v # vs"
  shows "0 \<le> md_i d" "md_i d < md_size d" "nat (md_i d) < MOCK_NVALS" "md_retvals d ! nat (md_i d) = v"
    "script (d\<lparr>md_i := md_i d + 1\<rparr>) = vs"
proof -
  have i: "0 \<le> md_i d" "md_i d \<le> md_size d" and l: "nat (md_size d) \<le> length (md_retvals d)"
    and dr: "drop (nat (md_i d)) (take (nat (md_size d)) (md_retvals d)) = v # vs"
    using assms by (auto simp: plain_mock_def script_def split: if_splits)
  have lt: "nat (md_i d) < nat (md_size d)"
    using dr l by (metis drop_eq_Nil2 length_take list.distinct(1) min.absorb2 not_le)
  show "0 \<le> md_i d" "md_i d < md_size d" "nat (md_i d) < MOCK_NVALS"
    using i lt assms(1) by (auto simp: plain_mock_def)
  have len: "nat (md_i d) < length (take (nat (md_size d)) (md_retvals d))" using lt l by simp
  show "md_retvals d ! nat (md_i d) = v"
    using Cons_nth_drop_Suc [OF len] dr lt by simp
  show "script (d\<lparr>md_i := md_i d + 1\<rparr>) = vs"
    using Cons_nth_drop_Suc [OF len] dr i by (simp add: script_def nat_add_distrib)
qed

lemma plain_mock_next: "plain_mock d \<Longrightarrow> script d = v # vs \<Longrightarrow> plain_mock (d\<lparr>md_i := md_i d + 1\<rparr>)"
  using script_Cons [of d v vs] by (simp add: plain_mock_def)

text \<open>A call with a script takes its first result; a call without one is passed on.\<close>

lemma mocked_write_scripted:
  assumes "plain_mock (mocks s MockWrite)" and "script (mocks s MockWrite) = v # vs" and "scriptable v"
  shows "wp never (mocked_write os fd bs) (\<lambda>r t. r = scripted v \<and> trace t = trace s \<and>
    (v < 0 \<longrightarrow> errno t = as_int (- v)) \<and> plain_mock (mocks t MockWrite) \<and> script (mocks t MockWrite) = vs) s"
proof -
  let ?d = "mocks s MockWrite"
  note st = script_Cons [OF assms(1,2)]
  have "?d\<lparr>md_fds := (md_fds ?d)[nat (md_i ?d) := 0], md_i := md_i ?d + 1\<rparr> = ?d\<lparr>md_i := md_i ?d + 1\<rparr>"
    using assms(1) st(3) by (cases ?d) (auto simp: plain_mock_def list_update_same_conv)
  then show ?thesis
    using st plain_mock_next [OF assms(1,2)] assms(1,3)
    by (simp add: mocked_write_def MOCK_RETURN_SSIZE_T_def MOCK_RETURN_IMPL_def or_real_def wp_simps Let_def
        as_ssize_t_id scripted_def plain_mock_def scriptable_def)
qed

lemma mocked_write_real:
  assumes "plain_mock (mocks s MockWrite)" and "script (mocks s MockWrite) = []"
  shows "wp never (mocked_write os fd bs) (\<lambda>r t. r = fst (sys os (trace s) (SysWrite fd bs)) \<and>
    trace t = trace s @ [(SysWrite fd bs, r)]) s"
proof -
  have "md_i (mocks s MockWrite) = -1 \<or> md_i (mocks s MockWrite) = md_size (mocks s MockWrite)"
    using assms by (auto simp: plain_mock_def script_def split: if_splits)
  then show ?thesis
    by (auto simp: mocked_write_def MOCK_RETURN_SSIZE_T_def MOCK_RETURN_IMPL_def or_real_def wp_simps Let_def)
qed

lemma mocked_writes_scripted:
  fixes s :: "'m mproc_scheme"
  assumes "plain_mock (mocks s MockWrite)" and "script (mocks s MockWrite) = vals"
    and "list_all scriptable vals" and "length calls = length vals"
  shows "wp never (mocked_writes os calls) (\<lambda>rs t. rs = map scripted vals \<and> trace t = trace s \<and>
    plain_mock (mocks t MockWrite) \<and> script (mocks t MockWrite) = []) s"
  using assms
proof (induction calls arbitrary: vals s)
  case (Cons c calls)
  obtain fd bs v vs where c: "c = (fd, bs)" and v: "vals = v # vs"
    using Cons.prems(4) by (cases c, cases vals) auto
  have "wp never (mocked_write os fd bs) (\<lambda>r t. r = scripted v \<and> trace t = trace s \<and>
      (v < 0 \<longrightarrow> errno t = as_int (- v)) \<and> plain_mock (mocks t MockWrite) \<and> script (mocks t MockWrite) = vs) s"
    using Cons.prems v by (intro mocked_write_scripted) auto
  then show ?case
    unfolding c v mocked_writes.simps
  proof (rule wp_seq_rule)
    fix r and t :: "'m mproc_scheme" assume t: "r = scripted v \<and> trace t = trace s \<and> (v < 0 \<longrightarrow> errno t = as_int (- v)) \<and>
      plain_mock (mocks t MockWrite) \<and> script (mocks t MockWrite) = vs"
    have "wp never (mocked_writes os calls) (\<lambda>rs u. rs = map scripted vs \<and> trace u = trace t \<and>
        plain_mock (mocks u MockWrite) \<and> script (mocks u MockWrite) = []) t"
      using t Cons.prems v by (intro Cons.IH) auto
    then show "wp never (bindP (mocked_writes os calls) (\<lambda>rs. ret (r # rs))) (\<lambda>rs u. rs = map scripted (v # vs) \<and>
        trace u = trace s \<and> plain_mock (mocks u MockWrite) \<and> script (mocks u MockWrite) = []) t"
      by (rule wp_seq_rule) (use t in \<open>simp add: wp_simps\<close>)
  qed
qed (simp add: wp_simps)

text \<open>A script of results for \<open>write\<close> is replayed: the next calls return its results in order, \<open>-1\<close> for
  the negative ones, without reaching the kernel, and the call after them is the kernel's again.\<close>

theorem mock_script_replayed:
  assumes "plain_mock (mocks s MockWrite)" and "list_all scriptable vals" and "length vals \<le> MOCK_NVALS"
    and "length calls = length vals"
  shows "wp never (seqP (mock_set_retval_n MockWrite vals)
      (bindP (mocked_writes os calls) (\<lambda>rs. bindP (mocked_write os fd bs) (\<lambda>r. ret (rs, r)))))
    (\<lambda>(rs, r) t. rs = map scripted vals \<and> r = fst (sys os (trace s) (SysWrite fd bs)) \<and>
       trace t = trace s @ [(SysWrite fd bs, r)]) s"
proof -
  let ?s = "s\<lparr>mocks := (mocks s)(MockWrite := (mocks s MockWrite)
    \<lparr>md_retvals := vals @ drop (length vals) (md_retvals (mocks s MockWrite)), md_i := 0, md_size := int (length vals)\<rparr>)\<rparr>"
  have "plain_mock (mocks ?s MockWrite)" "script (mocks ?s MockWrite) = vals"
    using assms(1,3) by (simp_all add: plain_mock_def script_def)
  note run = mocked_writes_scripted [OF this assms(2,4), of os]
  have "wp never (bindP (mocked_writes os calls) (\<lambda>rs. bindP (mocked_write os fd bs) (\<lambda>r. ret (rs, r))))
      (\<lambda>(rs, r) t. rs = map scripted vals \<and> r = fst (sys os (trace s) (SysWrite fd bs)) \<and>
         trace t = trace s @ [(SysWrite fd bs, r)]) ?s"
    by (rule wp_seq_rule [OF run], rule wp_seq_rule [OF mocked_write_real]) (simp_all add: wp_simps)
  then show ?thesis
    using assms(3) by (simp add: mock_set_retval_n_def wp_simps)
qed

text \<open>Resetting a script keeps the descriptor it made an exception for: the next script, set without an
  exception, is not used by calls on that descriptor.\<close>

theorem mock_exception_survives_reset:
  assumes "plain_mock (mocks s MockRead)" and "fd \<noteq> 0"
  shows "wp never (seqP (mock_set_retval_except_fd MockRead r fd) (seqP (mock_reset MockRead)
      (seqP (mock_set_retval MockRead r') (mocked_read os fd n))))
    (\<lambda>_ t. trace t = trace s @ [(SysRead fd n, fst (sys os (trace s) (SysRead fd n)))]) s"
  using assms by (auto simp: mock_set_retval_except_fd_def mock_reset_def mock_set_retval_def mocked_read_def
      MOCK_RETURN_SSIZE_T_def MOCK_RETURN_IMPL_def or_real_def wp_simps Let_def plain_mock_def MOCK_NVALS_def)

end
