(* ===== verification/Spec2Isabelle.thy ===== *)
theory Spec2Isabelle
  imports Sfd_Program Sfd_Delivery Sfd_Dialogue Sfd_Capacity Sfd_Splice Sfd_Kqueue Sfd_Interpose
begin

text \<open>
  A verification development for \<^bold>\<open>sendfiled\<close>, a daemon that reads files on behalf of its clients.

  \<^bold>\<open>The program.\<close> A client links the library (\<open>src/src/sendfiled.c\<close>, \<open>src/src/responses.c\<close>). It sends a
  request as a datagram on a UNIX socket, together with the write end of a pipe and, for some
  requests, a destination; the kernel attaches its credentials. The server
  (\<open>src/src/impl/server.c\<close>) opens the file, registers the destination with the poller
  (\<open>syspoll_*.c\<close>), answers with the file's metadata and moves the data with \<open>splice\<close> or \<open>sendfile\<close>,
  at most one pipe capacity per turn of its loop. A transfer that has used up its share, or has been
  cancelled, is put into an array of deferred transfers that is worked off at the end of the turn.
  Transfers and timers are kept in open-addressed tables keyed by the transaction id. The server
  process is started by \<open>sfd_spawn\<close> or from the command line (\<open>src/src/main.c\<close>,
  \<open>src/src/impl/process.c\<close>).

  \<^bold>\<open>The model.\<close> A C function is a program of type \<open>('s, 'a) prog\<close>: from a process state to a result
  and a state, or to a failure: an assertion, an undefined operation, an exit, or fuel that has run
  out. The kernel is a parameter \<open>os\<close> that answers system calls as a function of their history, so a
  theorem about all \<open>os\<close> covers every behaviour of the kernel; named predicates (\<open>pipe_atomic\<close>,
  \<open>moves_data\<close>, \<open>mallocs\<close>, \<open>cmsgs_fit\<close>, \<open>io_bounded\<close>, \<open>idle\<close>, \<open>epoll_ok\<close>, \<open>errno_range\<close>, \<open>pipe_holds\<close>, \<open>measurable\<close>) state documented behaviour where a
  theorem needs it. Assertions are enabled in the build, so they are part of the program. Resources
  live in a heap from addresses to structures; freeing one removes it, and reading a freed one is
  undefined. \<open>wp E m Q s\<close> says that \<open>m\<close>, started in \<open>s\<close>, ends with \<open>Q\<close> or with a failure in \<open>E\<close>:
  \<open>never\<close> admits none (total correctness), \<open>defined\<close> all but undefined operations, \<open>tolerated\<close> also
  the one undefined operation of the code that memory exhaustion leads to, and \<open>anyf\<close> every failure, for
  what holds of each run that returns.

  \<^bold>\<open>The theories.\<close>
  \<^item> \<open>Sfd_Prelude\<close>: C integers, \<open>errno\<close> values, C strings, little-endian fields, shared lemmas.
  \<^item> \<open>Sfd_Protocol\<close> (\<open>protocol.h\<close>, \<open>protocol_client.c\<close>, \<open>protocol_server.c\<close>, \<open>responses.c\<close>): messages and
    their byte images, both directions; the locale \<open>pdu_codec\<close> is interpreted on the four fixed-size
    messages. Round trips, rejection of malformed requests, unambiguity of the status stream.
  \<^item> \<open>Sfd_Process\<close>: programs, weakest preconditions, system calls; \<open>stable P m\<close>, a predicate that every run
    of a program keeps, with its structural rules.
  \<^item> \<open>Sfd_Table\<close> (\<open>server_xfer_table.c\<close>): the table, its invariant and the locale \<open>txn_table\<close>; it refines
    a map from slots to elements.
  \<^item> \<open>Sfd_File_IO\<close> (\<open>util*.c\<close>, \<open>file_io.c\<close>, \<open>file_io_linux.c\<close>) and \<open>Sfd_Splice\<close>
    (\<open>file_io_userspace_splice.c\<close>, \<open>file_io_freebsd.c\<close>): opening files and moving data; the userspace
    buffer refines a queue (locale \<open>byte_queue\<close>).
  \<^item> \<open>Sfd_Capacity\<close>: \<open>pipe_capacity\<close> of \<open>util.c\<close>: the measurement ends and leaves no descriptor open.
  \<^item> \<open>Sfd_Resources\<close> (\<open>server_resources.c\<close>) and \<open>Sfd_Responses\<close> (\<open>server_responses.c\<close>): the heap of
    transfers, timers and responses; sending responses.
  \<^item> \<open>Sfd_Poll\<close> (\<open>syspoll_linux.c\<close>) and \<open>Sfd_Kqueue\<close> (\<open>syspoll_kqueue.c\<close>, \<open>unix_sockets_freebsd.c\<close>,
    \<open>unix_socket_server_freebsd.c\<close>): the two pollers; the array of changes refines a list (locale
    \<open>change_list\<close>).
  \<^item> \<open>Sfd_Sockets\<close> (\<open>unix_sockets*.c\<close>, \<open>unix_socket_server*.c\<close>, \<open>unix_socket_client.c\<close>): the request
    socket; what is received is what the kernel attests.
  \<^item> \<open>Sfd_Server\<close> (\<open>server.c\<close>): every function of the server, in the order of a request's life.
  \<^item> \<open>Sfd_Invariant\<close>: the invariant \<open>server_inv\<close>: the tables hold exactly the live transfers and timers,
    the list of deferred transfers is duplicate-free, holds live transfers and fits its array, and
    the flag of a transfer says whether it is listed.
  \<^item> \<open>Sfd_Deferral\<close>, \<open>Sfd_Transfer\<close>, \<open>Sfd_Accounting\<close>, \<open>Sfd_Requests\<close>, \<open>Sfd_Deferred\<close>, \<open>Sfd_Events\<close>,
    \<open>Sfd_Lifecycle\<close>: the invariant and the functional behaviour of deferring, transferring, adding,
    cancelling, processing deferred transfers (locale \<open>deferred_transfers\<close>, interpreted for every
    kernel and for one that keeps its promises), handling events, starting and stopping. The bytes a turn moves
    are attributed to the transfer they were moved for, the messages of a turn are given exactly, and every deferred transfer has its
    turn in a round (\<open>turn_of\<close>) and is finished after enough of them (\<open>finished\<close>).
  \<^item> \<open>Sfd_Steps\<close>: the server as a state machine. \<open>possible\<close> events name live resources; \<open>hazard\<close> names the two events after which the
    code does not recover: an error on the data channel of a transfer in the deferred list, and a \<open>SEND_OPEN\<close> for such a transfer; the reachable states are those
    reached by the other events (\<open>enabled\<close>). \<open>process_event\<close> takes these steps; what the first hazard does is shown.
  \<^item> \<open>Sfd_Registry\<close>: the poller's interest list as the history of system calls determines it, and the
    invariant that ties it to the heap: what is registered for a resource is registered for a live one.
  \<^item> \<open>Sfd_Turns\<close>: reachable states satisfy the invariant, and no possible event is undefined in them, the hazards included. Whole
    batches of events, as the main loop takes them from the poller: an event that is
    still waiting in the batch never names a freed resource, because cancelled transfers are freed
    only at the end of a turn. The tag of a resource tells its type. Where the discipline breaks: a
    second \<open>SEND_OPEN\<close> for the same file, and a retried response whose pipe the client still holds open.
  \<^item> \<open>Sfd_Frame\<close>: what no handler of the server touches (locale \<open>server_frame\<close>, interpreted for the batch of events),
    what all but \<open>transfer_file\<close> keep (\<open>quiet_frame\<close>, interpreted for histories in which no data is moved)
    and what the whole server keeps (\<open>process_frame\<close>, interpreted for the history of system calls and for the bound socket).
  \<^item> \<open>Sfd_Delivery\<close>: the whole of a transfer: over any run of the enabled steps of \<open>Sfd_Steps\<close>, from any state in which it
    is running until it is gone, the bytes moved for it and the bytes it has left are what it had. It ends complete, after a failed attempt to move data, or interrupted (\<open>interrupts\<close>: cancelled by its
    client, timed out, or an error on its destination). The
    hypotheses are \<open>reliable\<close> (the kernel keeps its promises, and a pipe can be measured), \<open>sound_xfers\<close> (running
    transfers have bytes left and a block size), \<open>lone\<close> (no other transfer has the same two descriptors) and \<open>admitted\<close> (its own client
    does not give it another destination by \<open>SEND_OPEN\<close>, and new transfers keep to the two
    conditions before; any client may ask for other files meanwhile).
  \<^item> \<open>Sfd_Loop\<close>: the loops of \<open>server.c\<close> as the code composes them, from \<open>srv_new\<close> to \<open>srv_delete\<close>: in a
    \<open>benign\<close> environment \<open>srv_run\<close> does nothing undefined, for any number of turns; a termination signal
    ends the loop in the turn that sees it, in any environment.
  \<^item> \<open>Sfd_Child\<close> (\<open>process.c\<close>), \<open>Sfd_Client\<close> (\<open>sendfiled.c\<close>, \<open>unix_socket_client*.c\<close>) and
    \<open>Sfd_Daemon\<close> (\<open>main.c\<close>): the client library, child processes and the server program;
    \<open>Sfd_Privileges\<close>: the program serves nobody before it has become an ordinary user.
    \<open>Sfd_Program\<close>: \<open>main\<close> as a whole: nothing undefined is done up to the exit status, and no socket is left behind.
  \<^item> \<open>Sfd_Interpose\<close> (\<open>test_interpose*\<close>): the functions that replace system calls in test builds; a script
    of results is replayed.
  \<^item> \<open>Sfd_Dialogue\<close>: client and server together: a request for a file is answered with exactly one message, and
    what the client decodes from it is what the server has stored, unless the name is empty: then it is dropped; sending an open file.
  \<^item> This theory: cancelling, from the client to the server, and a read from \<open>sfd_read\<close> to the last byte: the size
    announced is the number of bytes moved.

  \<^bold>\<open>Fuel.\<close> \<open>transfer_loop\<close> has \<open>XFER_FUEL = 2 ^ 64\<close> rounds: each round that goes on moves at least a byte
  of a 64-bit count. \<open>fill_pipe\<close> has \<open>2 ^ 31\<close> rounds: a pipe's capacity is an \<open>int\<close>. \<open>deferred_loop\<close> has
  one round more than the list has entries: each round advances or shortens the list.
  \<open>deferred_drained\<close>, \<open>process_deferred_returns\<close> and \<open>pipe_capacity_measures\<close> show that these are enough. The loops over datagrams
  (\<open>reqfd_loop\<close>) and turns (\<open>srv_loop\<close>) run as long as the kernel has input, so their fuel is an
  argument, as is that of \<open>report_errno\<close>, which repeats a write the kernel answers with 0.

  \<^bold>\<open>Not modelled.\<close> Messages to the system log and the terminal (\<open>log.c\<close>, \<open>errors.h\<close>, the usage text),
  which are taken to leave \<open>errno\<close> alone; compiler attributes (\<open>attr.h\<close>); the tests in C++ and the fragments under \<open>src/doc/examples\<close>. \<open>malloc\<close> is a call that answers an address or
  fails; \<open>free\<close> of memory other than resources has no effect on the model.
\<close>

section \<open>From the client to the server\<close>

lemma cancel_received:
  fixes s :: "'m sproc_scheme"
  assumes "server_inv s" and "heap s p = Some (RXfer x)" and "xdefer x \<noteq> CANCEL"
    and "client_pid x \<in> {US_INVALID_PID, pid}"
  shows "wp never (process_request os (cancel_bytes (prot_marshal_cancel (txnid x)) @ rest) n pid fds)
    (\<lambda>ok t. ok \<and> t = defer_state p x CANCEL s) s"
proof -
  let ?buf = "cancel_bytes (prot_marshal_cancel (txnid x)) @ rest"
  have inv: "sinv {} (heap s) (srv s)" using assms(1) by (simp add: server_inv_def)
  have find: "xfer_table_find (xfers (srv s)) (txnid x) = Some (Some p)"
    using tbl.find_item [OF sinv_tables(1) [OF inv], of p] sinv_tables(2) [OF inv] assms(2)
    by (simp add: resrc_xfer_txnid_def)
  have p: "p \<noteq> 0" using sinv_heap [OF inv assms(2)] by simp
  have dec: "prot_unmarshal_cancel ?buf = Some (prot_marshal_cancel (txnid x))"
    by (rule cancel.dec_enc) (simp add: prot_marshal_cancel_def)
  have hdr: "sfd_get_cmd ?buf = PROT_CMD_CANCEL" "sfd_get_stat ?buf = SFD_STAT_OK"
    by (simp_all add: cancel_bytes_def prot_marshal_cancel_def hdr_read_defs)
  have tx: "ca_txnid (prot_marshal_cancel (txnid x)) = txnid x" by (simp add: prot_marshal_cancel_def)
  have "(process_request os ?buf n pid fds :: ('m sproc_scheme, bool) prog) = request_cancel ?buf pid"
    unfolding process_request_def hdr by (simp add: cmd_defs PROT_IS_REQUEST_def)
  moreover have "wp never (get_open_file pid (txnid x)) Q s = Q p s" for Q
    using assms(2,4) find p by (auto simp: get_open_file_def find_xfer_def wp_simps)
  ultimately show ?thesis
    using p by (simp add: request_cancel_def dec tx wp_bindP wp_if wp_seqP wp_ret wp_defer_CANCEL [OF assms(1-3)])
qed

text \<open>In every run of the server from \<open>t\<close>, the bytes moved from the file of the transfer \<open>x\<close> to its destination and the bytes left are \<open>n\<close>; if the
  transfer is gone, all have been moved, or fewer have and the last attempt to move data had failed or the transfer was interrupted.\<close>

definition delivers :: "os \<Rightarrow> nat \<Rightarrow> addr \<Rightarrow> resrc_xfer \<Rightarrow> sproc \<Rightarrow> bool" where
  "delivers os n p x t \<longleftrightarrow> (\<forall>d u. delivery os p x t d u \<longrightarrow>
     (\<exists>g. trace u = trace t @ g \<and> (case heap u p of
        Some (RXfer x') \<Rightarrow> same_xfer x x' \<and> sent x g + unat (nbytes_left x') = n
      | _ \<Rightarrow> sent x g = n \<or> sent x g < n \<and> (stopped x g \<or> d))))"

text \<open>A request to read has been accepted: one message has been written to the client's descriptor \<open>fd\<close>, there is one new
  transfer, of the client and to that descriptor, and it delivers what the message announces.\<close>

definition read_accepted :: "os \<Rightarrow> pid_t \<Rightarrow> fd \<Rightarrow> sproc \<Rightarrow> sproc \<Rightarrow> bool" where
  "read_accepted os pid fd s t \<longleftrightarrow> (\<exists>reply info p x. writes (trace t) = writes (trace s) @ [(fd, reply)] \<and>
     sfd_unmarshal_file_info reply = Some info \<and> heap s p = None \<and> heap t p = Some (RXfer x) \<and>
     cmd x = PROT_CMD_READ \<and> client_pid x = pid \<and> dest_fd x = fd \<and> txnid x = fi_txnid info \<and> nbytes_left x = fi_size info \<and>
     (fi_size info \<noteq> 0 \<and> 0 < xf_blksize (xfile x) \<and> lone p x (heap s) \<longrightarrow> delivers os (unat (fi_size info)) p x t))"

lemma accepted_delivers:
  assumes "reliable os" and "cmsgs_fit os" and "pid \<noteq> US_INVALID_PID" and "sound_xfers (heap s)"
    and "answered PROT_CMD_READ len pid fd s True t"
  shows "read_accepted os pid fd s t"
proof -
  from assms(5) obtain reply p x where x: "server_inv t" "writes (trace t) = writes (trace s) @ [(fd, reply)]"
      "heap t p = Some (RXfer x)" "announces reply x" "client_pid x = pid" "xdefer x = NONE" "heap s p = None"
      "cmd x = PROT_CMD_READ" "stat_fd x = fd" "\<And>q y. heap t q = Some (RXfer y) \<Longrightarrow> q = p \<or> heap s q = Some (RXfer y)"
    by (auto simp: answered_def)
  obtain info where info: "sfd_unmarshal_file_info reply = Some info" "fi_size info = nbytes_left x" "fi_txnid info = txnid x"
    using x(4) unfolding announces_def by (metis append_Nil2)
  have "dest_fd x = fd" using sinv_heap [of "{}" "heap t" "srv t" p "RXfer x"] x(1,3,8,9) by (auto simp: server_inv_def cmd_defs)
  moreover have "delivers os (unat (fi_size info)) p x t"
    if new: "fi_size info \<noteq> 0" "0 < xf_blksize (xfile x)" "lone p x (heap s)"
  proof -
    have "ready_ok x" using new(1,2) info(2) x(8) by (simp add: ready_ok_def word_greater_zero_iff)
    then have sound: "sound_xfers (heap t)" using assms(4) x(3,10) unfolding sound_xfers_def by (metis option.inject resrc.inject(1))
    have lone: "lone p x (heap t)" using new(3) x(10) unfolding lone_def by blast
    have run: "xdefer x \<noteq> CANCEL" "cmd x \<noteq> PROT_CMD_FILE_OPEN" "client_pid x \<noteq> US_INVALID_PID"
      using x(5,6,8) assms(3) by (simp_all add: cmd_defs)
    show ?thesis
      unfolding delivers_def info(2)
    proof (intro allI impI)
      fix d u assume "delivery os p x t d u"
      from delivery_outcome [OF assms(1,2) x(1,3) run sound lone this]
      show "\<exists>g. trace u = trace t @ g \<and> (case heap u p of
          Some (RXfer x') \<Rightarrow> same_xfer x x' \<and> sent x g + unat (nbytes_left x') = unat (nbytes_left x)
        | _ \<Rightarrow> sent x g = unat (nbytes_left x) \<or> sent x g < unat (nbytes_left x) \<and> (stopped x g \<or> d))"
        by (elim exE conjE) (intro exI conjI, assumption, auto split: option.splits resrc.splits)
    qed
  qed
  ultimately show ?thesis
    unfolding read_accepted_def using x(2,3,5,7,8) info
    by (intro exI [of _ reply] exI [of _ info] exI [of _ p] exI [of _ x]) auto
qed

section \<open>Properties\<close>

text \<open>C17: Cancelling works from end to end. When \<open>sfd_cancel\<close> returns true, it has sent a datagram without
  descriptors; when the server handles that datagram, whatever the rest of its buffer holds, and the
  transaction id names a live transfer of the same client that is not cancelled yet, then exactly
  that transfer is marked for cancellation and listed for processing, and nothing else changes.\<close>

theorem cancel_end_to_end:
  assumes "server_inv s" and "heap s p = Some (RXfer x)" and "xdefer x \<noteq> CANCEL"
    and "client_pid x \<in> {US_INVALID_PID, pid}"
  shows "wp never (sfd_cancel cos sock (txnid x)) (\<lambda>sent c'. sent \<longrightarrow>
    (\<exists>data u. SysSendmsg sock data [SCM_CREDENTIALS u] \<in> set (calls_since c c') \<and>
       (\<forall>rest. wp never (process_request os (data @ rest) (length data) pid fds) (\<lambda>ok t. ok \<and> server_inv t \<and>
          heap t = (heap s)(p \<mapsto> RXfer (x\<lparr>xdefer := CANCEL\<rparr>)) \<and> p \<in> set (deferred_list (srv t)) \<and> trace t = trace s) s))) c"
proof -
  let ?data = "cancel_bytes (prot_marshal_cancel (txnid x))"
  have "wp never (process_request os (?data @ rest) (length ?data) pid fds) (\<lambda>ok t. ok \<and> server_inv t \<and>
      heap t = (heap s)(p \<mapsto> RXfer (x\<lparr>xdefer := CANCEL\<rparr>)) \<and> p \<in> set (deferred_list (srv t)) \<and> trace t = trace s) s" for rest
    by (rule wp_mono [OF cancel_received [OF assms]]) (use defer_state_inv [OF assms(1,2), of CANCEL] in auto)
  then show ?thesis
    by (auto simp: sfd_cancel_def wp_simps wp_us_sendv attached_def identified_def)
qed

theorem cancel_end_to_end_witness:
  "wp never (sfd_cancel quiet_os 9 1) (\<lambda>sent c'. sent \<longrightarrow>
    (\<exists>data u. SysSendmsg 9 data [SCM_CREDENTIALS u] \<in> set (calls_since proc0 c') \<and>
       (\<forall>rest. wp never (process_request quiet_os (data @ rest) (length data) 42 []) (\<lambda>ok t. ok \<and> server_inv t \<and>
          heap t = (heap (example_state READY))(16 \<mapsto> RXfer ((example_xfer READY)\<lparr>xdefer := CANCEL\<rparr>)) \<and>
          16 \<in> set (deferred_list (srv t)) \<and> trace t = trace (example_state READY)) (example_state READY)))) proc0"
  using cancel_end_to_end [OF example_inv, of READY 16 "example_xfer READY" 42 quiet_os 9 proc0 quiet_os "[]"]
  by (simp add: example_defs)

text \<open>C15: What is announced is what is sent, from \<open>sfd_read\<close> to the last byte. When \<open>sfd_read\<close> returns a descriptor it has
  sent a datagram with the write end of its pipe. When the server accepts that datagram (\<open>read_accepted\<close>), it has written one message to the descriptor it
  received, and there is one new transfer: it is the client's, its destination is the descriptor received, and its transaction id and
  size are those the client reads from the message. In every run of the server from there (\<open>delivers\<close>), however the turns of this transfer are interleaved
  with everything else, the bytes moved from its file to that descriptor and the bytes left add up to the announced size. If the transfer
  is gone, all of them have been moved; or fewer have, and its last attempt to move data had failed or it was interrupted: the client cancelled it, a timer fired for it before anything was sent, or
  the poller reported an error on the descriptor. The second part is stated for a file that is not empty and has a block size, and where no other transfer has the
  same two descriptors; the runs are those of \<open>delivery\<close>, which has no event of \<open>hazard\<close> and no \<open>SEND_OPEN\<close> for this transfer. A
  request that is not accepted, such as one with an empty name, is outside of this statement.\<close>

theorem announced_size_delivered:
  assumes "0 \<notin> set name" and "length name \<le> PROT_FILENAME_MAX"
    and "server_inv (s :: sproc)" and "reliable os" and "errno_range os" and "0 < errno s" and "errno s \<le> 0xFF"
    and "cmsgs_fit os" and "pid \<noteq> US_INVALID_PID" and "sound_xfers (heap s)"
  shows "wp never (sfd_read cos sock (Some (name @ 0 # mem)) off len nonblock) (\<lambda>r c'. r = -1 \<or>
    (\<exists>data. asked cos sock data [] nonblock c r c' \<and> (\<forall>rest fds.
      wp never (process_request os (data @ rest) (length data) pid fds) (\<lambda>ok t. ok \<longrightarrow> read_accepted os pid (fds ! 0) s t) s))) c"
proof -
  have atomic: "pipe_atomic os" using assms(4) by (simp add: reliable_def)
  have accepted: "ok \<longrightarrow> read_accepted os pid (fds ! 0) s t" if "handled name PROT_CMD_READ len pid (fds ! 0) s ok t" for ok t and fds
    using that accepted_delivers [OF assms(4,8-10)] by (auto simp: handled_def split: if_splits)
  have serve: "wp never (process_request os buf n pid fds) (\<lambda>ok t. ok \<longrightarrow> read_accepted os pid (fds ! 0) s t) s"
    if "wp never (process_request os buf n pid fds) (handled name PROT_CMD_READ len pid (fds ! 0) s) s" for buf n fds
    by (rule wp_mono [OF that accepted])
  show ?thesis
    unfolding request_eqs prot_marshal_read_def
    by (rule wp_mono [OF file_request_handled [OF assms(1-3) atomic assms(5-7)]])
      (use serve in \<open>auto simp: PROT_MAXFDS_def\<close>)
qed

theorem announced_size_delivered_witness:
  "wp never (sfd_read quiet_os 9 (Some ([97, 98] @ 0 # [])) 5 7 True) (\<lambda>r c'. r = -1 \<or>
    (\<exists>data. asked quiet_os 9 data [] True proc0 r c' \<and> (\<forall>rest fds.
      wp never (process_request delivering_os (data @ rest) (length data) 43 fds)
        (\<lambda>ok t. ok \<longrightarrow> read_accepted delivering_os 43 (fds ! 0) serving_state t) serving_state))) proc0"
proof -
  have "server_inv serving_state" using example_inv [of READY] by (simp add: serving_state_def server_inv_def)
  moreover have "sound_xfers (heap serving_state)" by (auto simp: serving_state_def sound_xfers_def ready_ok_def example_defs split: if_splits)
  ultimately show ?thesis
    by (intro announced_size_delivered delivering_os_ok)
      (auto simp: PROT_FILENAME_MAX_def serving_state_def EAGAIN_def errno_range_def delivering_os_def moving_os_def cmsgs_fit_def quiet_os_def US_INVALID_PID_def
        split: syscall.splits)
qed

end
